(* ===== verification/Prelude.thy ===== *)
theory Prelude
  imports Main
begin

text \<open>
  Shared vocabulary of the gateway model.
  \<^item> \<open>jsval\<close>: the JavaScript values the gateway passes around (GraphQL
    arguments, HTTP bodies parsed by axios, JWT payloads). Objects are association
    lists in insertion order.
  \<^item> \<open>error\<close>: every exception the gateway code can raise or receive.
  \<^item> \<open>('s, 'a) gw\<close>: an asynchronous JavaScript computation as a state-passing
    function with an error result: an \<open>await\<close> that rejects is \<open>Inl\<close>, a value is
    \<open>Inr\<close>. \<open>gw_bind\<close> is \<open>await\<close> in sequence, \<open>gw_catch\<close> is
    \<open>try ... catch\<close>.
  The collection \<open>gw_simps\<close> holds the rewriting rules of the monad; the component
  theories add the unfolding rules of their primitive operations to it.
\<close>

named_theorems gw_simps "rewriting rules for computations of the gateway model"

datatype jsval =
    JUndef
  | JNull
  | JBool bool
  | JNum int
  | JStr string
  | JArr "jsval list"
  | JObj "(string \<times> jsval) list"

datatype error =
    HttpStatus nat             \<comment> \<open>AxiosError: the backend answered outside 2xx\<close>
  | Transport                  \<comment> \<open>AxiosError: no response (connection refused, reset)\<close>
  | TypeError                  \<comment> \<open>a property read on \<open>null\<close> or \<open>undefined\<close>\<close>
  | SyntaxError                \<comment> \<open>\<open>JSON.parse\<close> on a malformed string\<close>
  | ErrorMsg string            \<comment> \<open>\<open>new Error(msg)\<close> thrown by the gateway itself\<close>

type_synonym ('s, 'a) gw = "'s \<Rightarrow> (error + 'a) \<times> 's"

definition gw_return :: "'a \<Rightarrow> ('s, 'a) gw" where
  "gw_return a s = (Inr a, s)"

definition gw_throw :: "error \<Rightarrow> ('s, 'a) gw" where
  "gw_throw e s = (Inl e, s)"

definition gw_bind :: "('s, 'a) gw \<Rightarrow> ('a \<Rightarrow> ('s, 'b) gw) \<Rightarrow> ('s, 'b) gw" where
  "gw_bind m f s = (case m s of (Inl e, s') \<Rightarrow> (Inl e, s') | (Inr a, s') \<Rightarrow> f a s')"

definition gw_catch :: "('s, 'a) gw \<Rightarrow> (error \<Rightarrow> ('s, 'a) gw) \<Rightarrow> ('s, 'a) gw" where
  "gw_catch m h s = (case m s of (Inl e, s') \<Rightarrow> h e s' | (Inr a, s') \<Rightarrow> (Inr a, s'))"

definition gw_of_sum :: "error + 'a \<Rightarrow> ('s, 'a) gw" where
  "gw_of_sum r = (case r of Inl e \<Rightarrow> gw_throw e | Inr a \<Rightarrow> gw_return a)"

text \<open>
  A frame rule: a computation whose every step keeps a property of the state keeps it
  through \<open>gw_bind\<close> and \<open>gw_catch\<close>. The component theories use it for the
  fields an operation does not write.
\<close>

definition keeps :: "('s \<Rightarrow> bool) \<Rightarrow> ('s, 'a) gw \<Rightarrow> bool" where
  "keeps P m \<longleftrightarrow> (\<forall>s. P s \<longrightarrow> P (snd (m s)))"

subsection \<open>Lists and association lists\<close>

text \<open>Reading index \<open>i\<close> of a JavaScript array: \<open>undefined\<close> out of range.\<close>

fun nth_opt :: "'a list \<Rightarrow> nat \<Rightarrow> 'a option" where
  "nth_opt [] i = None"
| "nth_opt (x # xs) 0 = Some x"
| "nth_opt (x # xs) (Suc i) = nth_opt xs i"

subsection \<open>Rules of the computation monad\<close>

lemma gw_return_app [simp, gw_simps]: "gw_return a s = (Inr a, s)"
  by (simp add: gw_return_def)

lemma gw_throw_app [simp, gw_simps]: "gw_throw e s = (Inl e, s)"
  by (simp add: gw_throw_def)

lemma gw_bind_Inr [gw_simps]: "m s = (Inr a, s') \<Longrightarrow> gw_bind m f s = f a s'"
  by (simp add: gw_bind_def)

lemma gw_bind_Inl [gw_simps]: "m s = (Inl e, s') \<Longrightarrow> gw_bind m f s = (Inl e, s')"
  by (simp add: gw_bind_def)

lemma gw_catch_Inr [gw_simps]: "m s = (Inr a, s') \<Longrightarrow> gw_catch m h s = (Inr a, s')"
  by (simp add: gw_catch_def)

lemma gw_catch_Inl [gw_simps]: "m s = (Inl e, s') \<Longrightarrow> gw_catch m h s = h e s'"
  by (simp add: gw_catch_def)

lemma gw_bind_return [simp, gw_simps]: "gw_bind (gw_return a) f = f a"
  by (simp add: gw_bind_def fun_eq_iff)

lemma gw_bind_throw [simp, gw_simps]: "gw_bind (gw_throw e) f = gw_throw e"
  by (simp add: gw_bind_def fun_eq_iff)

lemma gw_catch_return [simp, gw_simps]: "gw_catch (gw_return a) h = gw_return a"
  by (simp add: gw_catch_def fun_eq_iff)

lemma gw_catch_throw [simp, gw_simps]: "gw_catch (gw_throw e) h = h e"
  by (simp add: gw_catch_def fun_eq_iff)

lemma gw_bind_assoc [gw_simps]:
  "gw_bind (gw_bind m f) g = gw_bind m (\<lambda>a. gw_bind (f a) g)"
  by (simp add: gw_bind_def fun_eq_iff split: prod.split sum.split)

lemma gw_of_sum_app [simp, gw_simps]: "gw_of_sum r s = (r, s)"
  by (cases r) (simp_all add: gw_of_sum_def)

lemma gw_of_sum_simps [simp, gw_simps]:
  "gw_of_sum (Inl e) = gw_throw e" "gw_of_sum (Inr a) = gw_return a"
  by (simp_all add: gw_of_sum_def)

lemma keeps_return [intro]: "keeps P (gw_return a)"
  by (simp add: keeps_def)

lemma keeps_throw [intro]: "keeps P (gw_throw e)"
  by (simp add: keeps_def)

lemma keeps_bind [intro]:
  "keeps P m \<Longrightarrow> (\<And>a. keeps P (f a)) \<Longrightarrow> keeps P (gw_bind m f)"
  by (fastforce simp: keeps_def gw_bind_def split: prod.split sum.split)

lemma keeps_catch [intro]:
  "keeps P m \<Longrightarrow> (\<And>e. keeps P (h e)) \<Longrightarrow> keeps P (gw_catch m h)"
  by (fastforce simp: keeps_def gw_catch_def split: prod.split sum.split)

lemma keeps_of_sum [intro]: "keeps P (gw_of_sum r)"
  by (cases r) auto

lemma keepsD: "keeps P m \<Longrightarrow> P s \<Longrightarrow> m s = (r, s') \<Longrightarrow> P s'"
  by (metis keeps_def snd_conv)

lemma nth_opt_conv: "nth_opt xs i = (if i < length xs then Some (xs ! i) else None)"
  by (induction xs i rule: nth_opt.induct) auto

end
