(* ===== verification/JsRuntime.thy ===== *)
theory JsRuntime
  imports Prelude "HOL-Library.Sublist"
begin

text \<open>
  The parts of the JavaScript runtime the gateway code relies on, as the ECMAScript
  specification defines them for the values of \<open>jsval\<close>:
  \<^item> \<open>js_to_string\<close>: the conversion a template literal \<open>`${x}`\<close> applies;
  \<^item> \<open>js_prop\<close>: a property read \<open>v.k\<close> (a \<open>TypeError\<close> on \<open>null\<close> and
    \<open>undefined\<close>);
  \<^item> \<open>js_split\<close>: \<open>String.prototype.split\<close> with a non-empty separator;
  \<^item> \<open>js_object\<close>: an object literal as \<open>JSON.stringify\<close> sends it over HTTP
    (properties whose value is \<open>undefined\<close> are dropped);
  \<^item> \<open>codec\<close>: \<open>JSON.stringify\<close> and \<open>JSON.parse\<close> as a pair of functions, a
    parameter of every theorem that uses them: \<open>stringify\<close> is \<open>None\<close> where
    JavaScript returns \<open>undefined\<close> or throws, \<open>parse\<close> is \<open>None\<close> where it throws.
  These are language semantics, not code of the repository.
\<close>

subsection \<open>ToString\<close>

text \<open>\<open>Array.prototype.join\<close>: the pieces with \<open>sep\<close> between them.\<close>

fun js_join :: "string \<Rightarrow> string list \<Rightarrow> string" where
  "js_join sep [] = []"
| "js_join sep [x] = x"
| "js_join sep (x # y # xs) = x @ sep @ js_join sep (y # xs)"

fun nat_digits :: "nat \<Rightarrow> string" where
  "nat_digits n =
     (if n < 10 then [char_of (48 + n)]
      else nat_digits (n div 10) @ [char_of (48 + n mod 10)])"

declare nat_digits.simps [simp del]

definition int_to_string :: "int \<Rightarrow> string" where
  "int_to_string i = (if i < 0 then CHR ''-'' # nat_digits (nat (- i)) else nat_digits (nat i))"

fun js_to_string :: "jsval \<Rightarrow> string" where
  "js_to_string JUndef = ''undefined''"
| "js_to_string JNull = ''null''"
| "js_to_string (JBool b) = (if b then ''true'' else ''false'')"
| "js_to_string (JNum i) = int_to_string i"
| "js_to_string (JStr s) = s"
| "js_to_string (JArr vs) =
     js_join '','' (map (\<lambda>v. if v = JUndef \<or> v = JNull then [] else js_to_string v) vs)"
| "js_to_string (JObj kvs) = ''[object Object]''"

subsection \<open>Property access\<close>

definition js_prop :: "jsval \<Rightarrow> string \<Rightarrow> error + jsval" where
  "js_prop v k =
     (case v of
        JUndef \<Rightarrow> Inl TypeError
      | JNull \<Rightarrow> Inl TypeError
      | JObj kvs \<Rightarrow> Inr (case map_of kvs k of None \<Rightarrow> JUndef | Some x \<Rightarrow> x)
      | _ \<Rightarrow> Inr JUndef)"

definition js_object :: "(string \<times> jsval) list \<Rightarrow> jsval" where
  "js_object kvs = JObj (filter (\<lambda>(k, v). v \<noteq> JUndef) kvs)"

text \<open>
  A header value as axios sends it: an object of headers loses the entries whose value
  is \<open>null\<close>, \<open>undefined\<close> or \<open>false\<close>.
\<close>

definition axios_headers :: "(string \<times> jsval) list \<Rightarrow> (string \<times> jsval) list" where
  "axios_headers hs = filter (\<lambda>(k, v). v \<notin> {JUndef, JNull, JBool False}) hs"

subsection \<open>String.prototype.split\<close>

text \<open>
  \<open>split_aux sep acc s\<close> scans \<open>s\<close>; \<open>acc\<close> holds the current piece reversed.
  At each position where \<open>sep\<close> starts, the piece is closed and \<open>sep\<close> skipped.
  The rest of the string shrinks in every call, by one character or by the separator,
  which is what the termination proof measures.
\<close>

function split_aux :: "string \<Rightarrow> string \<Rightarrow> string \<Rightarrow> string list" where
  "split_aux sep acc [] = [rev acc]"
| "split_aux sep acc (c # cs) =
     (if sep \<noteq> [] \<and> take (length sep) (c # cs) = sep
      then rev acc # split_aux sep [] (drop (length sep) (c # cs))
      else split_aux sep (c # acc) cs)"
  by pat_completeness auto

termination
  by (relation "measure (\<lambda>(sep, acc, s). length s)") auto

definition js_split :: "string \<Rightarrow> string \<Rightarrow> string list" where
  "js_split sep s = split_aux sep [] s"

subsection \<open>JSON\<close>

record codec =
  stringify :: "jsval \<Rightarrow> string option"
  parse :: "string \<Rightarrow> jsval option"

text \<open>The property that \<open>JSON.parse\<close> reads back what \<open>JSON.stringify\<close> wrote.\<close>

definition json_roundtrip :: "codec \<Rightarrow> bool" where
  "json_roundtrip c \<longleftrightarrow> (\<forall>v s. stringify c v = Some s \<longrightarrow> parse c s = Some v)"

lemma js_prop_simps [simp]:
  "js_prop JUndef k = Inl TypeError"
  "js_prop JNull k = Inl TypeError"
  "js_prop (JObj kvs) k = Inr (case map_of kvs k of None \<Rightarrow> JUndef | Some x \<Rightarrow> x)"
  "js_prop (JStr s) k = Inr JUndef"
  "js_prop (JNum n) k = Inr JUndef"
  "js_prop (JBool b) k = Inr JUndef"
  "js_prop (JArr vs) k = Inr JUndef"
  by (simp_all add: js_prop_def)

lemma js_join_Cons: "ys \<noteq> [] \<Longrightarrow> js_join sep (x # ys) = x @ sep @ js_join sep ys"
  by (cases ys) simp_all

lemma split_aux_nonempty: "split_aux sep acc s \<noteq> []"
  by (induction sep acc s rule: split_aux.induct) auto

text \<open>Joining the pieces with the separator gives back the scanned text.\<close>

lemma join_split_aux:
  "sep \<noteq> [] \<Longrightarrow> js_join sep (split_aux sep acc s) = rev acc @ s"
proof (induction sep acc s rule: split_aux.induct)
  case (1 sep acc)
  then show ?case by simp
next
  case (2 sep acc c cs)
  show ?case
  proof (cases "take (length sep) (c # cs) = sep")
    case True
    then have "js_join sep (split_aux sep [] (drop (length sep) (c # cs))) = drop (length sep) (c # cs)"
      using "2.IH"(1) "2.prems" by simp
    moreover have "sep @ drop (length sep) (c # cs) = c # cs"
      using True by (metis append_take_drop_id)
    ultimately show ?thesis
      using True "2.prems" by (simp add: js_join_Cons split_aux_nonempty)
  next
    case False
    then show ?thesis using "2.IH"(2) "2.prems" by simp
  qed
qed

text \<open>Where the separator does not occur, the text is one piece.\<close>

lemma split_aux_no_sep:
  "sep \<noteq> [] \<Longrightarrow> \<not> sublist sep s \<Longrightarrow> split_aux sep acc s = [rev acc @ s]"
proof (induction s arbitrary: acc)
  case Nil
  then show ?case by simp
next
  case (Cons c cs)
  have "take (length sep) (c # cs) \<noteq> sep"
    using Cons.prems(2) by (metis append_take_drop_id sublist_append_rightI)
  moreover have "\<not> sublist sep cs"
    using Cons.prems(2) by (meson sublist_Cons_right)
  ultimately show ?case
    using Cons.IH Cons.prems(1) by simp
qed

text \<open>A prefix in which the separator's first character does not occur is never cut.\<close>

lemma split_aux_skip:
  "sep \<noteq> [] \<Longrightarrow> hd sep \<notin> set p \<Longrightarrow> split_aux sep acc (p @ s) = split_aux sep (rev p @ acc) s"
proof (induction p arbitrary: acc)
  case Nil
  then show ?case by simp
next
  case (Cons c p)
  have "take (length sep) (c # p @ s) \<noteq> sep"
    using Cons.prems by (cases sep) auto
  then show ?case using Cons by simp
qed

lemma split_aux_sep_prefix:
  "sep \<noteq> [] \<Longrightarrow> split_aux sep acc (sep @ t) = rev acc # split_aux sep [] t"
  by (cases sep) simp_all

end
