(* ===== verification/Clients.thy ===== *)
theory Clients
  imports JsRuntime
begin

text \<open>
  The two process-wide clients of the gateway and the world they act on
  (\<open>gateway/src/library/redis.ts\<close>, \<open>gateway/src/library/http.ts\<close>).
  \<^item> The Redis client \<open>cacheClient\<close>: \<open>get\<close>, \<open>set\<close> and \<open>del\<close> on the key
    space \<open>store\<close>, each atomic, as Redis makes it. The client is created without an
    \<open>'error'\<close> listener (\<open>redis.ts\<close> line 4), so with node-redis v4 a lost
    connection is an unhandled \<open>'error'\<close> event that ends the gateway process; while
    the gateway runs, its commands complete. Redis being unreachable at startup is the
    failing \<open>connect\<close> of \<open>Invalidator\<close>.
  \<^item> The axios instances, one per backend service: a request goes to the backend,
    whose behaviour is the environment function \<open>backend\<close>; the request is appended to
    \<open>sent\<close>, the log of what each backend received (the observation the properties
    about "zero backend requests" are stated on). A reply outside 2xx rejects with
    \<open>HttpStatus\<close>, no reply with \<open>Transport\<close>; a 2xx reply resolves to the
    response, whose \<open>data\<close> the service code reads \<open>.result\<close> from.
\<close>

datatype service = UserSvc | ProductSvc | OrderSvc

datatype http_method = GET | POST

record http_request =
  rq_method :: http_method
  rq_path :: string
  rq_body :: jsval
  rq_headers :: "(string \<times> jsval) list"

datatype http_response = Response nat jsval

record world =
  store :: "string \<rightharpoonup> string"
  backend :: "service \<Rightarrow> http_request \<Rightarrow> http_response option"
  sent :: "(service \<times> http_request) list"

text \<open>
  The per-request context the GraphQL handler builds (\<open>context: (req) => ({ headers:
  req.headers })\<close>, header names in lower case as Node delivers them) and the
  environment variables the services read (\<open>None\<close> when unset).
\<close>

record req_context =
  headers :: "(string \<times> string) list"

record env_config =
  jwt_secret :: "string option"
  product_api_key :: "string option"

definition get_header :: "req_context \<Rightarrow> string \<Rightarrow> string option" where
  "get_header ctx h = map_of (headers ctx) h"

subsection \<open>The Redis client\<close>

definition cache_get :: "string \<Rightarrow> (world, string option) gw" where
  "cache_get k w = (Inr (store w k), w)"

definition cache_set :: "string \<Rightarrow> string \<Rightarrow> (world, unit) gw" where
  "cache_set k v w = (Inr (), w\<lparr>store := (store w)(k \<mapsto> v)\<rparr>)"

definition cache_del :: "string \<Rightarrow> (world, nat) gw" where
  "cache_del k w = (Inr (if k \<in> dom (store w) then 1 else 0), w\<lparr>store := (store w)(k := None)\<rparr>)"

subsection \<open>The HTTP client\<close>

definition get_req :: "string \<Rightarrow> http_request" where
  "get_req p = \<lparr>rq_method = GET, rq_path = p, rq_body = JUndef, rq_headers = []\<rparr>"

definition post_req :: "string \<Rightarrow> jsval \<Rightarrow> (string \<times> jsval) list \<Rightarrow> http_request" where
  "post_req p b hs = \<lparr>rq_method = POST, rq_path = p, rq_body = b, rq_headers = hs\<rparr>"

definition http_send :: "service \<Rightarrow> http_request \<Rightarrow> (world, http_response) gw" where
  "http_send svc r w =
     (let w' = w\<lparr>sent := sent w @ [(svc, r)]\<rparr> in
      case backend w svc r of
        None \<Rightarrow> (Inl Transport, w')
      | Some (Response st d) \<Rightarrow>
          if 200 \<le> st \<and> st < 300 then (Inr (Response st d), w') else (Inl (HttpStatus st), w'))"

text \<open>\<open>.then((res) => res.data.result)\<close>\<close>

fun unwrap_result :: "http_response \<Rightarrow> (world, jsval) gw" where
  "unwrap_result (Response st d) = gw_of_sum (js_prop d ''result'')"

definition call_service :: "service \<Rightarrow> http_request \<Rightarrow> (world, jsval) gw" where
  "call_service svc r = gw_bind (http_send svc r) unwrap_result"

text \<open>
  A successful call of a service: the backend answers 2xx with an envelope whose
  \<open>result\<close> is \<open>v\<close>.
\<close>

definition replies :: "world \<Rightarrow> service \<Rightarrow> http_request \<Rightarrow> jsval \<Rightarrow> bool" where
  "replies w svc r v \<longleftrightarrow>
     (\<exists>st kvs. backend w svc r = Some (Response st (JObj kvs)) \<and> 200 \<le> st \<and> st < 300
              \<and> map_of kvs ''result'' = Some v)"

subsection \<open>What each primitive does\<close>

lemmas cache_ops [gw_simps] = cache_get_def cache_set_def cache_del_def

lemma http_send_ok [gw_simps]:
  "backend w svc r = Some (Response st d) \<Longrightarrow> 200 \<le> st \<Longrightarrow> st < 300 \<Longrightarrow>
   http_send svc r w = (Inr (Response st d), w\<lparr>sent := sent w @ [(svc, r)]\<rparr>)"
  by (simp add: http_send_def)

lemma http_send_status [gw_simps]:
  "backend w svc r = Some (Response st d) \<Longrightarrow> \<not> (200 \<le> st \<and> st < 300) \<Longrightarrow>
   http_send svc r w = (Inl (HttpStatus st), w\<lparr>sent := sent w @ [(svc, r)]\<rparr>)"
  by (simp add: http_send_def Let_def)

lemma http_send_transport [gw_simps]:
  "backend w svc r = None \<Longrightarrow> http_send svc r w = (Inl Transport, w\<lparr>sent := sent w @ [(svc, r)]\<rparr>)"
  by (simp add: http_send_def)

lemma call_service_ok [gw_simps]:
  "replies w svc r v \<Longrightarrow> call_service svc r w = (Inr v, w\<lparr>sent := sent w @ [(svc, r)]\<rparr>)"
  by (auto simp: replies_def call_service_def gw_simps)

lemma call_service_status [gw_simps]:
  "backend w svc r = Some (Response st d) \<Longrightarrow> \<not> (200 \<le> st \<and> st < 300) \<Longrightarrow>
   call_service svc r w = (Inl (HttpStatus st), w\<lparr>sent := sent w @ [(svc, r)]\<rparr>)"
  by (simp add: call_service_def gw_simps)

lemma call_service_transport [gw_simps]:
  "backend w svc r = None \<Longrightarrow> call_service svc r w = (Inl Transport, w\<lparr>sent := sent w @ [(svc, r)]\<rparr>)"
  by (simp add: call_service_def gw_simps)

subsection \<open>Frame facts\<close>

text \<open>
  The HTTP client never touches the cache; the Redis client never sends a request.
  Stated with \<open>keeps\<close>, they compose through \<open>gw_bind\<close> and \<open>gw_catch\<close>.
\<close>

lemma keeps_cache_get [intro]: "keeps P (cache_get k)"
  by (simp add: keeps_def cache_get_def)

lemma keeps_sent_cache_set [intro]: "keeps (\<lambda>w. sent w = xs) (cache_set k v)"
  by (simp add: keeps_def cache_set_def)

lemma keeps_sent_cache_del [intro]: "keeps (\<lambda>w. sent w = xs) (cache_del k)"
  by (simp add: keeps_def cache_del_def)

lemma keeps_store_http_send [intro]: "keeps (\<lambda>w. store w = m) (http_send svc r)"
  by (simp add: keeps_def http_send_def Let_def split: option.split http_response.split)

lemma keeps_store_call_service [intro]: "keeps (\<lambda>w. store w = m) (call_service svc r)"
  unfolding call_service_def
  by (intro keeps_bind keeps_store_http_send) (metis keeps_of_sum unwrap_result.elims)

lemma call_service_state:
  "call_service svc q w = (r, w') \<Longrightarrow> w' = w\<lparr>sent := sent w @ [(svc, q)]\<rparr>"
  by (auto simp: call_service_def http_send_def gw_bind_def Let_def
           split: option.splits http_response.splits sum.splits if_splits prod.splits)

lemma snd_call_service: "snd (call_service svc q w) = w\<lparr>sent := sent w @ [(svc, q)]\<rparr>"
  by (metis call_service_state prod.collapse)

lemma sent_call_service [simp]: "sent (snd (call_service svc r w)) = sent w @ [(svc, r)]"
  by (simp add: snd_call_service)

lemma keeps_env_cache_set [intro]: "keeps (\<lambda>w. backend w = b) (cache_set k v)"
  by (simp add: keeps_def cache_set_def)

lemma keeps_env_call_service [intro]: "keeps (\<lambda>w. backend w = b) (call_service svc q)"
  by (simp add: keeps_def snd_call_service)

lemma replies_frame [simp]:
  "replies (w\<lparr>store := m\<rparr>) = replies w" "replies (w\<lparr>sent := xs\<rparr>) = replies w"
  by (simp_all add: replies_def fun_eq_iff)

end
