(* ===== verification/ProductService.thy ===== *)
theory ProductService
  imports Clients
begin

text \<open>
  The cache-aside product resolver, \<open>gateway/src/services/product-service.ts\<close>.
  \<open>getAll\<close> and \<open>getById\<close> each run a \<open>try\<close> block (\<open>read_cached\<close>: Redis
  \<open>GET\<close>, a falsy reply thrown as "Cache not found", \<open>JSON.parse\<close>) whose every
  failure falls into a \<open>catch\<close> block (\<open>fill_from\<close>: call the product backend,
  \<open>JSON.stringify\<close> the result, Redis \<open>SET\<close> awaited, return the data). \<open>post\<close>
  checks the \<open>x-api-key\<close> header against \<open>PRODUCT_SERVICE_API_KEY\<close> before it
  forwards the input. \<open>JSON.stringify\<close> and \<open>JSON.parse\<close> are the two functions
  of a \<open>codec\<close> (theory \<open>JsRuntime\<close>).
\<close>

text \<open>The \<open>try\<close> block of \<open>getAll\<close> (lines 14-19) and \<open>getById\<close> (lines 32-37).\<close>

definition read_cached :: "codec \<Rightarrow> string \<Rightarrow> (world, jsval) gw" where
  "read_cached c key =
     gw_bind (cache_get key) (\<lambda>cached.
       case cached of
         None \<Rightarrow> gw_throw (ErrorMsg ''Cache not found'')
       | Some s \<Rightarrow>
           if s = [] then gw_throw (ErrorMsg ''Cache not found'')
           else (case parse c s of None \<Rightarrow> gw_throw SyntaxError | Some v \<Rightarrow> gw_return v))"

text \<open>The \<open>catch\<close> block (lines 22-27 and 40-45).\<close>

text \<open>
  \<open>await cacheClient.set(key, JSON.stringify(data))\<close>: a \<open>TypeError\<close> where
  \<open>JSON.stringify\<close> yields \<open>undefined\<close>, which node-redis refuses as an argument.
\<close>

definition store_serialized :: "codec \<Rightarrow> string \<Rightarrow> jsval \<Rightarrow> (world, unit) gw" where
  "store_serialized c key data =
     (case stringify c data of None \<Rightarrow> gw_throw TypeError | Some s \<Rightarrow> cache_set key s)"

definition fill_from :: "codec \<Rightarrow> string \<Rightarrow> string \<Rightarrow> (world, jsval) gw" where
  "fill_from c key path =
     gw_bind (call_service ProductSvc (get_req path)) (\<lambda>data.
       gw_bind (store_serialized c key data) (\<lambda>_. gw_return data))"

definition product_getAll :: "codec \<Rightarrow> (world, jsval) gw" where
  "product_getAll c = gw_catch (read_cached c ''products/'') (\<lambda>_. fill_from c ''products/'' ''/'')"

definition product_key :: "jsval \<Rightarrow> string" where
  "product_key i = ''products/'' @ js_to_string i"

definition product_getById :: "codec \<Rightarrow> jsval \<Rightarrow> (world, jsval) gw" where
  "product_getById c i =
     gw_catch (read_cached c (product_key i)) (\<lambda>_. fill_from c (product_key i) (''/'' @ js_to_string i))"

definition product_post :: "env_config \<Rightarrow> jsval \<Rightarrow> req_context \<Rightarrow> (world, jsval) gw" where
  "product_post cfg args ctx =
     (case js_prop args ''input'' of
        Inl e \<Rightarrow> gw_throw e
      | Inr input \<Rightarrow>
          if get_header ctx ''x-api-key'' \<noteq> product_api_key cfg
          then gw_throw (ErrorMsg ''Invalid API Key'')
          else call_service ProductSvc (post_req ''/'' (js_object [(''input'', input)]) []))"

subsection \<open>The cache read\<close>

text \<open>What the \<open>try\<close> block returns on an entry, when it returns.\<close>

definition cached_value :: "codec \<Rightarrow> string option \<Rightarrow> jsval option" where
  "cached_value c e = (case e of None \<Rightarrow> None | Some s \<Rightarrow> if s = [] then None else parse c s)"

definition demo_world :: world where
  "demo_world = \<lparr>store = Map.empty,
     backend = (\<lambda>svc r. Some (Response 200 (JObj [(''result'', JStr ''p1'')]))), sent = []\<rparr>"

definition demo_codec :: codec where
  "demo_codec = \<lparr>stringify = \<lambda>v. Some ''\"p1\"'', parse = \<lambda>s. Some (JStr ''p1'')\<rparr>"

lemma read_cached_hit [gw_simps]:
  "cached_value c (store w k) = Some v \<Longrightarrow> read_cached c k w = (Inr v, w)"
  by (auto simp: read_cached_def cached_value_def gw_simps split: option.splits if_splits)

lemma read_cached_miss:
  "cached_value c (store w k) = None \<Longrightarrow> \<exists>e. read_cached c k w = (Inl e, w)"
  by (auto simp: read_cached_def cached_value_def gw_simps split: option.splits if_splits)

lemma read_cached_state: "read_cached c k w = (r, w') \<Longrightarrow> w' = w"
  by (auto simp: read_cached_def cache_get_def gw_bind_def split: option.splits if_splits)

subsection \<open>The cache-aside shape\<close>

text \<open>
  Both reads have the shape \<open>gw_catch (read_cached c k) (\<lambda>_. fill_from c k p)\<close>;
  the following lemmas are stated once for it, on every branch.
\<close>

lemma cache_aside_hit:
  assumes "cached_value c (store w k) = Some v"
  shows "gw_catch (read_cached c k) (\<lambda>_. fill_from c k p) w = (Inr v, w)"
  using assms by (simp add: gw_simps)

lemma cache_aside_catch:
  assumes "cached_value c (store w k) = None"
  shows "gw_catch (read_cached c k) (\<lambda>_. fill_from c k p) w = fill_from c k p w"
  using read_cached_miss [OF assms] by (auto simp: gw_simps)

lemma fill_from_ok:
  assumes "replies w ProductSvc (get_req p) v" "stringify c v = Some s"
  shows "fill_from c k p w =
           (Inr v, w\<lparr>sent := sent w @ [(ProductSvc, get_req p)], store := (store w)(k \<mapsto> s)\<rparr>)"
  using assms by (simp add: fill_from_def store_serialized_def gw_simps)

lemma fill_from_status:
  assumes "backend w ProductSvc (get_req p) = Some (Response st d)" "\<not> (200 \<le> st \<and> st < 300)"
  shows "fill_from c k p w = (Inl (HttpStatus st), w\<lparr>sent := sent w @ [(ProductSvc, get_req p)]\<rparr>)"
  using assms by (simp add: fill_from_def store_serialized_def gw_simps)

lemma cache_aside_miss:
  assumes "cached_value c (store w k) = None"
    and "replies w ProductSvc (get_req p) v" "stringify c v = Some s"
  shows "gw_catch (read_cached c k) (\<lambda>_. fill_from c k p) w =
           (Inr v, w\<lparr>sent := sent w @ [(ProductSvc, get_req p)], store := (store w)(k \<mapsto> s)\<rparr>)"
  using assms by (simp add: cache_aside_catch fill_from_ok)

lemma fill_from_sent:
  "fill_from c k p w = (r, w') \<Longrightarrow> sent w' = sent w @ [(ProductSvc, get_req p)]"
  by (auto simp: fill_from_def store_serialized_def call_service_def http_send_def gw_bind_def cache_set_def Let_def
           split: option.splits http_response.splits sum.splits if_splits prod.splits)

lemma cache_aside_sent:
  "gw_catch (read_cached c k) (\<lambda>_. fill_from c k p) w = (r, w') \<Longrightarrow>
   sent w' = sent w \<or> sent w' = sent w @ [(ProductSvc, get_req p)]"
  by (auto simp: gw_catch_def dest: read_cached_state fill_from_sent split: prod.splits sum.splits)

lemma call_service_error:
  "call_service svc r w = (Inl e, w') \<Longrightarrow> e \<in> {Transport, TypeError} \<union> range HttpStatus"
  by (auto simp: call_service_def http_send_def gw_bind_def js_prop_def Let_def
           split: option.splits http_response.splits sum.splits if_splits prod.splits jsval.splits)

lemma keeps_env_fill_from: "keeps (\<lambda>w. backend w = b) (fill_from c k p)"
  unfolding fill_from_def store_serialized_def by (intro keeps_bind keeps_env_call_service) (auto split: option.split)

lemma keeps_read_cached: "keeps P (read_cached c k)"
  by (simp add: keeps_def) (metis read_cached_state prod.collapse)

subsection \<open>Properties of the product reads\<close>

text \<open>
  C1: for every id, the first \<open>getById\<close> on a cold cache sends exactly one
  \<open>GET /id\<close> to the product backend and stores the serialised result under
  \<open>products/id\<close>; a second call before any invalidation sends nothing, changes
  nothing and returns the same data (given that \<open>JSON.parse\<close> reads back what
  \<open>JSON.stringify\<close> wrote).
\<close>

theorem product_getById_cold_then_warm:
  assumes "store w (product_key (JStr i)) = None"
    and "replies w ProductSvc (get_req (''/'' @ i)) v"
    and "stringify c v = Some s" "s \<noteq> []" "parse c s = Some v"
  shows "let w1 = w\<lparr>sent := sent w @ [(ProductSvc, get_req (''/'' @ i))],
                    store := (store w)(product_key (JStr i) \<mapsto> s)\<rparr>
         in product_getById c (JStr i) w = (Inr v, w1) \<and> product_getById c (JStr i) w1 = (Inr v, w1)"
proof -
  let ?w1 = "w\<lparr>sent := sent w @ [(ProductSvc, get_req (''/'' @ i))],
                store := (store w)(product_key (JStr i) \<mapsto> s)\<rparr>"
  have "product_getById c (JStr i) w = (Inr v, ?w1)"
    using assms unfolding product_getById_def
    by (simp add: cache_aside_miss cached_value_def)
  moreover have "product_getById c (JStr i) ?w1 = (Inr v, ?w1)"
    using assms unfolding product_getById_def
    by (intro cache_aside_hit) (simp_all add: cached_value_def)
  ultimately show ?thesis by (simp add: Let_def)
qed

theorem product_getById_cold_then_warm_witness:
  "let w1 = demo_world\<lparr>sent := [(ProductSvc, get_req ''/7'')], store := [''products/7'' \<mapsto> ''\"p1\"'']\<rparr>
   in product_getById demo_codec (JStr ''7'') demo_world = (Inr (JStr ''p1''), w1)
    \<and> product_getById demo_codec (JStr ''7'') w1 = (Inr (JStr ''p1''), w1)"
  using product_getById_cold_then_warm [of demo_world "''7''" "JStr ''p1''" demo_codec "''\"p1\"''"]
  by (simp add: demo_world_def demo_codec_def replies_def product_key_def)

text \<open>
  C30: every product read sends at most one request, and only the \<open>GET\<close> for its own
  path, to the product backend; a hit sends none.
\<close>

theorem product_getById_one_request:
  assumes "product_getById c i w = (r, w')"
  shows "sent w' = sent w \<or> sent w' = sent w @ [(ProductSvc, get_req (''/'' @ js_to_string i))]"
  using assms unfolding product_getById_def by (rule cache_aside_sent)

theorem product_getById_one_request_witness:
  "sent (snd (product_getById demo_codec (JStr ''7'') demo_world)) = [(ProductSvc, get_req ''/7'')]"
proof -
  obtain r w' where eq: "product_getById demo_codec (JStr ''7'') demo_world = (r, w')"
    by fastforce
  have "sent w' = [] \<or> sent w' = [(ProductSvc, get_req ''/7'')]"
    using product_getById_one_request [OF eq] by (simp add: demo_world_def)
  moreover have "sent w' \<noteq> []"
    using eq by (auto simp add: product_getById_def product_key_def demo_world_def demo_codec_def
                                cache_aside_miss cached_value_def replies_def)
  ultimately show ?thesis using eq by simp
qed

text \<open>
  A cache hit answers from the cache alone: the world, the backends' request logs
  included, is left as it was.
\<close>

theorem product_getAll_hit:
  assumes "cached_value c (store w ''products/'') = Some v"
  shows "product_getAll c w = (Inr v, w)"
  using assms unfolding product_getAll_def by (rule cache_aside_hit)

theorem product_getAll_hit_witness:
  "product_getAll demo_codec (demo_world\<lparr>store := [''products/'' \<mapsto> ''x'']\<rparr>) =
     (Inr (JStr ''p1''), demo_world\<lparr>store := [''products/'' \<mapsto> ''x'']\<rparr>)"
  using product_getAll_hit [where w = "demo_world\<lparr>store := [''products/'' \<mapsto> ''x'']\<rparr>" and c = demo_codec and v = "JStr ''p1''"]
  by (simp add: demo_world_def demo_codec_def cached_value_def)

subsection \<open>Properties of product creation\<close>

text \<open>
  C10: \<open>createProduct\<close> with an \<open>x-api-key\<close> header that differs from the
  configured key is rejected with "Invalid API Key" before any request: the world is
  unchanged, so the product backend receives nothing.
\<close>

theorem product_post_bad_key:
  assumes "get_header ctx ''x-api-key'' \<noteq> product_api_key cfg"
  shows "product_post cfg (JObj [(''input'', inp)]) ctx w = (Inl (ErrorMsg ''Invalid API Key''), w)"
  using assms by (simp add: product_post_def)

theorem product_post_bad_key_witness:
  "product_post \<lparr>jwt_secret = None, product_api_key = Some ''k''\<rparr> (JObj [(''input'', JNull)])
      \<lparr>headers = [(''x-api-key'', ''guess'')]\<rparr> demo_world
   = (Inl (ErrorMsg ''Invalid API Key''), demo_world)"
  by (rule product_post_bad_key) (simp add: get_header_def)

text \<open>
  C17: with the matching key, \<open>createProduct\<close> sends exactly one \<open>POST /\<close> with body
  \<open>{input}\<close> to the product backend and returns the \<open>result\<close> of its reply.
\<close>

theorem product_post_good_key:
  assumes "get_header ctx ''x-api-key'' = product_api_key cfg"
    and "replies w ProductSvc (post_req ''/'' (js_object [(''input'', inp)]) []) v"
  shows "product_post cfg (JObj [(''input'', inp)]) ctx w =
           (Inr v, w\<lparr>sent := sent w @ [(ProductSvc, post_req ''/'' (js_object [(''input'', inp)]) [])]\<rparr>)"
  using assms by (simp add: product_post_def call_service_ok)

theorem product_post_good_key_witness:
  "product_post \<lparr>jwt_secret = None, product_api_key = Some ''k''\<rparr> (JObj [(''input'', JStr ''pen'')])
      \<lparr>headers = [(''x-api-key'', ''k'')]\<rparr> demo_world
   = (Inr (JStr ''p1''), demo_world\<lparr>sent := [(ProductSvc, post_req ''/'' (JObj [(''input'', JStr ''pen'')]) [])]\<rparr>)"
  using product_post_good_key [of "\<lparr>headers = [(''x-api-key'', ''k'')]\<rparr>"
          "\<lparr>jwt_secret = None, product_api_key = Some ''k''\<rparr>" demo_world "JStr ''pen''" "JStr ''p1''"]
  by (simp add: get_header_def demo_world_def replies_def js_object_def)

text \<open>
  C23: the API-key check fails open when \<open>PRODUCT_SERVICE_API_KEY\<close> is unset:
  \<open>undefined !== undefined\<close> is false, so exactly the requests that carry no
  \<open>x-api-key\<close> header get through, and only a request that does carry one is rejected.
\<close>

theorem product_post_unset_key:
  assumes "product_api_key cfg = None"
  shows "fst (product_post cfg (JObj [(''input'', inp)]) ctx w) = Inl (ErrorMsg ''Invalid API Key'')
         \<longleftrightarrow> get_header ctx ''x-api-key'' \<noteq> None"
proof (cases "get_header ctx ''x-api-key''")
  case None
  obtain r w' where eq: "call_service ProductSvc (post_req ''/'' (js_object [(''input'', inp)]) []) w = (r, w')"
    by fastforce
  have "r \<noteq> Inl (ErrorMsg ''Invalid API Key'')"
    using call_service_error [of ProductSvc _ w _ w'] eq by (cases r) auto
  then show ?thesis using None assms eq by (simp add: product_post_def)
next
  case (Some k)
  then show ?thesis using assms by (simp add: product_post_def)
qed

theorem product_post_unset_key_witness:
  "fst (product_post \<lparr>jwt_secret = None, product_api_key = None\<rparr> (JObj [(''input'', JNull)])
          \<lparr>headers = []\<rparr> demo_world) \<noteq> Inl (ErrorMsg ''Invalid API Key'')"
  using product_post_unset_key [of "\<lparr>jwt_secret = None, product_api_key = None\<rparr>" JNull
          "\<lparr>headers = []\<rparr>" demo_world]
  by (simp add: get_header_def)

end
