(* ===== verification/OrderService.thy ===== *)
theory OrderService
  imports Clients
begin

text \<open>
  The order adapter, \<open>gateway/src/services/order-service.ts\<close>, with the bearer-token
  check of \<open>placeOrder\<close>: the header value is split on \<open>"Bearer "\<close> and its second
  piece taken as the token; a missing token, an unset \<open>JWT_SECRET\<close> or a failed
  \<open>jsonwebtoken.verify\<close> throw inside the \<open>try\<close> block, and the \<open>catch\<close> block
  turns every such error into \<open>Error("Unauthorized")\<close>. The \<open>userId\<close> of the
  payload is forwarded to the order backend as the \<open>x-user-id\<close> header.
  \<open>verify\<close> is the library's signature check: \<open>verify token secret\<close> is the
  decoded payload, or \<open>None\<close> where the library throws.
\<close>

type_synonym jwt_verify = "string \<Rightarrow> string \<Rightarrow> jsval option"

definition order_getAll :: "(world, jsval) gw" where
  "order_getAll = call_service OrderSvc (get_req ''/'')"

definition order_getById :: "jsval \<Rightarrow> (world, jsval) gw" where
  "order_getById i = call_service OrderSvc (get_req (''/'' @ js_to_string i))"

text \<open>\<open>context.headers["authorization"]\<close>: \<open>undefined\<close> when absent.\<close>

definition header_val :: "req_context \<Rightarrow> string \<Rightarrow> jsval" where
  "header_val ctx h = (case get_header ctx h of None \<Rightarrow> JUndef | Some s \<Rightarrow> JStr s)"

text \<open>\<open>auth.split("Bearer ")[1]\<close>: a \<open>TypeError\<close> unless \<open>auth\<close> is a string.\<close>

definition bearer_token :: "jsval \<Rightarrow> error + string option" where
  "bearer_token auth =
     (case auth of JStr a \<Rightarrow> Inr (nth_opt (js_split ''Bearer '' a) 1) | _ \<Rightarrow> Inl TypeError)"

text \<open>The \<open>try\<close> block of \<open>post\<close> (lines 26-36): the \<open>userId\<close> claim, or the error.\<close>

definition authorize :: "jwt_verify \<Rightarrow> env_config \<Rightarrow> req_context \<Rightarrow> error + jsval" where
  "authorize verify cfg ctx =
     (case bearer_token (header_val ctx ''authorization'') of
        Inl e \<Rightarrow> Inl e
      | Inr tok \<Rightarrow>
          (case tok of
             None \<Rightarrow> Inl (ErrorMsg ''Token is not provided'')
           | Some t \<Rightarrow>
               if t = [] then Inl (ErrorMsg ''Token is not provided'')
               else (case jwt_secret cfg of
                       None \<Rightarrow> Inl (ErrorMsg ''JWT_SECRET is not defined'')
                     | Some sec \<Rightarrow>
                         if sec = [] then Inl (ErrorMsg ''JWT_SECRET is not defined'')
                         else (case verify t sec of
                                 None \<Rightarrow> Inl (ErrorMsg ''invalid signature'')
                               | Some payload \<Rightarrow> js_prop payload ''userId''))))"

definition order_post :: "jwt_verify \<Rightarrow> env_config \<Rightarrow> jsval \<Rightarrow> req_context \<Rightarrow> (world, jsval) gw" where
  "order_post verify cfg args ctx =
     (case js_prop args ''products'' of
        Inl e \<Rightarrow> gw_throw e
      | Inr products \<Rightarrow>
          (case authorize verify cfg ctx of
             Inl _ \<Rightarrow> gw_throw (ErrorMsg ''Unauthorized'')
           | Inr uid \<Rightarrow>
               call_service OrderSvc
                 (post_req ''/'' (js_object [(''products'', products)])
                    (axios_headers [(''x-user-id'', uid)]))))"

definition demo_verify :: jwt_verify where
  "demo_verify t sec = (if t = ''tok'' \<and> sec = ''s3cret'' then Some (JObj [(''userId'', JStr ''u1'')]) else None)"

definition demo_cfg :: env_config where
  "demo_cfg = \<lparr>jwt_secret = Some ''s3cret'', product_api_key = Some ''k''\<rparr>"

definition order_world :: world where
  "order_world = \<lparr>store = Map.empty,
     backend = (\<lambda>svc r. Some (Response 201 (JObj [(''result'', JStr ''o1'')]))), sent = []\<rparr>"

subsection \<open>Token extraction\<close>

lemma bearer_token_absent: "get_header ctx h = None \<Longrightarrow> bearer_token (header_val ctx h) = Inl TypeError"
  by (simp add: header_val_def bearer_token_def)

lemma bearer_token_prefixed:
  assumes "CHR ''B'' \<notin> set p"
  shows "bearer_token (JStr (p @ ''Bearer '' @ t)) = Inr (Some (hd (split_aux ''Bearer '' [] t)))"
proof -
  have "js_split ''Bearer '' (p @ ''Bearer '' @ t) = rev (rev p) # split_aux ''Bearer '' [] t"
    using assms unfolding js_split_def
    by (simp add: split_aux_skip [where sep = "''Bearer ''"] split_aux_sep_prefix [where sep = "''Bearer ''"])
  then show ?thesis
    by (simp add: bearer_token_def split_aux_nonempty nth_opt_conv hd_conv_nth)
qed

lemma bearer_token_plain:
  "\<not> sublist ''Bearer '' t \<Longrightarrow> bearer_token (JStr (''Bearer '' @ t)) = Inr (Some t)"
  using bearer_token_prefixed [of "[]" t] by (simp add: split_aux_no_sep)

subsection \<open>Authorization of order placement\<close>

lemma order_post_rejected:
  "isl (authorize verify cfg ctx) \<Longrightarrow>
   order_post verify cfg (JObj [(''products'', ps)]) ctx w = (Inl (ErrorMsg ''Unauthorized''), w)"
  by (cases "authorize verify cfg ctx") (simp_all add: order_post_def)

lemma bearer_header:
  "get_header ctx h = Some (''Bearer '' @ t) \<Longrightarrow> \<not> sublist ''Bearer '' t \<Longrightarrow>
   bearer_token (header_val ctx h) = Inr (Some t)"
proof -
  assume h: "get_header ctx h = Some (''Bearer '' @ t)" and t: "\<not> sublist ''Bearer '' t"
  have "header_val ctx h = JStr (''Bearer '' @ t)" using h by (simp add: header_val_def)
  with bearer_token_plain [OF t] show ?thesis by (simp only:)
qed

text \<open>
  C6: \<open>placeOrder\<close> without an \<open>Authorization\<close> header is rejected with
  "Unauthorized" and the world is unchanged: the order backend receives no request.
\<close>

theorem order_post_no_auth_header:
  assumes "get_header ctx ''authorization'' = None"
  shows "order_post verify cfg (JObj [(''products'', ps)]) ctx w = (Inl (ErrorMsg ''Unauthorized''), w)"
  using assms by (intro order_post_rejected) (simp add: authorize_def bearer_token_absent)

text \<open>
  C7: \<open>placeOrder\<close> with a well-formed \<open>Bearer\<close> header whose token fails signature
  verification under the configured secret is rejected with "Unauthorized", and the
  order backend receives no request.
\<close>

theorem order_post_bad_signature:
  assumes "get_header ctx ''authorization'' = Some (''Bearer '' @ t)" "\<not> sublist ''Bearer '' t"
    and "jwt_secret cfg = Some sec" "verify t sec = None"
  shows "order_post verify cfg (JObj [(''products'', ps)]) ctx w = (Inl (ErrorMsg ''Unauthorized''), w)"
  using assms by (intro order_post_rejected) (simp add: authorize_def bearer_header)

text \<open>
  C26: the check fails closed: with \<open>JWT_SECRET\<close> unset every \<open>placeOrder\<close> is
  rejected with "Unauthorized", whatever the headers, and nothing is sent.
\<close>

theorem order_post_secret_unset:
  assumes "jwt_secret cfg = None"
  shows "order_post verify cfg (JObj [(''products'', ps)]) ctx w = (Inl (ErrorMsg ''Unauthorized''), w)"
  using assms
  by (intro order_post_rejected)
     (auto simp: authorize_def split: sum.split option.split)

text \<open>
  C18: with a valid token whose payload carries \<open>userId\<close> \<open>u\<close>, \<open>placeOrder\<close>
  sends exactly one \<open>POST /\<close> to the order backend, with body \<open>{products}\<close> and
  the trusted header \<open>x-user-id: u\<close>, and returns the \<open>result\<close> of its reply.
\<close>

theorem order_post_valid_token:
  assumes "get_header ctx ''authorization'' = Some (''Bearer '' @ t)" "\<not> sublist ''Bearer '' t" "t \<noteq> []"
    and "jwt_secret cfg = Some sec" "sec \<noteq> []" "verify t sec = Some (JObj kvs)"
    and "map_of kvs ''userId'' = Some (JStr u)"
    and "replies w OrderSvc (post_req ''/'' (js_object [(''products'', ps)]) [(''x-user-id'', JStr u)]) v"
  shows "order_post verify cfg (JObj [(''products'', ps)]) ctx w =
           (Inr v, w\<lparr>sent := sent w @ [(OrderSvc, post_req ''/'' (js_object [(''products'', ps)]) [(''x-user-id'', JStr u)])]\<rparr>)"
proof -
  have "authorize verify cfg ctx = Inr (JStr u)"
    using assms by (simp add: authorize_def bearer_header)
  then show ?thesis
    using assms(8) by (simp add: order_post_def axios_headers_def call_service_ok)
qed

text \<open>
  C24: the header is not checked to start with \<open>"Bearer "\<close>: any text before it that
  does not contain a \<open>B\<close> is ignored, so \<open>Token Bearer t\<close> is accepted exactly
  as \<open>Bearer t\<close> is.
\<close>

theorem authorize_any_prefix:
  assumes "CHR ''B'' \<notin> set p"
  shows "authorize verify cfg \<lparr>headers = [(''authorization'', p @ ''Bearer '' @ t)]\<rparr> =
         authorize verify cfg \<lparr>headers = [(''authorization'', ''Bearer '' @ t)]\<rparr>"
  using assms bearer_token_prefixed [of p t] bearer_token_prefixed [of "[]" t]
  by (simp add: authorize_def header_val_def get_header_def)

theorem authorize_any_prefix_witness:
  "authorize demo_verify \<lparr>jwt_secret = Some ''s3cret'', product_api_key = None\<rparr>
     \<lparr>headers = [(''authorization'', ''Token Bearer tok'')]\<rparr> = Inr (JStr ''u1'')"
proof -
  have "authorize demo_verify \<lparr>jwt_secret = Some ''s3cret'', product_api_key = None\<rparr>
     \<lparr>headers = [(''authorization'', ''Token '' @ ''Bearer '' @ ''tok'')]\<rparr> =
     authorize demo_verify \<lparr>jwt_secret = Some ''s3cret'', product_api_key = None\<rparr>
     \<lparr>headers = [(''authorization'', ''Bearer '' @ ''tok'')]\<rparr>"
    by (rule authorize_any_prefix) simp
  moreover have "authorize demo_verify \<lparr>jwt_secret = Some ''s3cret'', product_api_key = None\<rparr>
     \<lparr>headers = [(''authorization'', ''Bearer tok'')]\<rparr> = Inr (JStr ''u1'')"
    by (simp add: authorize_def header_val_def get_header_def bearer_token_def js_split_def demo_verify_def)
  ultimately show ?thesis by simp
qed

theorem order_post_no_auth_header_witness:
  "order_post demo_verify demo_cfg (JObj [(''products'', JArr [])]) \<lparr>headers = []\<rparr> order_world =
     (Inl (ErrorMsg ''Unauthorized''), order_world)"
  by (rule order_post_no_auth_header) (simp add: get_header_def)

theorem order_post_bad_signature_witness:
  "order_post demo_verify demo_cfg (JObj [(''products'', JArr [])])
      \<lparr>headers = [(''authorization'', ''Bearer forged'')]\<rparr> order_world =
     (Inl (ErrorMsg ''Unauthorized''), order_world)"
proof -
  have "order_post demo_verify demo_cfg (JObj [(''products'', JArr [])])
      \<lparr>headers = [(''authorization'', ''Bearer '' @ ''forged'')]\<rparr> order_world =
     (Inl (ErrorMsg ''Unauthorized''), order_world)"
    by (rule order_post_bad_signature [where sec = "''s3cret''"])
       (auto simp: get_header_def demo_cfg_def demo_verify_def dest: sublist_length_le)
  then show ?thesis by simp
qed

theorem order_post_secret_unset_witness:
  "order_post demo_verify \<lparr>jwt_secret = None, product_api_key = None\<rparr> (JObj [(''products'', JArr [])])
      \<lparr>headers = [(''authorization'', ''Bearer tok'')]\<rparr> order_world =
     (Inl (ErrorMsg ''Unauthorized''), order_world)"
  by (rule order_post_secret_unset) simp

theorem order_post_valid_token_witness:
  "order_post demo_verify demo_cfg (JObj [(''products'', JArr [])])
      \<lparr>headers = [(''authorization'', ''Bearer tok'')]\<rparr> order_world =
     (Inr (JStr ''o1''), order_world\<lparr>sent := [(OrderSvc, post_req ''/'' (JObj [(''products'', JArr [])])
                                                   [(''x-user-id'', JStr ''u1'')])]\<rparr>)"
proof -
  have "order_post demo_verify demo_cfg (JObj [(''products'', JArr [])])
      \<lparr>headers = [(''authorization'', ''Bearer '' @ ''tok'')]\<rparr> order_world =
     (Inr (JStr ''o1''), order_world\<lparr>sent := sent order_world @ [(OrderSvc, post_req ''/'' (js_object [(''products'', JArr [])])
                                                   [(''x-user-id'', JStr ''u1'')])]\<rparr>)"
    by (rule order_post_valid_token [where sec = "''s3cret''" and kvs = "[(''userId'', JStr ''u1'')]"])
       (auto simp: get_header_def demo_cfg_def demo_verify_def replies_def order_world_def dest: sublist_length_le)
  then show ?thesis by (simp add: js_object_def order_world_def)
qed

end
