(* ===== verification/UserService.thy ===== *)
theory UserService
  imports Clients
begin

text \<open>
  The user adapter of the gateway, \<open>gateway/src/services/user-service.ts\<close>: three
  calls of the user backend through its axios instance, each unwrapping
  \<open>res.data.result\<close>. An answer outside 2xx rejects with axios' own error, which
  carries the status, not the \<open>{error}\<close> text of the backend's body.
\<close>

definition user_getAll :: "(world, jsval) gw" where
  "user_getAll = call_service UserSvc (get_req ''/'')"

definition user_getById :: "jsval \<Rightarrow> (world, jsval) gw" where
  "user_getById i = call_service UserSvc (get_req (''/'' @ js_to_string i))"

text \<open>\<open>async post({ input })\<close>: the argument object is destructured, then sent as \<open>{ input }\<close>.\<close>

definition user_post :: "jsval \<Rightarrow> (world, jsval) gw" where
  "user_post args =
     (case js_prop args ''input'' of
        Inl e \<Rightarrow> gw_throw e
      | Inr input \<Rightarrow> call_service UserSvc (post_req ''/'' (js_object [(''input'', input)]) []))"

definition user_world :: world where
  "user_world = \<lparr>store = Map.empty,
     backend = (\<lambda>svc r. Some (Response 404 (JObj [(''error'', JStr ''User not Found'')]))), sent = []\<rparr>"

text \<open>
  When the user backend answers \<open>GET /id\<close> with a status outside 2xx, the gateway's
  \<open>user\<close> read fails with that status alone: whatever \<open>{error}\<close> message the
  backend sent is not part of the error, and exactly one request was sent.
\<close>

theorem user_getById_error_status:
  assumes "backend w UserSvc (get_req (''/'' @ i)) = Some (Response st body)" "\<not> (200 \<le> st \<and> st < 300)"
  shows "user_getById (JStr i) w = (Inl (HttpStatus st), w\<lparr>sent := sent w @ [(UserSvc, get_req (''/'' @ i))]\<rparr>)"
  using assms by (simp add: user_getById_def call_service_status)

theorem user_getById_error_status_witness:
  "user_getById (JStr ''42'') user_world =
     (Inl (HttpStatus 404), user_world\<lparr>sent := [(UserSvc, get_req ''/42'')]\<rparr>)"
  using user_getById_error_status [of user_world "''42''" 404 "JObj [(''error'', JStr ''User not Found'')]"]
  by (simp add: user_world_def)

end
