(* ===== verification/Schema.thy ===== *)
theory Schema
  imports Prelude
begin

text \<open>
  The GraphQL schema of \<open>gateway/src/schema.ts\<close>, written in SDL and built with
  \<open>buildSchema\<close>, and the part of graphql-js's \<open>validateSchema\<close> that decides whether
  it can be executed at all: every field of an object type must have an output type, every
  argument and every field of an input object type an input type. \<open>buildSchema\<close> only
  checks the SDL rules (known and unique names), so a schema that breaks these rules is
  built without complaint and rejected when the first request is validated.
  \<^item> \<open>gtype\<close> is a type reference (\<open>T\<close>, \<open>T!\<close>, \<open>[T]\<close>); \<open>gtypedef\<close> a
    \<open>type\<close> or \<open>input\<close> declaration with its fields; \<open>gateway_schema\<close> the SDL of
    \<open>schema.ts\<close>, declaration by declaration.
  \<^item> \<open>schema_errors\<close> lists the messages graphql-js reports for these rules.
\<close>

datatype gtype = GNamed string | GNonNull gtype | GList gtype

datatype tkind = KScalar | KObject | KInput

record gfield =
  fname :: string
  fargs :: "(string \<times> gtype) list"
  ftype :: gtype

record gtypedef =
  tname :: string
  tkind :: tkind
  tfields :: "gfield list"

type_synonym gschema = "gtypedef list"

definition fld :: "string \<Rightarrow> gtype \<Rightarrow> gfield" where
  "fld n t = \<lparr>fname = n, fargs = [], ftype = t\<rparr>"

text \<open>The SDL of \<open>schema.ts\<close>, lines 6 to 62, in the order it declares the types.\<close>

definition gateway_schema :: gschema where
  "gateway_schema = [
     \<lparr>tname = ''User'', tkind = KObject, tfields =
        [fld ''_id'' (GNonNull (GNamed ''ID'')), fld ''username'' (GNonNull (GNamed ''String''))]\<rparr>,
     \<lparr>tname = ''Product'', tkind = KObject, tfields =
        [fld ''_id'' (GNonNull (GNamed ''ID'')), fld ''name'' (GNonNull (GNamed ''String'')),
         fld ''price'' (GNonNull (GNamed ''Int'')), fld ''quantity'' (GNonNull (GNamed ''Int''))]\<rparr>,
     \<lparr>tname = ''OrderProduct'', tkind = KObject, tfields =
        [fld ''_id'' (GNonNull (GNamed ''ID'')), fld ''quantity'' (GNonNull (GNamed ''Int''))]\<rparr>,
     \<lparr>tname = ''Order'', tkind = KObject, tfields =
        [fld ''_id'' (GNonNull (GNamed ''ID'')), fld ''userId'' (GNonNull (GNamed ''ID'')),
         fld ''products'' (GList (GNamed ''OrderProduct''))]\<rparr>,
     \<lparr>tname = ''RegisterUserInput'', tkind = KInput, tfields =
        [fld ''username'' (GNonNull (GNamed ''String'')), fld ''password'' (GNonNull (GNamed ''String''))]\<rparr>,
     \<lparr>tname = ''RegisterUserResult'', tkind = KInput, tfields =
        [fld ''access_token'' (GNonNull (GNamed ''String'')), fld ''user'' (GNonNull (GNamed ''User''))]\<rparr>,
     \<lparr>tname = ''CreateProductInput'', tkind = KInput, tfields =
        [fld ''name'' (GNonNull (GNamed ''String'')), fld ''price'' (GNonNull (GNamed ''Int'')),
         fld ''quantity'' (GNonNull (GNamed ''Int''))]\<rparr>,
     \<lparr>tname = ''OrderProductInput'', tkind = KInput, tfields =
        [fld ''_id'' (GNonNull (GNamed ''String'')), fld ''quantity'' (GNonNull (GNamed ''Int''))]\<rparr>,
     \<lparr>tname = ''Query'', tkind = KObject, tfields =
        [fld ''users'' (GList (GNamed ''User'')),
         \<lparr>fname = ''user'', fargs = [(''id'', GNonNull (GNamed ''ID''))], ftype = GNamed ''User''\<rparr>,
         \<lparr>fname = ''products'', fargs = [(''id'', GNonNull (GNamed ''ID''))], ftype = GNamed ''Product''\<rparr>,
         fld ''orders'' (GList (GNamed ''Order'')),
         \<lparr>fname = ''order'', fargs = [(''id'', GNonNull (GNamed ''ID''))], ftype = GNamed ''Order''\<rparr>]\<rparr>,
     \<lparr>tname = ''Mutation'', tkind = KObject, tfields =
        [\<lparr>fname = ''registerUser'', fargs = [(''input'', GNamed ''RegisterUserInput'')],
          ftype = GNamed ''RegisterUserResult''\<rparr>,
         \<lparr>fname = ''createProduct'', fargs = [(''input'', GNamed ''CreateProductInput'')],
          ftype = GNamed ''Product''\<rparr>,
         \<lparr>fname = ''placeOrder'', fargs = [(''products'', GList (GNamed ''OrderProductInput''))],
          ftype = GNamed ''Order''\<rparr>]\<rparr>]"

text \<open>The scalars every schema has.\<close>

definition builtin_scalars :: "string list" where
  "builtin_scalars = [''Int'', ''Float'', ''String'', ''Boolean'', ''ID'']"

definition kind_of :: "gschema \<Rightarrow> string \<Rightarrow> tkind option" where
  "kind_of sch n =
     (if n \<in> set builtin_scalars then Some KScalar
      else map_option tkind (find (\<lambda>d. tname d = n) sch))"

fun named_of :: "gtype \<Rightarrow> string" where
  "named_of (GNamed n) = n"
| "named_of (GNonNull t) = named_of t"
| "named_of (GList t) = named_of t"

text \<open>\<open>inspect\<close> of a type reference, as the messages print it.\<close>

fun show_type :: "gtype \<Rightarrow> string" where
  "show_type (GNamed n) = n"
| "show_type (GNonNull t) = show_type t @ ''!''"
| "show_type (GList t) = ''['' @ show_type t @ '']''"

text \<open>\<open>isOutputType\<close> and \<open>isInputType\<close>: decided by the named type under the wrappers.\<close>

definition is_output_type :: "gschema \<Rightarrow> gtype \<Rightarrow> bool" where
  "is_output_type sch t = (kind_of sch (named_of t) \<in> {Some KScalar, Some KObject})"

definition is_input_type :: "gschema \<Rightarrow> gtype \<Rightarrow> bool" where
  "is_input_type sch t = (kind_of sch (named_of t) \<in> {Some KScalar, Some KInput})"

text \<open>\<open>validateFields\<close> (object types) and \<open>validateInputFields\<close> (input object types).\<close>

definition field_errors :: "gschema \<Rightarrow> gtypedef \<Rightarrow> gfield \<Rightarrow> string list" where
  "field_errors sch d f =
     (case tkind d of
        KObject \<Rightarrow>
          (if is_output_type sch (ftype f) then []
           else [''The type of '' @ tname d @ ''.'' @ fname f @ '' must be Output Type but got: ''
                 @ show_type (ftype f) @ ''.''])
          @ concat (map (\<lambda>(a, t). if is_input_type sch t then []
                          else [''The type of '' @ tname d @ ''.'' @ fname f @ ''('' @ a @ '':) must be Input Type but got: ''
                                @ show_type t @ ''.'']) (fargs f))
      | KInput \<Rightarrow>
          (if is_input_type sch (ftype f) then []
           else [''The type of '' @ tname d @ ''.'' @ fname f @ '' must be Input Type but got: ''
                 @ show_type (ftype f) @ ''.''])
      | KScalar \<Rightarrow> [])"

definition schema_errors :: "gschema \<Rightarrow> string list" where
  "schema_errors sch = concat (map (\<lambda>d. concat (map (field_errors sch d) (tfields d))) sch)"

definition fields_of :: "gschema \<Rightarrow> string \<Rightarrow> gfield list" where
  "fields_of sch n = (case find (\<lambda>d. tname d = n) sch of None \<Rightarrow> [] | Some d \<Rightarrow> tfields d)"

text \<open>The schema with \<open>RegisterUserResult\<close> declared as an object type.\<close>

definition result_as_type :: "gschema \<Rightarrow> gschema" where
  "result_as_type sch = map (\<lambda>d. if tname d = ''RegisterUserResult'' then d\<lparr>tkind := KObject\<rparr> else d) sch"

lemma field_errors_Nil:
  "field_errors sch d f = [] \<longleftrightarrow>
     (tkind d = KObject \<longrightarrow> is_output_type sch (ftype f) \<and> (\<forall>(a, t) \<in> set (fargs f). is_input_type sch t))
     \<and> (tkind d = KInput \<longrightarrow> is_input_type sch (ftype f))"
  by (cases "tkind d") (auto simp: field_errors_def split: prod.splits if_splits)

lemma schema_errors_Nil_iff:
  "schema_errors sch = [] \<longleftrightarrow>
     (\<forall>d \<in> set sch. \<forall>f \<in> set (tfields d).
        (tkind d = KObject \<longrightarrow> is_output_type sch (ftype f) \<and> (\<forall>(a, t) \<in> set (fargs f). is_input_type sch t))
        \<and> (tkind d = KInput \<longrightarrow> is_input_type sch (ftype f)))"
  by (simp add: schema_errors_def field_errors_Nil del: split_paired_All)

text \<open>
  The schema of \<open>schema.ts\<close> is ill-typed: \<open>RegisterUserResult\<close> is declared with
  \<open>input\<close> but is the result type of \<open>registerUser\<close> and has a field of the object
  type \<open>User\<close>, which graphql-js reports as exactly these two errors (in declaration
  order); declared with \<open>type\<close> instead, the schema has no error.
\<close>

lemma gateway_schema_invalid:
  "schema_errors gateway_schema =
     [''The type of RegisterUserResult.user must be Input Type but got: User!.'',
      ''The type of Mutation.registerUser must be Output Type but got: RegisterUserResult.'']
   \<and> schema_errors (result_as_type gateway_schema) = []"
  by code_simp

end
