(* ===== verification/Router.thy ===== *)
theory Router
  imports ProductService OrderService UserService Schema
begin

text \<open>
  The query router, \<open>gateway/src/app.ts\<close>: the \<open>root\<close> object binds each GraphQL
  field to a service method, and the handler gives every operation the context
  \<open>{ headers }\<close>. GraphQL calls a function found on the root value as
  \<open>fn(args, context, info)\<close>, so each method receives the argument object of the
  field as its first parameter; \<open>root\<close> below passes it on exactly so. Only the
  fields of \<open>type Query\<close> and \<open>type Mutation\<close> in \<open>schema.ts\<close> can be executed
  (\<open>execute\<close>). \<open>graphql_handler\<close> is the \<open>createHandler\<close> endpoint: graphql-js
  validates the schema before it validates or executes any document, and the express
  adapter of graphql-http answers an exception with an empty 500.
\<close>

datatype operation =
    OpUsers | OpUser | OpRegisterUser
  | OpProducts | OpProduct | OpCreateProduct
  | OpOrders | OpOrder | OpPlaceOrder

record gw_deps =
  json :: codec
  jwt :: jwt_verify
  config :: env_config

definition op_name :: "operation \<Rightarrow> string" where
  "op_name op = (case op of
      OpUsers \<Rightarrow> ''users'' | OpUser \<Rightarrow> ''user'' | OpRegisterUser \<Rightarrow> ''registerUser''
    | OpProducts \<Rightarrow> ''products'' | OpProduct \<Rightarrow> ''product'' | OpCreateProduct \<Rightarrow> ''createProduct''
    | OpOrders \<Rightarrow> ''orders'' | OpOrder \<Rightarrow> ''order'' | OpPlaceOrder \<Rightarrow> ''placeOrder'')"

definition service_of :: "operation \<Rightarrow> service" where
  "service_of op = (case op of
      OpUsers \<Rightarrow> UserSvc | OpUser \<Rightarrow> UserSvc | OpRegisterUser \<Rightarrow> UserSvc
    | OpProducts \<Rightarrow> ProductSvc | OpProduct \<Rightarrow> ProductSvc | OpCreateProduct \<Rightarrow> ProductSvc
    | OpOrders \<Rightarrow> OrderSvc | OpOrder \<Rightarrow> OrderSvc | OpPlaceOrder \<Rightarrow> OrderSvc)"

definition root :: "gw_deps \<Rightarrow> operation \<Rightarrow> jsval \<Rightarrow> req_context \<Rightarrow> (world, jsval) gw" where
  "root d op args ctx = (case op of
      OpUsers \<Rightarrow> user_getAll
    | OpUser \<Rightarrow> user_getById args
    | OpRegisterUser \<Rightarrow> user_post args
    | OpProducts \<Rightarrow> product_getAll (json d)
    | OpProduct \<Rightarrow> product_getById (json d) args
    | OpCreateProduct \<Rightarrow> product_post (config d) args ctx
    | OpOrders \<Rightarrow> order_getAll
    | OpOrder \<Rightarrow> order_getById args
    | OpPlaceOrder \<Rightarrow> order_post (jwt d) (config d) args ctx)"

text \<open>The fields of \<open>type Query\<close> and \<open>type Mutation\<close> in \<open>schema.ts\<close> (lines 50-62).\<close>

definition schema_fields :: "string list" where
  "schema_fields = map fname (fields_of gateway_schema ''Query'' @ fields_of gateway_schema ''Mutation'')"

definition execute :: "gw_deps \<Rightarrow> operation \<Rightarrow> jsval \<Rightarrow> req_context \<Rightarrow> (world, jsval) gw" where
  "execute d op args ctx =
     (if op_name op \<in> set schema_fields then root d op args ctx
      else gw_throw (ErrorMsg (''Cannot query field \"'' @ op_name op @ ''\" on type \"Query\".'')))"

definition graphql_handler :: "gw_deps \<Rightarrow> operation \<Rightarrow> jsval \<Rightarrow> req_context \<Rightarrow> (world, jsval) gw" where
  "graphql_handler d op args ctx =
     (if schema_errors gateway_schema \<noteq> [] then gw_throw (HttpStatus 500) else execute d op args ctx)"

definition one_call :: "service \<Rightarrow> world \<Rightarrow> world \<Rightarrow> bool" where
  "one_call svc w w' \<longleftrightarrow>
     (sent w' = sent w \<or> (\<exists>q. sent w' = sent w @ [(svc, q)]))
     \<and> backend w' = backend w"

definition demo_deps :: gw_deps where
  "demo_deps = \<lparr>json = demo_codec, jwt = demo_verify, config = demo_cfg\<rparr>"

lemma schema_fields_eq:
  "schema_fields = [''users'', ''user'', ''products'', ''orders'', ''order'',
                    ''registerUser'', ''createProduct'', ''placeOrder'']"
  by code_simp

lemma schema_errors_gateway: "schema_errors gateway_schema \<noteq> []"
  by code_simp

lemma one_call_refl [simp]: "one_call svc w w"
  by (simp add: one_call_def)

lemma one_call_call_service: "call_service svc q w = (r, w') \<Longrightarrow> one_call svc w w'"
  by (auto simp: one_call_def dest: call_service_state)

lemma one_call_cache_aside:
  assumes "gw_catch (read_cached c k) (\<lambda>_. fill_from c k p) w = (r, w')"
  shows "one_call ProductSvc w w'"
proof -
  have k: "keeps (\<lambda>x. backend x = backend w) (gw_catch (read_cached c k) (\<lambda>_. fill_from c k p))"
    by (intro keeps_catch keeps_read_cached keeps_env_fill_from)
  have "backend w' = backend w"
    using keepsD [OF k _ assms] by simp
  with cache_aside_sent [OF assms] show ?thesis by (auto simp: one_call_def)
qed

text \<open>
  C25: operations are isolated: every operation sends at most one request, and only to
  the backend of its own service; it does not change the backends, and only the product
  reads write the cache.
\<close>

theorem execute_one_call:
  assumes "execute d op args ctx w = (r, w')"
  shows "one_call (service_of op) w w' \<and> (op \<notin> {OpProducts, OpProduct} \<longrightarrow> store w' = store w)"
  using assms
  by (cases op)
     (auto simp: execute_def root_def service_of_def user_getAll_def user_getById_def user_post_def
                 order_getAll_def order_getById_def order_post_def product_post_def
                 product_getAll_def product_getById_def
           dest: one_call_call_service one_call_cache_aside call_service_state
           split: if_splits sum.splits)

text \<open>
  C21: GraphQL hands \<open>UserService.getById\<close> the argument object \<open>{ id }\<close>, not the
  id: the template literal turns it into \<open>"[object Object]"\<close>, so the query
  \<open>user(id)\<close> sends \<open>GET /[object Object]\<close> to the user backend whatever id was
  asked for.
\<close>

theorem user_query_path:
  "sent (snd (execute d OpUser (JObj [(''id'', JStr i)]) ctx w)) =
     sent w @ [(UserSvc, get_req ''/[object Object]'')]"
  by (simp add: execute_def schema_fields_eq op_name_def root_def user_getById_def)

text \<open>
  The router binds \<open>product\<close> to \<open>ProductService.getById\<close>, but the schema has
  no \<open>product\<close> field: the operation is refused before any resolver runs, so the
  per-item product cache is unreachable through the API.
\<close>

theorem product_query_unreachable:
  "execute d OpProduct args ctx w = (Inl (ErrorMsg ''Cannot query field \"product\" on type \"Query\".''), w)"
  by (simp add: execute_def schema_fields_eq op_name_def)

theorem execute_one_call_witness:
  "one_call ProductSvc demo_world (snd (execute demo_deps OpProducts JNull \<lparr>headers = []\<rparr> demo_world))"
proof -
  obtain r w' where eq: "execute demo_deps OpProducts JNull \<lparr>headers = []\<rparr> demo_world = (r, w')"
    by fastforce
  have "one_call (service_of OpProducts) demo_world w'"
    using execute_one_call [OF eq] by blast
  then show ?thesis using eq by (simp add: service_of_def)
qed

text \<open>
  C3: no GraphQL request is ever executed: graphql-js rejects the schema of
  \<open>schema.ts\<close> when it validates the first document, so every operation sent to
  \<open>/graphql\<close>, whatever its arguments and headers, is answered with status 500, no
  backend is called and neither Redis nor any backend's request log changes.
\<close>

theorem graphql_always_500: "graphql_handler d op args ctx w = (Inl (HttpStatus 500), w)"
  by (simp add: graphql_handler_def schema_errors_gateway)

end
