(* ===== verification/Invalidator.thy ===== *)
theory Invalidator
  imports Clients
begin

text \<open>
  The gateway's process, \<open>gateway/src/index.ts\<close>: \<open>main\<close> connects the Redis
  client, connects the Kafka consumer, subscribes it to the topic written in the code,
  starts the consumer with the \<open>eachMessage\<close> handler and then listens on port 4000;
  if any awaited step rejects, the \<open>catch\<close> handler disconnects the consumer and
  exits with status 1.
  \<^item> \<open>gw_proc\<close> records what the process holds: the two connections, the
    subscription, whether the consumer runs, whether the HTTP server listens, the exit
    status.
  \<^item> \<open>fails\<close> says which awaited startup step rejects (the broker or Redis being
    unreachable); the model runs the steps in the code's order.
  \<^item> \<open>each_message\<close> is the handler: it deletes the key \<open>"products/"\<close>, whatever
    the message. Kafka delivers to it only the messages of the subscribed topic
    (\<open>deliver\<close>), in order (\<open>consume\<close>).
\<close>

record kmsg =
  topic :: string
  partition :: nat
  offset :: nat
  payload :: string

text \<open>\<open>consumer.subscribe({ topic: "inventory-events " })\<close>, with the space the code has.\<close>

definition gateway_topic :: string where
  "gateway_topic = ''inventory-events ''"

definition each_message :: "kmsg \<Rightarrow> (world, unit) gw" where
  "each_message m = gw_bind (cache_del ''products/'') (\<lambda>_. gw_return ())"

definition deliver :: "string \<Rightarrow> kmsg \<Rightarrow> (world, unit) gw" where
  "deliver sub m = (if topic m = sub then each_message m else gw_return ())"

fun consume :: "string \<Rightarrow> kmsg list \<Rightarrow> (world, unit) gw" where
  "consume sub [] = gw_return ()"
| "consume sub (m # ms) = gw_bind (deliver sub m) (\<lambda>_. consume sub ms)"

subsection \<open>Startup\<close>

datatype startup_step = CacheConnect | ConsumerConnect | Subscribe | Run

record gw_proc =
  cache_conn :: bool
  consumer_conn :: bool
  subscription :: "string option"
  running :: bool
  listening :: bool
  exit_code :: "int option"

definition proc0 :: gw_proc where
  "proc0 = \<lparr>cache_conn = False, consumer_conn = False, subscription = None, running = False,
            listening = False, exit_code = None\<rparr>"

definition await_step ::
  "(startup_step \<Rightarrow> bool) \<Rightarrow> startup_step \<Rightarrow> (gw_proc \<Rightarrow> gw_proc) \<Rightarrow> (gw_proc, unit) gw" where
  "await_step fails st f p = (if fails st then (Inl (ErrorMsg ''startup failed''), p) else (Inr (), f p))"

definition main_body :: "(startup_step \<Rightarrow> bool) \<Rightarrow> (gw_proc, unit) gw" where
  "main_body fails =
     gw_bind (await_step fails CacheConnect (\<lambda>p. p\<lparr>cache_conn := True\<rparr>)) (\<lambda>_.
     gw_bind (await_step fails ConsumerConnect (\<lambda>p. p\<lparr>consumer_conn := True\<rparr>)) (\<lambda>_.
     gw_bind (await_step fails Subscribe (\<lambda>p. p\<lparr>subscription := Some gateway_topic\<rparr>)) (\<lambda>_.
     gw_bind (await_step fails Run (\<lambda>p. p\<lparr>running := True\<rparr>)) (\<lambda>_.
     (\<lambda>p. (Inr (), p\<lparr>listening := True\<rparr>))))))"

definition on_fatal :: "error \<Rightarrow> (gw_proc, unit) gw" where
  "on_fatal e p = (Inr (), p\<lparr>consumer_conn := False, running := False, exit_code := Some 1\<rparr>)"

definition gateway_main :: "(startup_step \<Rightarrow> bool) \<Rightarrow> gw_proc" where
  "gateway_main fails = snd (gw_catch (main_body fails) on_fatal proc0)"

definition inv_world :: world where
  "inv_world = \<lparr>store = [''products/'' \<mapsto> ''[]'', ''products/7'' \<mapsto> ''{}''],
     backend = (\<lambda>svc r. None), sent = []\<rparr>"

definition sample_msg :: kmsg where
  "sample_msg = \<lparr>topic = ''inventory-events'', partition = 0, offset = 0, payload = ''{}''\<rparr>"

lemma each_message_up [gw_simps]:
  "each_message m w = (Inr (), w\<lparr>store := (store w)(''products/'' := None)\<rparr>)"
  by (simp add: each_message_def cache_del_def gw_bind_def)

text \<open>
  C20: invalidation is coarse: handling a message deletes at most the listing key
  \<open>"products/"\<close>; every other key, each cached \<open>"products/<id>"\<close> included, keeps
  its value, so per-item entries stay as stale as they were.
\<close>

theorem each_message_keeps_other_keys:
  assumes "each_message m w = (r, w')" "k \<noteq> ''products/''"
  shows "store w' k = store w k"
  using assms by (auto simp: gw_simps)

text \<open>
  C19: the consumer is subscribed to \<open>"inventory-events "\<close>, with a trailing space:
  messages published on the topic \<open>"inventory-events"\<close> that the design names are
  never delivered to the handler, and the world, the product cache included, is left as
  it was.
\<close>

theorem consume_spec_topic:
  assumes "\<forall>m \<in> set ms. topic m = ''inventory-events''"
  shows "consume gateway_topic ms w = (Inr (), w)"
  using assms by (induction ms) (simp_all add: deliver_def gateway_topic_def)

lemma main_body_ok:
  "(\<forall>st. \<not> fails st) \<Longrightarrow> main_body fails p =
     (Inr (), p\<lparr>cache_conn := True, consumer_conn := True, subscription := Some gateway_topic,
                running := True, listening := True\<rparr>)"
  by (simp add: main_body_def await_step_def gw_bind_def)

lemma main_body_fails:
  "fails st \<Longrightarrow> \<exists>e p'. main_body fails p = (Inl e, p') \<and> listening p' = listening p
     \<and> exit_code p' = exit_code p \<and> subscription p' \<in> {subscription p, Some gateway_topic}
     \<and> cache_conn p' = (cache_conn p \<or> \<not> fails CacheConnect)"
  by (cases st) (auto simp: main_body_def await_step_def gw_bind_def)

text \<open>
  When every startup step succeeds the gateway ends up listening, subscribed and not
  exited.
\<close>

theorem gateway_main_serves:
  assumes "\<forall>st. \<not> fails st"
  shows "listening (gateway_main fails) \<and> exit_code (gateway_main fails) = None
         \<and> subscription (gateway_main fails) = Some gateway_topic"
  using assms by (simp add: gateway_main_def main_body_ok gw_catch_def proc0_def)

text \<open>
  The gateway listens only after Redis and the consumer are connected, the consumer
  subscribed and running: no operation is served before the cache and the invalidation
  pipeline are up.
\<close>

theorem gateway_main_listening:
  assumes "listening (gateway_main fails)"
  shows "cache_conn (gateway_main fails) \<and> consumer_conn (gateway_main fails) \<and> running (gateway_main fails)
         \<and> subscription (gateway_main fails) = Some gateway_topic"
proof (cases "\<forall>st. \<not> fails st")
  case True
  then show ?thesis by (simp add: gateway_main_def main_body_ok gw_catch_def proc0_def)
next
  case False
  then obtain st where "fails st" by blast
  from main_body_fails [of fails st proc0, OF this] obtain e p' where
    "main_body fails proc0 = (Inl e, p')" "listening p' = listening proc0" by blast
  then have "\<not> listening (gateway_main fails)"
    by (simp add: gateway_main_def gw_catch_def on_fatal_def proc0_def)
  with assms show ?thesis by blast
qed

text \<open>
  C28: a failing startup step is fatal: the process exits with status 1, does not listen
  and has disconnected the consumer, but the Redis connection opened before the failure
  is left open.
\<close>

theorem gateway_main_fatal:
  assumes "fails st"
  shows "exit_code (gateway_main fails) = Some 1 \<and> \<not> listening (gateway_main fails)
         \<and> \<not> consumer_conn (gateway_main fails)
         \<and> cache_conn (gateway_main fails) = (\<not> fails CacheConnect)"
proof -
  from main_body_fails [of fails st proc0, OF assms] obtain e p' where
    m: "main_body fails proc0 = (Inl e, p')" and "listening p' = listening proc0"
       "cache_conn p' = (cache_conn proc0 \<or> \<not> fails CacheConnect)" by blast
  then show ?thesis by (simp add: gateway_main_def gw_catch_def on_fatal_def proc0_def)
qed

theorem each_message_keeps_other_keys_witness:
  "store (snd (each_message sample_msg inv_world)) ''products/7'' = Some ''{}''"
proof -
  obtain r w' where eq: "each_message sample_msg inv_world = (r, w')" by fastforce
  have "store w' ''products/7'' = store inv_world ''products/7''"
    by (rule each_message_keeps_other_keys [OF eq]) simp
  then show ?thesis using eq by (simp add: inv_world_def)
qed

theorem consume_spec_topic_witness:
  "consume gateway_topic [sample_msg, sample_msg] inv_world = (Inr (), inv_world)"
  by (rule consume_spec_topic) (simp add: sample_msg_def)

theorem gateway_main_serves_witness:
  "listening (gateway_main (\<lambda>_. False)) \<and> exit_code (gateway_main (\<lambda>_. False)) = None
   \<and> subscription (gateway_main (\<lambda>_. False)) = Some gateway_topic"
  by (rule gateway_main_serves) simp

theorem gateway_main_listening_witness:
  "cache_conn (gateway_main (\<lambda>_. False)) \<and> consumer_conn (gateway_main (\<lambda>_. False))
   \<and> running (gateway_main (\<lambda>_. False)) \<and> subscription (gateway_main (\<lambda>_. False)) = Some gateway_topic"
proof -
  have "listening (gateway_main (\<lambda>_. False))"
    by (simp add: gateway_main_def main_body_ok gw_catch_def)
  then show ?thesis by (rule gateway_main_listening)
qed

theorem gateway_main_fatal_witness:
  "exit_code (gateway_main (\<lambda>st. st = ConsumerConnect)) = Some 1
   \<and> \<not> listening (gateway_main (\<lambda>st. st = ConsumerConnect))
   \<and> \<not> consumer_conn (gateway_main (\<lambda>st. st = ConsumerConnect))
   \<and> cache_conn (gateway_main (\<lambda>st. st = ConsumerConnect))"
  using gateway_main_fatal [of "\<lambda>st. st = ConsumerConnect" ConsumerConnect] by simp

end
