(* ===== verification/Interleaving.thy ===== *)
theory Interleaving
  imports ProductService Invalidator
begin

text \<open>
  Concurrency of the gateway (the spec's section 5): Node runs each resolver until its
  next \<open>await\<close>, so product reads in flight interleave with each other and with the
  Kafka handler at exactly those points. A read of \<open>product-service.ts\<close> is a
  \<open>task\<close> that takes three atomic steps, each one awaited call of the code: the cache
  \<open>GET\<close> of the \<open>try\<close> block (\<open>read_cached\<close>), the backend call of the
  \<open>catch\<close> block (\<open>call_service\<close>) and the cache \<open>SET\<close>
  (\<open>store_serialized\<close>). Between any two steps another task may step, the invalidator
  may handle a message (\<open>each_message\<close>) and the product backend may change its
  data. \<open>rstep\<close> is that step relation; \<open>fetched\<close> is a history variable: every
  (request path, data) pair the backend returned to a read. \<open>exec_step\<close> is the same machine driven by an explicit
  schedule, executable, and equivalent to \<open>rstep\<close>.
\<close>

datatype rpc = Start | Missed | Fetched jsval | Finished "error + jsval"

record task =
  tkey :: string
  tpath :: string
  pc :: rpc

record sys =
  wld :: world
  tasks :: "task list"
  fetched :: "(string \<times> jsval) list"

text \<open>A new \<open>getAll()\<close> (\<open>None\<close>) or \<open>getById(i)\<close> (\<open>Some i\<close>).\<close>

definition read_task :: "jsval option \<Rightarrow> task" where
  "read_task a = (case a of
      None \<Rightarrow> \<lparr>tkey = ''products/'', tpath = ''/'', pc = Start\<rparr>
    | Some i \<Rightarrow> \<lparr>tkey = product_key i, tpath = ''/'' @ js_to_string i, pc = Start\<rparr>)"

definition after_lookup :: "error + jsval \<Rightarrow> rpc" where
  "after_lookup r = (case r of Inr v \<Rightarrow> Finished (Inr v) | Inl _ \<Rightarrow> Missed)"

definition after_fetch :: "error + jsval \<Rightarrow> rpc" where
  "after_fetch r = (case r of Inr d \<Rightarrow> Fetched d | Inl e \<Rightarrow> Finished (Inl e))"

definition after_fill :: "jsval \<Rightarrow> error + unit \<Rightarrow> rpc" where
  "after_fill d r = (case r of Inr _ \<Rightarrow> Finished (Inr d) | Inl e \<Rightarrow> Finished (Inl e))"

definition got :: "string \<Rightarrow> error + jsval \<Rightarrow> (string \<times> jsval) list" where
  "got k r = (case r of Inr d \<Rightarrow> [(k, d)] | Inl _ \<Rightarrow> [])"

definition set_pc :: "sys \<Rightarrow> nat \<Rightarrow> rpc \<Rightarrow> task list" where
  "set_pc s i p = (tasks s)[i := (tasks s ! i)\<lparr>pc := p\<rparr>]"

inductive rstep :: "codec \<Rightarrow> sys \<Rightarrow> sys \<Rightarrow> bool" for c :: codec where
  spawn: "rstep c s (s\<lparr>tasks := tasks s @ [read_task a]\<rparr>)"
| lookup: "i < length (tasks s) \<Longrightarrow> pc (tasks s ! i) = Start \<Longrightarrow>
     read_cached c (tkey (tasks s ! i)) (wld s) = (r, w') \<Longrightarrow>
     rstep c s (s\<lparr>wld := w', tasks := set_pc s i (after_lookup r)\<rparr>)"
| fetch: "i < length (tasks s) \<Longrightarrow> pc (tasks s ! i) = Missed \<Longrightarrow>
     call_service ProductSvc (get_req (tpath (tasks s ! i))) (wld s) = (r, w') \<Longrightarrow>
     rstep c s (s\<lparr>wld := w', tasks := set_pc s i (after_fetch r),
                  fetched := fetched s @ got (tpath (tasks s ! i)) r\<rparr>)"
| fill: "i < length (tasks s) \<Longrightarrow> pc (tasks s ! i) = Fetched d \<Longrightarrow>
     store_serialized c (tkey (tasks s ! i)) d (wld s) = (r, w') \<Longrightarrow>
     rstep c s (s\<lparr>wld := w', tasks := set_pc s i (after_fill d r)\<rparr>)"
| invalidate: "each_message m (wld s) = (r, w') \<Longrightarrow> rstep c s (s\<lparr>wld := w'\<rparr>)"
| inventory: "rstep c s (s\<lparr>wld := (wld s)\<lparr>backend := b\<rparr>\<rparr>)"

definition init_sys :: "world \<Rightarrow> sys" where
  "init_sys w = \<lparr>wld = w, tasks = [], fetched = []\<rparr>"

inductive reachable :: "codec \<Rightarrow> sys \<Rightarrow> bool" for c :: codec where
  init: "store w = Map.empty \<Longrightarrow> reachable c (init_sys w)"
| step: "reachable c s \<Longrightarrow> rstep c s s' \<Longrightarrow> reachable c s'"

subsection \<open>The same machine under an explicit schedule\<close>

datatype sched =
    SSpawn "jsval option" | SLookup nat | SFetch nat | SFill nat
  | SInvalidate kmsg | SInventory "service \<Rightarrow> http_request \<Rightarrow> http_response option"

fun exec_step :: "codec \<Rightarrow> sys \<Rightarrow> sched \<Rightarrow> sys option" where
  "exec_step c s (SSpawn a) = Some (s\<lparr>tasks := tasks s @ [read_task a]\<rparr>)"
| "exec_step c s (SLookup i) =
     (if i < length (tasks s) \<and> pc (tasks s ! i) = Start
      then (case read_cached c (tkey (tasks s ! i)) (wld s) of
              (r, w') \<Rightarrow> Some (s\<lparr>wld := w', tasks := set_pc s i (after_lookup r)\<rparr>))
      else None)"
| "exec_step c s (SFetch i) =
     (if i < length (tasks s) \<and> pc (tasks s ! i) = Missed
      then (case call_service ProductSvc (get_req (tpath (tasks s ! i))) (wld s) of
              (r, w') \<Rightarrow> Some (s\<lparr>wld := w', tasks := set_pc s i (after_fetch r),
                                 fetched := fetched s @ got (tpath (tasks s ! i)) r\<rparr>))
      else None)"
| "exec_step c s (SFill i) =
     (if i < length (tasks s)
      then (case pc (tasks s ! i) of
              Fetched d \<Rightarrow>
                (case store_serialized c (tkey (tasks s ! i)) d (wld s) of
                   (r, w') \<Rightarrow> Some (s\<lparr>wld := w', tasks := set_pc s i (after_fill d r)\<rparr>))
            | _ \<Rightarrow> None)
      else None)"
| "exec_step c s (SInvalidate m) = Some (s\<lparr>wld := snd (each_message m (wld s))\<rparr>)"
| "exec_step c s (SInventory b) = Some (s\<lparr>wld := (wld s)\<lparr>backend := b\<rparr>\<rparr>)"

fun exec_sched :: "codec \<Rightarrow> sys \<Rightarrow> sched list \<Rightarrow> sys option" where
  "exec_sched c s [] = Some s"
| "exec_sched c s (d # ds) = (case exec_step c s d of None \<Rightarrow> None | Some s' \<Rightarrow> exec_sched c s' ds)"

text \<open>
  The request path a cache key stands for: \<open>products/x\<close> is the cache of
  \<open>GET /x\<close> (\<open>x\<close> empty for the listing).
\<close>

definition key_path :: "string \<Rightarrow> string" where
  "key_path k = ''/'' @ drop (length ''products/'') k"

text \<open>
  The consistency the spec asks of the cache: every entry is the serialisation of
  data the backend returned to the request its key stands for; every task reads the
  path of its key, and a task that holds fetched data holds such data.
\<close>

definition cache_consistent :: "codec \<Rightarrow> sys \<Rightarrow> bool" where
  "cache_consistent c s \<longleftrightarrow>
     (\<forall>k x. store (wld s) k = Some x \<longrightarrow> (\<exists>v. (key_path k, v) \<in> set (fetched s) \<and> stringify c v = Some x))
     \<and> (\<forall>t \<in> set (tasks s). key_path (tkey t) = tpath t
                          \<and> (\<forall>d. pc t = Fetched d \<longrightarrow> (tpath t, d) \<in> set (fetched s)))"

definition new_backend :: "service \<Rightarrow> http_request \<Rightarrow> http_response option" where
  "new_backend svc q = Some (Response 200 (JObj [(''result'', JStr ''p2'')]))"

definition sample_event :: kmsg where
  "sample_event = \<lparr>topic = ''inventory-events '', partition = 0, offset = 1, payload = ''{}''\<rparr>"

lemma exec_step_sound:
  assumes ex: "exec_step c s d = Some s'"
  shows "rstep c s s'"
proof (cases d)
  case (SSpawn a)
  then show ?thesis using ex rstep.spawn by auto
next
  case (SLookup i)
  then show ?thesis using ex by (auto split: if_splits prod.splits intro: rstep.lookup)
next
  case (SFetch i)
  then show ?thesis using ex by (auto split: if_splits prod.splits intro: rstep.fetch)
next
  case (SFill i)
  then show ?thesis using ex by (auto split: if_splits prod.splits rpc.splits intro: rstep.fill)
next
  case (SInvalidate m)
  then show ?thesis using ex by (auto intro: rstep.invalidate [of m _ "fst (each_message m (wld s))"])
next
  case (SInventory b)
  then show ?thesis using ex rstep.inventory by auto
qed

lemma exec_step_complete: "rstep c s s' \<Longrightarrow> \<exists>d. exec_step c s d = Some s'"
proof (induction rule: rstep.induct)
  case (spawn s a)
  then show ?case by (metis exec_step.simps(1))
next
  case (lookup i s r w')
  then show ?case by (intro exI [of _ "SLookup i"]) simp
next
  case (fetch i s r w')
  then show ?case by (intro exI [of _ "SFetch i"]) simp
next
  case (fill i s d r w')
  then show ?case by (intro exI [of _ "SFill i"]) simp
next
  case (invalidate m s r w')
  then show ?case by (intro exI [of _ "SInvalidate m"]) simp
next
  case (inventory s b)
  then show ?case by (metis exec_step.simps(6))
qed

text \<open>
  The executable scheduler and the step relation define the same machine: a state
  steps to another exactly when some scheduling decision takes it there.
\<close>

lemma rstep_exec_step: "rstep c s s' \<longleftrightarrow> (\<exists>d. exec_step c s d = Some s')"
  using exec_step_sound exec_step_complete by blast

lemma exec_sched_reachable:
  "reachable c s \<Longrightarrow> exec_sched c s ds = Some s' \<Longrightarrow> reachable c s'"
proof (induction ds arbitrary: s)
  case Nil
  then show ?case by simp
next
  case (Cons d ds)
  then obtain s1 where "exec_step c s d = Some s1" "exec_sched c s1 ds = Some s'"
    by (auto split: option.splits)
  with Cons show ?case by (blast intro: reachable.step exec_step_sound)
qed

lemma store_serialized_effect:
  "store_serialized c k d w = (r, w') \<Longrightarrow>
   w' = w \<or> (\<exists>x. stringify c d = Some x \<and> w' = w\<lparr>store := (store w)(k \<mapsto> x)\<rparr>)"
  by (auto simp: store_serialized_def cache_set_def split: option.splits if_splits)

lemma each_message_effect:
  "each_message m w = (r, w') \<Longrightarrow> w' = w \<or> w' = w\<lparr>store := (store w)(''products/'' := None)\<rparr>"
  by (simp add: each_message_up)

lemma set_set_pc:
  "t \<in> set (set_pc s i p) \<Longrightarrow> t \<in> set (tasks s) \<or> t = (tasks s ! i)\<lparr>pc := p\<rparr>"
  unfolding set_pc_def using set_update_subset_insert by fastforce

lemma after_lookup_not_fetched [simp]: "after_lookup r \<noteq> Fetched d"
  by (simp add: after_lookup_def split: sum.split)

lemma after_fill_not_fetched [simp]: "after_fill v r \<noteq> Fetched d"
  by (simp add: after_fill_def split: sum.split)

lemma after_fetch_fetched: "after_fetch r = Fetched d \<Longrightarrow> (k, d) \<in> set (got k r)"
  by (simp add: after_fetch_def got_def split: sum.splits)

lemma key_path_read_task: "tpath (read_task a) = key_path (tkey (read_task a))"
  by (simp add: read_task_def key_path_def product_key_def split: option.split)

lemma set_pc_tasks_ok:
  assumes "\<forall>t \<in> set (tasks s). key_path (tkey t) = tpath t \<and> (\<forall>d. pc t = Fetched d \<longrightarrow> (tpath t, d) \<in> set G)"
    and "set G \<subseteq> set F" "i < length (tasks s)" "\<forall>d. p = Fetched d \<longrightarrow> (tpath (tasks s ! i), d) \<in> set F"
  shows "\<forall>t \<in> set (set_pc s i p). key_path (tkey t) = tpath t \<and> (\<forall>d. pc t = Fetched d \<longrightarrow> (tpath t, d) \<in> set F)"
proof
  fix t assume "t \<in> set (set_pc s i p)"
  then have "t \<in> set (tasks s) \<or> t = (tasks s ! i)\<lparr>pc := p\<rparr>" by (rule set_set_pc)
  moreover have "tasks s ! i \<in> set (tasks s)" using assms(3) by simp
  ultimately show "key_path (tkey t) = tpath t \<and> (\<forall>d. pc t = Fetched d \<longrightarrow> (tpath t, d) \<in> set F)"
    using assms(1,2,4) by auto
qed

lemma cache_consistent_tasks:
  "cache_consistent c s \<Longrightarrow>
   \<forall>t \<in> set (tasks s). key_path (tkey t) = tpath t \<and> (\<forall>d. pc t = Fetched d \<longrightarrow> (tpath t, d) \<in> set (fetched s))"
  unfolding cache_consistent_def by blast

lemma rstep_cache_consistent:
  "rstep c s s' \<Longrightarrow> cache_consistent c s \<Longrightarrow> cache_consistent c s'"
proof (induction rule: rstep.induct)
  case (spawn s a)
  have "pc (read_task a) = Start" by (simp add: read_task_def split: option.split)
  with spawn show ?case using key_path_read_task [of a] by (auto simp: cache_consistent_def)
next
  case (lookup i s r w')
  then have "w' = wld s" by (simp add: read_cached_state)
  moreover have "\<forall>t \<in> set (set_pc s i (after_lookup r)). key_path (tkey t) = tpath t
                   \<and> (\<forall>d. pc t = Fetched d \<longrightarrow> (tpath t, d) \<in> set (fetched s))"
    by (rule set_pc_tasks_ok [OF cache_consistent_tasks [OF lookup.prems] _ lookup.hyps(1)]) simp_all
  ultimately show ?case using lookup.prems by (simp add: cache_consistent_def)
next
  case (fetch i s r w')
  then have "store w' = store (wld s)" using fetch.hyps(3) by (auto dest: call_service_state)
  moreover have "\<forall>t \<in> set (set_pc s i (after_fetch r)). key_path (tkey t) = tpath t
                   \<and> (\<forall>d. pc t = Fetched d \<longrightarrow> (tpath t, d) \<in> set (fetched s @ got (tpath (tasks s ! i)) r))"
    by (rule set_pc_tasks_ok [OF cache_consistent_tasks [OF fetch.prems] _ fetch.hyps(1)])
       (auto dest: after_fetch_fetched)
  moreover have "\<forall>k x. store w' k = Some x \<longrightarrow>
                   (\<exists>v. (key_path k, v) \<in> set (fetched s @ got (tpath (tasks s ! i)) r) \<and> stringify c v = Some x)"
    using fetch.prems \<open>store w' = store (wld s)\<close> unfolding cache_consistent_def by fastforce
  ultimately show ?case by (simp add: cache_consistent_def)
next
  case (fill i s d r w')
  have "tasks s ! i \<in> set (tasks s)" using fill.hyps(1) by simp
  then have held: "(key_path (tkey (tasks s ! i)), d) \<in> set (fetched s)"
    using fill.prems fill.hyps(2) unfolding cache_consistent_def by metis
  have tasks_ok: "\<forall>t \<in> set (set_pc s i (after_fill d r)). key_path (tkey t) = tpath t
                    \<and> (\<forall>d'. pc t = Fetched d' \<longrightarrow> (tpath t, d') \<in> set (fetched s))"
    by (rule set_pc_tasks_ok [OF cache_consistent_tasks [OF fill.prems] _ fill.hyps(1)]) simp_all
  from store_serialized_effect [OF fill.hyps(3)] show ?case
  proof
    assume "w' = wld s"
    then show ?thesis using fill.prems tasks_ok by (simp add: cache_consistent_def)
  next
    assume "\<exists>x. stringify c d = Some x \<and> w' = (wld s)\<lparr>store := (store (wld s))(tkey (tasks s ! i) \<mapsto> x)\<rparr>"
    then show ?thesis using fill.prems tasks_ok held
      by (auto simp: cache_consistent_def split: if_splits)
  qed
next
  case (invalidate m s r w')
  from each_message_effect [OF invalidate.hyps] invalidate.prems show ?case
    by (auto simp: cache_consistent_def split: if_splits)
next
  case (inventory s b)
  then show ?case by (simp add: cache_consistent_def)
qed

text \<open>
  C4: in every state the interleaved gateway can reach from an empty cache, every cache
  entry \<open>products/x\<close> is the serialisation of data the product backend returned to
  \<open>GET /x\<close> (the spec's invariant of a cache entry), and every read in flight requests
  the path of the key it caches under, whatever reads, invalidations and backend changes
  were interleaved.
\<close>

theorem reachable_cache_consistent: "reachable c s \<Longrightarrow> cache_consistent c s"
proof (induction rule: reachable.induct)
  case (init w)
  then show ?case by (simp add: cache_consistent_def init_sys_def)
next
  case (step s s')
  from step.hyps(2) step.IH show ?case by (rule rstep_cache_consistent)
qed

lemma read_cached_absent:
  "store w k = None \<Longrightarrow> read_cached c k w = (Inl (ErrorMsg ''Cache not found''), w)"
  by (simp add: read_cached_def gw_simps)

lemma store_serialized_ok:
  "stringify c d = Some x \<Longrightarrow> store_serialized c k d w = (Inr (), w\<lparr>store := (store w)(k \<mapsto> x)\<rparr>)"
  by (simp add: store_serialized_def gw_simps)

text \<open>
  C29: there is no protection against a cache stampede: two reads of the same uncached id
  that both pass their cache lookup before either fills the cache send two identical
  requests to the product backend and both write the cache.
\<close>

theorem concurrent_misses_fetch_twice:
  assumes "store w = Map.empty"
    and "replies w ProductSvc (get_req (''/'' @ i)) v" "stringify c v = Some x"
  shows "\<exists>s'. exec_sched c (init_sys w)
                 [SSpawn (Some (JStr i)), SSpawn (Some (JStr i)), SLookup 0, SLookup 1,
                  SFetch 0, SFetch 1, SFill 0, SFill 1] = Some s'
           \<and> reachable c s'
           \<and> sent (wld s') = sent w @ [(ProductSvc, get_req (''/'' @ i)), (ProductSvc, get_req (''/'' @ i))]
           \<and> map pc (tasks s') = [Finished (Inr v), Finished (Inr v)]
           \<and> store (wld s') (product_key (JStr i)) = Some x"
proof -
  let ?s = "\<lparr>wld = w\<lparr>sent := sent w @ [(ProductSvc, get_req (''/'' @ i)), (ProductSvc, get_req (''/'' @ i))],
                        store := [product_key (JStr i) \<mapsto> x]\<rparr>,
              tasks = [\<lparr>tkey = product_key (JStr i), tpath = ''/'' @ i, pc = Finished (Inr v)\<rparr>,
                       \<lparr>tkey = product_key (JStr i), tpath = ''/'' @ i, pc = Finished (Inr v)\<rparr>],
              fetched = [(''/'' @ i, v), (''/'' @ i, v)]\<rparr>"
  have ex: "exec_sched c (init_sys w)
                 [SSpawn (Some (JStr i)), SSpawn (Some (JStr i)), SLookup 0, SLookup 1,
                  SFetch 0, SFetch 1, SFill 0, SFill 1] = Some ?s"
    using assms
    by (simp add: init_sys_def read_task_def set_pc_def read_cached_absent after_lookup_def
                  call_service_ok after_fetch_def got_def store_serialized_ok after_fill_def)
  have "reachable c (init_sys w)" using assms(1) by (rule reachable.init)
  then have "reachable c ?s" using ex by (rule exec_sched_reachable)
  with ex show ?thesis by (intro exI [of _ ?s]) simp
qed

text \<open>
  C5: the invalidation race of the spec's section 5 is real: a listing read that fetched
  before an inventory change writes the cache after the change's invalidation message was
  handled, and from then on \<open>getAll\<close> answers the old listing from the cache,
  whatever the backend now returns.
\<close>

theorem invalidation_lost_to_fill:
  assumes "store w = Map.empty"
    and "replies w ProductSvc (get_req ''/'') old" "stringify c old = Some x" "x \<noteq> []" "parse c x = Some old"
  shows "\<exists>s'. exec_sched c (init_sys w)
                 [SSpawn None, SLookup 0, SFetch 0, SInventory b, SInvalidate m, SFill 0] = Some s'
           \<and> reachable c s' \<and> backend (wld s') = b
           \<and> product_getAll c (wld s') = (Inr old, wld s')"
proof -
  let ?s = "\<lparr>wld = w\<lparr>sent := sent w @ [(ProductSvc, get_req ''/'')], backend := b,
                        store := [''products/'' \<mapsto> x]\<rparr>,
              tasks = [\<lparr>tkey = ''products/'', tpath = ''/'', pc = Finished (Inr old)\<rparr>],
              fetched = [(''/'', old)]\<rparr>"
  have ex: "exec_sched c (init_sys w)
                 [SSpawn None, SLookup 0, SFetch 0, SInventory b, SInvalidate m, SFill 0] = Some ?s"
    using assms
    by (simp add: init_sys_def read_task_def set_pc_def read_cached_absent after_lookup_def
                  call_service_ok after_fetch_def got_def store_serialized_ok after_fill_def
                  each_message_up)
  have "reachable c (init_sys w)" using assms(1) by (rule reachable.init)
  then have "reachable c ?s" using ex by (rule exec_sched_reachable)
  moreover have "product_getAll c (wld ?s) = (Inr old, wld ?s)"
    unfolding product_getAll_def using assms(4,5) by (intro cache_aside_hit) (simp_all add: cached_value_def)
  ultimately show ?thesis using ex by (intro exI [of _ ?s]) simp
qed

lemma cache_aside_as_steps:
  assumes run: "gw_catch (read_cached c k) (\<lambda>_. fill_from c k p) w = (r, w')"
    and ts: "tasks s = [\<lparr>tkey = k, tpath = p, pc = Start\<rparr>]" and ws: "wld s = w"
  shows "\<exists>ds s'. exec_sched c s (SLookup 0 # ds) = Some s' \<and> wld s' = w' \<and> map pc (tasks s') = [Finished r]"
proof (cases "read_cached c k w")
  case (Pair r1 w1)
  then have w1: "w1 = w" by (rule read_cached_state)
  show ?thesis
  proof (cases r1)
    case (Inr v)
    then have "r = Inr v" "w' = w" using run Pair w1 by (simp_all add: gw_catch_def)
    then show ?thesis using Pair Inr w1 ts ws
      by (intro exI [of _ "[]"]) (simp add: set_pc_def after_lookup_def)
  next
    case (Inl e)
    then have fill: "fill_from c k p w = (r, w')" using run Pair w1 by (simp add: gw_catch_def)
    obtain r2 w2 where call: "call_service ProductSvc (get_req p) w = (r2, w2)" by fastforce
    show ?thesis
    proof (cases r2)
      case (Inl e2)
      then have "r = Inl e2" "w' = w2" using fill call by (simp_all add: fill_from_def gw_bind_def)
      then show ?thesis using Pair \<open>r1 = Inl e\<close> w1 ts ws call \<open>r2 = Inl e2\<close>
        by (intro exI [of _ "[SFetch 0]"]) (simp add: set_pc_def after_lookup_def after_fetch_def)
    next
      case (Inr d)
      obtain r3 w3 where st: "store_serialized c k d w2 = (r3, w3)" by fastforce
      have "r = (case r3 of Inl e3 \<Rightarrow> Inl e3 | Inr _ \<Rightarrow> Inr d)" "w' = w3"
        using fill call st Inr by (auto simp: fill_from_def gw_bind_def split: sum.splits)
      then show ?thesis using Pair \<open>r1 = Inl e\<close> w1 ts ws call Inr st
        by (intro exI [of _ "[SFetch 0, SFill 0]"])
           (simp add: set_pc_def after_lookup_def after_fetch_def after_fill_def split: sum.split)
    qed
  qed
qed

text \<open>
  The sequential \<open>getAll\<close> of \<open>product-service.ts\<close> is one run of the step
  machine without interleaving: it ends in the same world with the same result as the
  schedule that spawns the read and runs only its steps.
\<close>

lemma getAll_is_a_schedule:
  assumes "product_getAll c w = (r, w')"
  shows "\<exists>ds s'. exec_sched c (init_sys w) (SSpawn None # SLookup 0 # ds) = Some s'
                 \<and> wld s' = w' \<and> map pc (tasks s') = [Finished r]"
proof -
  let ?s = "(init_sys w)\<lparr>tasks := [read_task None]\<rparr>"
  have "\<exists>ds s'. exec_sched c ?s (SLookup 0 # ds) = Some s' \<and> wld s' = w' \<and> map pc (tasks s') = [Finished r]"
    using assms unfolding product_getAll_def
    by (rule cache_aside_as_steps) (simp_all add: init_sys_def read_task_def)
  then show ?thesis by (simp add: init_sys_def)
qed

theorem reachable_cache_consistent_witness:
  "cache_consistent demo_codec (the (exec_sched demo_codec (init_sys demo_world)
                                       [SSpawn (Some (JStr ''7'')), SLookup 0, SFetch 0, SFill 0]))
   \<and> store (wld (the (exec_sched demo_codec (init_sys demo_world)
                       [SSpawn (Some (JStr ''7'')), SLookup 0, SFetch 0, SFill 0]))) ''products/7''
       = Some ''\"p1\"''"
proof -
  let ?ds = "[SSpawn (Some (JStr ''7'')), SLookup 0, SFetch 0, SFill 0]"
  have ex: "exec_sched demo_codec (init_sys demo_world) ?ds
              = Some (the (exec_sched demo_codec (init_sys demo_world) ?ds))"
    by (simp add: init_sys_def demo_world_def demo_codec_def read_task_def set_pc_def product_key_def
                  read_cached_absent after_lookup_def call_service_ok replies_def after_fetch_def got_def
                  store_serialized_ok after_fill_def)
  have "reachable demo_codec (init_sys demo_world)" by (rule reachable.init) (simp add: demo_world_def)
  then have "reachable demo_codec (the (exec_sched demo_codec (init_sys demo_world) ?ds))"
    using ex by (rule exec_sched_reachable)
  moreover have "store (wld (the (exec_sched demo_codec (init_sys demo_world) ?ds))) ''products/7'' = Some ''\"p1\"''"
    by (simp add: init_sys_def demo_world_def demo_codec_def read_task_def set_pc_def product_key_def
                  read_cached_absent after_lookup_def call_service_ok replies_def after_fetch_def got_def
                  store_serialized_ok after_fill_def)
  ultimately show ?thesis using reachable_cache_consistent by blast
qed

theorem concurrent_misses_fetch_twice_witness:
  "\<exists>s'. exec_sched demo_codec (init_sys demo_world)
          [SSpawn (Some (JStr ''7'')), SSpawn (Some (JStr ''7'')), SLookup 0, SLookup 1,
           SFetch 0, SFetch 1, SFill 0, SFill 1] = Some s'
     \<and> reachable demo_codec s'
     \<and> sent (wld s') = [(ProductSvc, get_req ''/7''), (ProductSvc, get_req ''/7'')]
     \<and> map pc (tasks s') = [Finished (Inr (JStr ''p1'')), Finished (Inr (JStr ''p1''))]
     \<and> store (wld s') (product_key (JStr ''7'')) = Some ''\"p1\"''"
  using concurrent_misses_fetch_twice [of demo_world "''7''" "JStr ''p1''" demo_codec "''\"p1\"''"]
  by (simp add: demo_world_def demo_codec_def replies_def)

theorem invalidation_lost_to_fill_witness:
  "\<exists>s'. exec_sched demo_codec (init_sys demo_world)
          [SSpawn None, SLookup 0, SFetch 0, SInventory new_backend, SInvalidate sample_event, SFill 0] = Some s'
     \<and> reachable demo_codec s' \<and> backend (wld s') = new_backend
     \<and> product_getAll demo_codec (wld s') = (Inr (JStr ''p1''), wld s')"
  using invalidation_lost_to_fill [of demo_world "JStr ''p1''" demo_codec "''\"p1\"''" new_backend sample_event]
  by (simp add: demo_world_def demo_codec_def replies_def)

end
