(* ===== verification/UserBackend.thy ===== *)
theory UserBackend
  imports Clients
begin

text \<open>
  The user service, \<open>Services/User-Service/src/app.ts\<close>: an Express app over the
  \<open>User\<close> collection. \<open>POST /\<close> validates the body with zod (\<open>username\<close> and
  \<open>password\<close> strings), looks the name up, hashes the password with bcrypt and creates
  the user, answering with the user and a signed token; \<open>GET /:id\<close> and
  \<open>GET /\<close> read users. The registration handler awaits twice: \<open>findOne\<close>
  (\<open>reg_lookup\<close>), then, in the \<open>bcrypt.hash\<close> callback, \<open>create\<close>
  (\<open>reg_create\<close>); \<open>register\<close> runs the two in a row, and \<open>reg_step\<close> lets the
  handlers of concurrent requests interleave at those points. The collection is \<open>user_db\<close>: the users in insertion order,
  the counter that mints object ids, and whether MongoDB is reachable. bcrypt and the
  JWT signer are parameters (\<open>hasher\<close> is \<open>None\<close> where bcrypt reports an error).
  Messages of errors thrown by MongoDB or bcrypt are not fixed by the code; they are
  the placeholder texts below.
\<close>

record user =
  uid :: string
  uname :: string
  upass :: string

record user_db =
  users :: "user list"
  id_seed :: nat
  db_up :: bool

type_synonym hasher = "string \<Rightarrow> string option"

type_synonym signer = "string \<Rightarrow> string"

definition hex_digit :: "nat \<Rightarrow> char" where
  "hex_digit d = (if d < 10 then char_of (48 + d) else char_of (87 + d))"

fun hex_of :: "nat \<Rightarrow> nat \<Rightarrow> string" where
  "hex_of 0 n = []"
| "hex_of (Suc k) n = hex_of k (n div 16) @ [hex_digit (n mod 16)]"

text \<open>A fresh MongoDB object id: 24 hexadecimal digits.\<close>

definition object_id :: "nat \<Rightarrow> string" where
  "object_id n = hex_of 24 n"

definition is_object_id :: "string \<Rightarrow> bool" where
  "is_object_id s \<longleftrightarrow> length s = 24 \<and> (\<forall>c \<in> set s. c \<in> set ''0123456789abcdef'')"

definition lower_hex :: "char \<Rightarrow> char" where
  "lower_hex c = (if c \<in> set ''ABCDEF'' then char_of (of_char c + (32::nat)) else c)"

text \<open>
  The cast \<open>findById\<close> applies to its argument (bson's \<open>ObjectId\<close> constructor):
  24 hexadecimal digits in either case denote the id written in lower case; a string of
  12 one-byte characters is taken as the id's 12 bytes; anything else throws.
\<close>

definition cast_object_id :: "string \<Rightarrow> string option" where
  "cast_object_id s =
     (if length s = 24 \<and> (\<forall>c \<in> set s. c \<in> set ''0123456789abcdefABCDEF'') then Some (map lower_hex s)
      else if length s = 12 \<and> (\<forall>c \<in> set s. of_char c < (128::nat))
      then Some (concat (map (\<lambda>c. hex_of 2 (of_char c)) s))
      else None)"

definition err_json :: "string \<Rightarrow> jsval" where
  "err_json m = JObj [(''error'', JStr m)]"

definition user_json :: "user \<Rightarrow> jsval" where
  "user_json u = JObj [(''_id'', JStr (uid u)), (''username'', JStr (uname u)), (''password'', JStr (upass u))]"

text \<open>
  \<open>validateRequestBody(z.object({username: z.string(), password: z.string()}))\<close>:
  the two strings, or the middleware's 400 answer.
\<close>

definition validate_register :: "jsval \<Rightarrow> (string \<times> string) option" where
  "validate_register b =
     (case b of
        JObj kvs \<Rightarrow>
          (case (map_of kvs ''username'', map_of kvs ''password'') of
             (Some (JStr n), Some (JStr p)) \<Rightarrow> Some (n, p)
           | _ \<Rightarrow> None)
      | _ \<Rightarrow> None)"

definition zod_errors :: jsval where
  "zod_errors = JArr [JObj [(''type'', JStr ''Body''), (''errors'', JObj [(''name'', JStr ''ZodError'')])]]"

definition find_by_name :: "user list \<Rightarrow> string \<Rightarrow> user option" where
  "find_by_name us n = find (\<lambda>u. uname u = n) us"

definition find_by_id :: "user list \<Rightarrow> string \<Rightarrow> user option" where
  "find_by_id us i = find (\<lambda>u. uid u = i) us"

text \<open>
  The handler up to its first await: the validation middleware, then
  \<open>User.findOne({username})\<close>; \<open>Inl\<close> is the response sent there, \<open>Inr\<close> the name
  and password passed on to \<open>bcrypt.hash\<close>.
\<close>

definition reg_lookup :: "jsval \<Rightarrow> user_db \<Rightarrow> http_response + (string \<times> string)" where
  "reg_lookup b db =
     (case validate_register b of
        None \<Rightarrow> Inl (Response 400 zod_errors)
      | Some (n, p) \<Rightarrow>
          if \<not> db_up db then Inl (Response 500 (err_json ''MongoDB unavailable''))
          else if find_by_name (users db) n \<noteq> None
          then Inl (Response 400 (err_json ''Username already exists''))
          else Inr (n, p))"

text \<open>
  The \<open>bcrypt.hash\<close> callback: a hashing error is answered 500; otherwise
  \<open>await User.create\<close> inserts the user (there is no unique index on \<open>username\<close>)
  and the answer is 201 with the user and its token.
\<close>

definition reg_create :: "hasher \<Rightarrow> signer \<Rightarrow> string \<Rightarrow> string \<Rightarrow> user_db \<Rightarrow> http_response \<times> user_db" where
  "reg_create hf sg n p db =
     (case hf p of
        None \<Rightarrow> (Response 500 (err_json ''bcrypt failed''), db)
      | Some h \<Rightarrow>
          if \<not> db_up db then (Response 500 (err_json ''MongoDB unavailable''), db)
          else let u = \<lparr>uid = object_id (id_seed db), uname = n, upass = h\<rparr> in
               (Response 201 (JObj [(''result'', JObj [(''user'', user_json u),
                                                       (''access_token'', JStr (sg (uid u)))])]),
                db\<lparr>users := users db @ [u], id_seed := Suc (id_seed db)\<rparr>))"

definition register :: "hasher \<Rightarrow> signer \<Rightarrow> jsval \<Rightarrow> user_db \<Rightarrow> http_response \<times> user_db" where
  "register hf sg b db =
     (case reg_lookup b db of
        Inl r \<Rightarrow> (r, db)
      | Inr (n, p) \<Rightarrow> reg_create hf sg n p db)"

definition get_user :: "string \<Rightarrow> user_db \<Rightarrow> http_response" where
  "get_user i db =
     (if \<not> db_up db then Response 500 (err_json ''MongoDB unavailable'')
      else case cast_object_id i of
             None \<Rightarrow> Response 500 (err_json (''Cast to ObjectId failed for value \"'' @ i @ ''\"''))
           | Some oid \<Rightarrow>
               (case find_by_id (users db) oid of
                  None \<Rightarrow> Response 404 (err_json ''User not Found'')
                | Some u \<Rightarrow> Response 200 (JObj [(''result'', user_json u)])))"

definition get_users :: "user_db \<Rightarrow> http_response" where
  "get_users db =
     (if \<not> db_up db then Response 500 (err_json ''MongoDB unavailable'')
      else Response 200 (JObj [(''result'', JArr (map user_json (users db)))]))"

text \<open>Express routing: \<open>POST /\<close>, \<open>GET /:id\<close> (one non-empty segment), \<open>GET /\<close>.\<close>

definition user_app :: "hasher \<Rightarrow> signer \<Rightarrow> http_request \<Rightarrow> user_db \<Rightarrow> http_response \<times> user_db" where
  "user_app hf sg r db =
     (case (rq_method r, rq_path r) of
        (POST, p) \<Rightarrow> if p = ''/'' then register hf sg (rq_body r) db
                      else (Response 404 (JStr ''Cannot POST''), db)
      | (GET, p) \<Rightarrow>
          if p = ''/'' then (get_users db, db)
          else if hd p = CHR ''/'' \<and> CHR ''/'' \<notin> set (tl p) then (get_user (tl p) db, db)
          else (Response 404 (JStr ''Cannot GET''), db))"

text \<open>
  Concurrent registrations: the database, the handlers in flight (each at its next
  await) and the responses sent, in order. A step resumes any one handler.
\<close>

datatype reg_task = RLookup jsval | RCreate string string

type_synonym reg_sys = "user_db \<times> reg_task list \<times> http_response list"

definition drop_nth :: "nat \<Rightarrow> 'a list \<Rightarrow> 'a list" where
  "drop_nth i xs = take i xs @ drop (Suc i) xs"

inductive reg_step :: "hasher \<Rightarrow> signer \<Rightarrow> reg_sys \<Rightarrow> reg_sys \<Rightarrow> bool" for hf :: hasher and sg :: signer where
  lookup_done: "i < length ts \<Longrightarrow> ts ! i = RLookup b \<Longrightarrow> reg_lookup b db = Inl r \<Longrightarrow>
     reg_step hf sg (db, ts, rs) (db, drop_nth i ts, rs @ [r])"
| lookup_pass: "i < length ts \<Longrightarrow> ts ! i = RLookup b \<Longrightarrow> reg_lookup b db = Inr (n, p) \<Longrightarrow>
     reg_step hf sg (db, ts, rs) (db, ts[i := RCreate n p], rs)"
| create: "i < length ts \<Longrightarrow> ts ! i = RCreate n p \<Longrightarrow> reg_create hf sg n p db = (r, db') \<Longrightarrow>
     reg_step hf sg (db, ts, rs) (db', drop_nth i ts, rs @ [r])"

fun serve :: "hasher \<Rightarrow> signer \<Rightarrow> user_db \<Rightarrow> http_request list \<Rightarrow> user_db" where
  "serve hf sg db [] = db"
| "serve hf sg db (r # rs) = serve hf sg (snd (user_app hf sg r db)) rs"

definition empty_db :: user_db where
  "empty_db = \<lparr>users = [], id_seed = 0, db_up = True\<rparr>"

definition reg_body :: "string \<Rightarrow> string \<Rightarrow> jsval" where
  "reg_body n p = JObj [(''username'', JStr n), (''password'', JStr p)]"

definition names_distinct :: "user_db \<Rightarrow> bool" where
  "names_distinct db \<longleftrightarrow> distinct (map uname (users db))"

definition ids_ok :: "user_db \<Rightarrow> bool" where
  "ids_ok db \<longleftrightarrow> (\<forall>u \<in> set (users db). \<exists>k < id_seed db. uid u = object_id k)"

definition demo_hasher :: hasher where
  "demo_hasher p = Some (''$2a$10$'' @ p)"

definition demo_signer :: signer where
  "demo_signer i = ''jwt.'' @ i"

lemma validate_reg_body [simp]: "validate_register (reg_body n p) = Some (n, p)"
  by (simp add: validate_register_def reg_body_def)

lemma register_created:
  assumes "register hf sg b db = (Response 201 x, db1)"
  shows "\<exists>n p h. validate_register b = Some (n, p) \<and> db_up db \<and> find_by_name (users db) n = None
           \<and> hf p = Some h
           \<and> db1 = db\<lparr>users := users db @ [\<lparr>uid = object_id (id_seed db), uname = n, upass = h\<rparr>],
                       id_seed := Suc (id_seed db)\<rparr>"
  using assms
  by (auto simp: register_def reg_lookup_def reg_create_def Let_def split: option.splits prod.splits if_splits sum.splits)

text \<open>
  C8: registering the same username twice: once the first \<open>POST /\<close> has created the
  user (201), a second one with that username, whatever its password, is answered 400
  "Username already exists" and leaves the collection as it was.
\<close>

theorem register_twice:
  assumes "register hf sg (reg_body n p) db = (Response 201 x, db1)"
  shows "register hf sg (reg_body n p') db1 = (Response 400 (err_json ''Username already exists''), db1)"
proof -
  obtain h where up: "db_up db"
    and db1: "db1 = db\<lparr>users := users db @ [\<lparr>uid = object_id (id_seed db), uname = n, upass = h\<rparr>],
                       id_seed := Suc (id_seed db)\<rparr>"
    using register_created [OF assms] by auto
  have "find_by_name (users db1) n \<noteq> None"
    using db1 by (auto simp: find_by_name_def find_None_iff)
  then show ?thesis using up db1 by (simp add: register_def reg_lookup_def)
qed

lemma register_names_distinct:
  "names_distinct db \<Longrightarrow> names_distinct (snd (register hf sg b db))"
  by (auto simp: register_def reg_lookup_def reg_create_def names_distinct_def find_by_name_def
                 find_None_iff Let_def split: option.splits prod.splits sum.splits)

lemma user_app_names_distinct:
  "names_distinct db \<Longrightarrow> names_distinct (snd (user_app hf sg r db))"
  by (auto simp: user_app_def register_names_distinct split: prod.splits http_method.splits)

text \<open>
  When requests are handled one at a time, no two users share a username, whatever
  requests were served; \<open>concurrent_register_duplicates\<close> below shows that this rests
  on the handlers not overlapping.
\<close>

lemma serve_names_distinct: "distinct (map uname (users (serve hf sg empty_db rs)))"
proof -
  have "names_distinct db \<Longrightarrow> names_distinct (serve hf sg db rs)" for db
    by (induction rs arbitrary: db) (simp_all add: user_app_names_distinct)
  then show ?thesis by (simp add: names_distinct_def empty_db_def)
qed

lemma of_char_hex_digit: "d < 16 \<Longrightarrow> of_char (hex_digit d) = (if d < 10 then 48 + d else 87 + d)"
  by (simp add: hex_digit_def of_char_of)

lemma hex_digit_inj: "d < 16 \<Longrightarrow> e < 16 \<Longrightarrow> hex_digit d = hex_digit e \<Longrightarrow> d = e"
proof -
  assume d: "d < 16" and e: "e < 16" and eq: "hex_digit d = hex_digit e"
  then have "(if d < 10 then 48 + d else 87 + d) = (if e < 10 then 48 + e else 87 + e)"
    by (metis of_char_hex_digit)
  then show "d = e" by (simp split: if_splits)
qed

lemma length_hex_of [simp]: "length (hex_of w n) = w"
  by (induction w arbitrary: n) simp_all

lemma hex_of_inj: "hex_of w n = hex_of w m \<Longrightarrow> n < 16 ^ w \<Longrightarrow> m < 16 ^ w \<Longrightarrow> n = m"
proof (induction w arbitrary: n m)
  case 0
  then show ?case by simp
next
  case (Suc w)
  from Suc.prems(1) have hi: "hex_of w (n div 16) = hex_of w (m div 16)"
    and lo: "hex_digit (n mod 16) = hex_digit (m mod 16)" by simp_all
  have "n div 16 < 16 ^ w" "m div 16 < 16 ^ w"
    using Suc.prems(2,3) by (simp_all add: less_mult_imp_div_less mult.commute)
  with hi have "n div 16 = m div 16" by (rule Suc.IH)
  moreover from lo have "n mod 16 = m mod 16" by (rule hex_digit_inj [rotated 2]) simp_all
  ultimately show ?case by (metis div_mult_mod_eq)
qed

lemma hex_digits_table: "map hex_digit [0..<16] = ''0123456789abcdef''"
  by code_simp

lemma hex_digit_mem: "d < 16 \<Longrightarrow> hex_digit d \<in> set ''0123456789abcdef''"
proof -
  assume "d < 16"
  then have "hex_digit d \<in> set (map hex_digit [0..<16])" by simp
  then show ?thesis by (simp only: hex_digits_table)
qed

lemma set_hex_of: "set (hex_of w n) \<subseteq> set ''0123456789abcdef''"
proof (induction w arbitrary: n)
  case 0
  then show ?case by simp
next
  case (Suc w)
  have "hex_digit (n mod 16) \<in> set ''0123456789abcdef''" by (rule hex_digit_mem) simp
  with Suc.IH [of "n div 16"] show ?case by simp
qed

lemma is_object_id_object_id: "is_object_id (object_id k)"
proof -
  have "length (object_id k) = 24" by (simp add: object_id_def)
  moreover have "set (object_id k) \<subseteq> set ''0123456789abcdef''"
    unfolding object_id_def by (rule set_hex_of)
  ultimately show ?thesis unfolding is_object_id_def by blast
qed

lemma object_id_nonempty: "object_id k \<noteq> []"
proof
  assume "object_id k = []"
  then have "length (object_id k) = 0" by simp
  then show False by (simp add: object_id_def)
qed

lemma lower_hex_id: "c \<in> set ''0123456789abcdef'' \<Longrightarrow> lower_hex c = c"
  by (auto simp: lower_hex_def)

lemma cast_object_id_object_id: "cast_object_id (object_id k) = Some (object_id k)"
proof -
  have hx: "\<forall>c \<in> set (object_id k). c \<in> set ''0123456789abcdef''"
    using is_object_id_object_id [of k] by (simp add: is_object_id_def)
  have "''0123456789abcdefABCDEF'' = ''0123456789abcdef'' @ ''ABCDEF''" by simp
  then have "set ''0123456789abcdef'' \<subseteq> set ''0123456789abcdefABCDEF''" by (metis set_append Un_upper1)
  with hx have all: "\<forall>c \<in> set (object_id k). c \<in> set ''0123456789abcdefABCDEF''" by blast
  have m: "map lower_hex (object_id k) = object_id k"
    using hx by (simp add: lower_hex_id map_idI)
  have "length (object_id k) = 24" by (simp add: object_id_def)
  with all m show ?thesis unfolding cast_object_id_def by presburger
qed

lemma find_append_None: "find P xs = None \<Longrightarrow> find P (xs @ ys) = find P ys"
  by (induction xs) (auto split: if_splits)

lemma register_ids_ok: "ids_ok db \<Longrightarrow> ids_ok (snd (register hf sg b db))"
  by (fastforce simp: register_def reg_lookup_def reg_create_def ids_ok_def Let_def less_Suc_eq
                split: option.splits prod.splits sum.splits)

lemma user_app_ids_ok: "ids_ok db \<Longrightarrow> ids_ok (snd (user_app hf sg r db))"
  by (auto simp: user_app_def register_ids_ok split: prod.splits http_method.splits)

lemma serve_ids_ok: "ids_ok db \<Longrightarrow> ids_ok (serve hf sg db rs)"
  by (induction rs arbitrary: db) (simp_all add: user_app_ids_ok)

lemma fresh_object_id:
  "ids_ok db \<Longrightarrow> id_seed db < 16 ^ 24 \<Longrightarrow> u \<in> set (users db) \<Longrightarrow> uid u \<noteq> object_id (id_seed db)"
  unfolding ids_ok_def object_id_def using hex_of_inj [of 24] by fastforce

text \<open>
  C27: a user created by \<open>POST /\<close> is found by \<open>GET /\<close> followed by the id it was
  given: the answer is 200 with that user (while fewer than \<open>16^24\<close> ids have been
  minted, so that the 24-digit ids do not repeat).
\<close>

theorem register_then_get:
  assumes "db = serve hf sg empty_db rs" "id_seed db < 16 ^ 24"
    and "register hf sg (reg_body n p) db = (Response 201 x, db1)"
  shows "\<exists>h. hf p = Some h \<and>
           user_app hf sg (get_req (''/'' @ object_id (id_seed db))) db1 =
             (Response 200 (JObj [(''result'', user_json \<lparr>uid = object_id (id_seed db), uname = n, upass = h\<rparr>)]), db1)"
proof -
  obtain h where up: "db_up db" and hp: "hf p = Some h"
    and db1: "db1 = db\<lparr>users := users db @ [\<lparr>uid = object_id (id_seed db), uname = n, upass = h\<rparr>],
                       id_seed := Suc (id_seed db)\<rparr>"
    using register_created [OF assms(3)] by auto
  have ok: "ids_ok db"
    using assms(1) serve_ids_ok [of empty_db] by (simp add: ids_ok_def empty_db_def)
  have "find_by_id (users db1) (object_id (id_seed db)) = Some \<lparr>uid = object_id (id_seed db), uname = n, upass = h\<rparr>"
    using db1 fresh_object_id [OF ok assms(2)] by (auto simp: find_by_id_def find_None_iff find_append_None)
  moreover have "CHR ''/'' \<notin> set (object_id (id_seed db))"
  proof
    assume "CHR ''/'' \<in> set (object_id (id_seed db))"
    then have "CHR ''/'' \<in> set ''0123456789abcdef''"
      using is_object_id_object_id [of "id_seed db"] unfolding is_object_id_def by blast
    then show False by simp
  qed
  ultimately show ?thesis
    using up hp db1 cast_object_id_object_id object_id_nonempty
    by (simp add: user_app_def get_req_def get_user_def)
qed

lemma reg_lookup_new:
  "db_up db \<Longrightarrow> find_by_name (users db) n = None \<Longrightarrow> reg_lookup (reg_body n p) db = Inr (n, p)"
  by (simp add: reg_lookup_def)

lemma reg_create_ok:
  "hf p = Some h \<Longrightarrow> db_up db \<Longrightarrow> reg_create hf sg n p db =
     (Response 201 (JObj [(''result'', JObj [(''user'', user_json \<lparr>uid = object_id (id_seed db), uname = n, upass = h\<rparr>),
                                             (''access_token'', JStr (sg (object_id (id_seed db))))])]),
      db\<lparr>users := users db @ [\<lparr>uid = object_id (id_seed db), uname = n, upass = h\<rparr>], id_seed := Suc (id_seed db)\<rparr>)"
  by (simp add: reg_create_def Let_def)

text \<open>
  C9: registration is check-then-act across two awaits: two \<open>POST /\<close> requests for
  the same new username whose \<open>findOne\<close> calls both run before either
  \<open>create\<close> are both answered 201, and the collection then holds two users with that
  username.
\<close>

theorem concurrent_register_duplicates:
  assumes "db_up db" "find_by_name (users db) n = None" "hf p = Some h" "hf p' = Some h'"
  shows "\<exists>db' x x'. (reg_step hf sg)\<^sup>*\<^sup>* (db, [RLookup (reg_body n p), RLookup (reg_body n p')], [])
                                        (db', [], [Response 201 x, Response 201 x'])
                   \<and> length (filter (\<lambda>u. uname u = n) (users db')) = 2"
proof -
  let ?u1 = "\<lparr>uid = object_id (id_seed db), uname = n, upass = h\<rparr>"
  let ?db1 = "db\<lparr>users := users db @ [?u1], id_seed := Suc (id_seed db)\<rparr>"
  let ?u2 = "\<lparr>uid = object_id (id_seed ?db1), uname = n, upass = h'\<rparr>"
  let ?db2 = "?db1\<lparr>users := users ?db1 @ [?u2], id_seed := Suc (id_seed ?db1)\<rparr>"
  have "reg_step hf sg (db, [RLookup (reg_body n p), RLookup (reg_body n p')], [])
          (db, [RLookup (reg_body n p), RLookup (reg_body n p')][0 := RCreate n p], [])"
    by (rule reg_step.lookup_pass [where b = "reg_body n p"]) (simp_all add: reg_lookup_new assms(1,2))
  then have s1: "reg_step hf sg (db, [RLookup (reg_body n p), RLookup (reg_body n p')], [])
                   (db, [RCreate n p, RLookup (reg_body n p')], [])" by simp
  have "reg_step hf sg (db, [RCreate n p, RLookup (reg_body n p')], [])
          (db, [RCreate n p, RLookup (reg_body n p')][1 := RCreate n p'], [])"
    by (rule reg_step.lookup_pass [where b = "reg_body n p'"]) (simp_all add: reg_lookup_new assms(1,2))
  then have s2: "reg_step hf sg (db, [RCreate n p, RLookup (reg_body n p')], [])
                   (db, [RCreate n p, RCreate n p'], [])" by simp
  obtain x where c1: "reg_create hf sg n p db = (Response 201 x, ?db1)"
    using reg_create_ok [where hf = hf and sg = sg and n = n, OF assms(3,1)] by blast
  have "reg_step hf sg (db, [RCreate n p, RCreate n p'], []) (?db1, drop_nth 0 [RCreate n p, RCreate n p'], [Response 201 x])"
    using reg_step.create [OF _ _ c1, of 0 "[RCreate n p, RCreate n p']" "[]"] by simp
  then have s3: "reg_step hf sg (db, [RCreate n p, RCreate n p'], []) (?db1, [RCreate n p'], [Response 201 x])"
    by (simp add: drop_nth_def)
  have up1: "db_up ?db1" using assms(1) by simp
  obtain x' where c2: "reg_create hf sg n p' ?db1 = (Response 201 x', ?db2)"
    using reg_create_ok [where hf = hf and sg = sg and n = n, OF assms(4) up1] by blast
  have "reg_step hf sg (?db1, [RCreate n p'], [Response 201 x]) (?db2, drop_nth 0 [RCreate n p'], [Response 201 x] @ [Response 201 x'])"
    using reg_step.create [OF _ _ c2, of 0 "[RCreate n p']" "[Response 201 x]"] by simp
  then have s4: "reg_step hf sg (?db1, [RCreate n p'], [Response 201 x]) (?db2, [], [Response 201 x, Response 201 x'])"
    by (simp add: drop_nth_def)
  have run: "(reg_step hf sg)\<^sup>*\<^sup>* (db, [RLookup (reg_body n p), RLookup (reg_body n p')], [])
               (?db2, [], [Response 201 x, Response 201 x'])"
    using s1 s2 s3 s4 by (meson converse_rtranclp_into_rtranclp rtranclp.rtrancl_refl)
  have "filter (\<lambda>u. uname u = n) (users db) = []"
    using assms(2) by (auto simp: find_by_name_def find_None_iff filter_empty_conv)
  then have "length (filter (\<lambda>u. uname u = n) (users ?db2)) = 2" by simp
  with run show ?thesis by blast
qed

theorem concurrent_register_duplicates_witness:
  "\<exists>db' x x'. (reg_step demo_hasher demo_signer)\<^sup>*\<^sup>*
        (empty_db, [RLookup (reg_body ''ann'' ''pw''), RLookup (reg_body ''ann'' ''pw2'')], [])
        (db', [], [Response 201 x, Response 201 x'])
      \<and> length (filter (\<lambda>u. uname u = ''ann'') (users db')) = 2"
  by (rule concurrent_register_duplicates) (simp_all add: empty_db_def find_by_name_def demo_hasher_def)

lemma demo_register_created:
  "\<exists>x. fst (register demo_hasher demo_signer (reg_body ''ann'' ''pw'') empty_db) = Response 201 x"
  by (simp add: register_def reg_lookup_def reg_create_def empty_db_def find_by_name_def demo_hasher_def Let_def)

theorem register_twice_witness:
  "register demo_hasher demo_signer (reg_body ''ann'' ''other'')
      (snd (register demo_hasher demo_signer (reg_body ''ann'' ''pw'') empty_db))
   = (Response 400 (err_json ''Username already exists''),
      snd (register demo_hasher demo_signer (reg_body ''ann'' ''pw'') empty_db))"
proof -
  obtain x where "fst (register demo_hasher demo_signer (reg_body ''ann'' ''pw'') empty_db) = Response 201 x"
    using demo_register_created by blast
  then have "register demo_hasher demo_signer (reg_body ''ann'' ''pw'') empty_db =
      (Response 201 x, snd (register demo_hasher demo_signer (reg_body ''ann'' ''pw'') empty_db))"
    by (metis prod.collapse)
  then show ?thesis by (rule register_twice)
qed

theorem register_then_get_witness:
  "user_app demo_hasher demo_signer (get_req (''/'' @ object_id 0))
      (snd (register demo_hasher demo_signer (reg_body ''ann'' ''pw'') empty_db))
   = (Response 200 (JObj [(''result'', user_json \<lparr>uid = object_id 0, uname = ''ann'', upass = ''$2a$10$pw''\<rparr>)]),
      snd (register demo_hasher demo_signer (reg_body ''ann'' ''pw'') empty_db))"
proof -
  obtain x where "fst (register demo_hasher demo_signer (reg_body ''ann'' ''pw'') empty_db) = Response 201 x"
    using demo_register_created by blast
  then have reg: "register demo_hasher demo_signer (reg_body ''ann'' ''pw'') empty_db =
      (Response 201 x, snd (register demo_hasher demo_signer (reg_body ''ann'' ''pw'') empty_db))"
    by (metis prod.collapse)
  have "empty_db = serve demo_hasher demo_signer empty_db []" by simp
  moreover have "id_seed empty_db < 16 ^ 24" by (simp add: empty_db_def)
  ultimately show ?thesis
    using register_then_get [OF _ _ reg, of "[]"] by (simp add: empty_db_def demo_hasher_def)
qed

end
