(* ===== verification/Relay.thy ===== *)
theory Relay
  imports Prelude "HOL-Library.Sublist"
begin

text \<open>
  The WebSocket relay of \<open>src/WebSockets/server/src/index.ts\<close>. The \<open>ws\<close> server keeps
  its open sockets in \<open>wss.clients\<close>, a set in insertion order. On \<open>connection\<close> the
  new socket joins the set and is sent \<open>"Hello from server"\<close>; on \<open>message\<close> from a
  socket, the handler sends the data, with its binary flag, to every other socket of the
  set whose \<open>readyState\<close> is \<open>OPEN\<close>. A closing socket stays in the set, in state
  \<open>CLOSING\<close>, until its \<open>close\<close> event removes it.
  \<^item> \<open>relay\<close>: the set \<open>wss.clients\<close>, each socket with its identity (\<open>cid\<close>), its
    ready state and the frames the server has sent to it (\<open>inbox\<close>); \<open>next_cid\<close>
    gives every new connection an identity no socket had before, as a new object does.
  \<^item> \<open>relay_step\<close> handles one event, \<open>relay_run\<close> a sequence of them.
  The HTTP handler answering \<open>"Hello World"\<close> and the \<open>error\<close> handler
  (\<open>console.error\<close>) are I/O and not modelled.
\<close>

datatype ready_state = Connecting | Open | Closing | Closed

record ws_client =
  cid :: nat
  ready :: ready_state
  inbox :: "(string \<times> bool) list"

record relay =
  clients :: "ws_client list"
  next_cid :: nat

datatype ws_event =
    Connect
  | Message nat string bool    \<comment> \<open>socket, data, \<open>isBinary\<close>\<close>
  | CloseStart nat             \<comment> \<open>the closing handshake begins: \<open>readyState\<close> becomes \<open>CLOSING\<close>\<close>
  | CloseDone nat              \<comment> \<open>the \<open>close\<close> event: the socket leaves \<open>wss.clients\<close>\<close>

definition hello :: "string \<times> bool" where
  "hello = (''Hello from server'', False)"

definition relay0 :: relay where
  "relay0 = \<lparr>clients = [], next_cid = 0\<rparr>"

text \<open>\<open>wss.on('connection', ...)\<close>: the socket joins the set, then \<open>ws.send('Hello from server')\<close>.\<close>

definition on_connection :: "relay \<Rightarrow> relay" where
  "on_connection r =
     \<lparr>clients = clients r @ [\<lparr>cid = next_cid r, ready = Open, inbox = [hello]\<rparr>],
      next_cid = Suc (next_cid r)\<rparr>"

text \<open>The body of \<open>wss.clients.forEach\<close> for one client.\<close>

definition forward :: "nat \<Rightarrow> string \<times> bool \<Rightarrow> ws_client \<Rightarrow> ws_client" where
  "forward ws m cl = (if cid cl \<noteq> ws \<and> ready cl = Open then cl\<lparr>inbox := inbox cl @ [m]\<rparr> else cl)"

definition on_message :: "nat \<Rightarrow> string \<Rightarrow> bool \<Rightarrow> relay \<Rightarrow> relay" where
  "on_message ws d b r = r\<lparr>clients := map (forward ws (d, b)) (clients r)\<rparr>"

definition is_client :: "nat \<Rightarrow> relay \<Rightarrow> bool" where
  "is_client c r \<longleftrightarrow> c \<in> cid ` set (clients r)"

fun relay_step :: "relay \<Rightarrow> ws_event \<Rightarrow> relay" where
  "relay_step r Connect = on_connection r"
| "relay_step r (Message c d b) = (if is_client c r then on_message c d b r else r)"
| "relay_step r (CloseStart c) =
     r\<lparr>clients := map (\<lambda>cl. if cid cl = c \<and> ready cl = Open then cl\<lparr>ready := Closing\<rparr> else cl) (clients r)\<rparr>"
| "relay_step r (CloseDone c) = r\<lparr>clients := filter (\<lambda>cl. cid cl \<noteq> c) (clients r)\<rparr>"

definition relay_run :: "relay \<Rightarrow> ws_event list \<Rightarrow> relay" where
  "relay_run r evs = foldl relay_step r evs"

definition inbox_of :: "nat \<Rightarrow> relay \<Rightarrow> (string \<times> bool) list option" where
  "inbox_of c r = map_option inbox (find (\<lambda>cl. cid cl = c) (clients r))"

definition ready_of :: "nat \<Rightarrow> relay \<Rightarrow> ready_state option" where
  "ready_of c r = map_option ready (find (\<lambda>cl. cid cl = c) (clients r))"

text \<open>
  Well-formedness of the set: identities are distinct and below \<open>next_cid\<close>, and every
  socket was greeted first.
\<close>

definition relay_wf :: "relay \<Rightarrow> bool" where
  "relay_wf r \<longleftrightarrow> distinct (map cid (clients r))
     \<and> (\<forall>cl \<in> set (clients r). cid cl < next_cid r \<and> hd (inbox cl) = hello \<and> inbox cl \<noteq> [])"

definition sender :: "ws_event \<Rightarrow> nat option" where
  "sender e = (case e of Message c d b \<Rightarrow> Some c | _ \<Rightarrow> None)"

definition payload_of :: "ws_event \<Rightarrow> string \<times> bool" where
  "payload_of e = (case e of Message c d b \<Rightarrow> (d, b) | _ \<Rightarrow> ([], False))"

text \<open>The frames of a run that socket \<open>k\<close> may be sent: those other sockets sent, in order.\<close>

definition others_messages :: "nat \<Rightarrow> ws_event list \<Rightarrow> (string \<times> bool) list" where
  "others_messages k evs = map payload_of (filter (\<lambda>e. sender e \<noteq> None \<and> sender e \<noteq> Some k) evs)"

definition demo_relay :: relay where
  "demo_relay = relay_run relay0 [Connect, Connect, Connect]"

lemma find_map_same:
  "(\<And>x. P (f x) = P x) \<Longrightarrow> find P (map f xs) = map_option f (find P xs)"
  by (induction xs) auto

lemma find_cid_filter:
  "find (\<lambda>cl. cid cl = k) (filter (\<lambda>cl. cid cl \<noteq> c) xs) = (if k = c then None else find (\<lambda>cl. cid cl = k) xs)"
  by (induction xs) auto

lemma find_cid_fresh:
  "\<forall>cl \<in> set xs. cid cl < n \<Longrightarrow> find (\<lambda>cl. cid cl = n) xs = None"
  by (induction xs) auto

lemma find_cid_snoc_fresh:
  "\<forall>cl \<in> set xs. cid cl < cid y \<Longrightarrow>
     find (\<lambda>cl. cid cl = k) (xs @ [y]) = (if k = cid y then Some y else find (\<lambda>cl. cid cl = k) xs)"
  by (induction xs) auto

lemma relay_wf_below: "relay_wf r \<Longrightarrow> \<forall>cl \<in> set (clients r). cid cl < next_cid r"
  by (simp add: relay_wf_def)

lemma inbox_of_connect:
  "relay_wf r \<Longrightarrow> inbox_of k (on_connection r) = (if k = next_cid r then Some [hello] else inbox_of k r)"
  unfolding inbox_of_def on_connection_def
  by (drule relay_wf_below) (simp add: find_cid_snoc_fresh)

lemma ready_of_connect:
  "relay_wf r \<Longrightarrow> ready_of k (on_connection r) = (if k = next_cid r then Some Open else ready_of k r)"
  unfolding ready_of_def on_connection_def
  by (drule relay_wf_below) (simp add: find_cid_snoc_fresh)

lemma find_cid_Some: "find (\<lambda>cl. cid cl = k) xs = Some cl \<Longrightarrow> cid cl = k"
  by (metis (mono_tags, lifting) find_Some_iff)

lemma find_cid_forward:
  "find (\<lambda>cl. cid cl = k) (map (forward c m) xs) = map_option (forward c m) (find (\<lambda>cl. cid cl = k) xs)"
  by (rule find_map_same) (simp add: forward_def)

lemma inbox_of_message:
  "inbox_of k (on_message c d b r) =
     (if k \<noteq> c \<and> ready_of k r = Some Open then map_option (\<lambda>ib. ib @ [(d, b)]) (inbox_of k r) else inbox_of k r)"
proof (cases "find (\<lambda>cl. cid cl = k) (clients r)")
  case None
  then show ?thesis by (simp add: inbox_of_def ready_of_def on_message_def find_cid_forward)
next
  case (Some cl)
  then have "cid cl = k" by (rule find_cid_Some)
  with Some show ?thesis by (simp add: inbox_of_def ready_of_def on_message_def find_cid_forward forward_def)
qed

lemma ready_of_message: "ready_of k (on_message c d b r) = ready_of k r"
  by (cases "find (\<lambda>cl. cid cl = k) (clients r)")
     (simp_all add: ready_of_def on_message_def find_cid_forward forward_def)

lemma cid_forward [simp]: "cid (forward c m cl) = cid cl"
  by (simp add: forward_def)

lemma map_cid_forward [simp]: "map cid (map (forward c m) xs) = map cid xs"
  by (induction xs) simp_all

lemma is_client_message: "is_client k (on_message c d b r) = is_client k r"
  by (simp add: is_client_def on_message_def image_image)

lemma close_start_find:
  "find (\<lambda>cl. cid cl = k) (clients (relay_step r (CloseStart c))) =
     map_option (\<lambda>cl. if cid cl = c \<and> ready cl = Open then cl\<lparr>ready := Closing\<rparr> else cl)
       (find (\<lambda>cl. cid cl = k) (clients r))"
  by (simp add: find_map_same)

lemma inbox_of_close_start: "inbox_of k (relay_step r (CloseStart c)) = inbox_of k r"
  by (cases "find (\<lambda>cl. cid cl = k) (clients r)") (simp_all add: inbox_of_def close_start_find del: relay_step.simps)

lemma ready_of_close_start:
  "ready_of k (relay_step r (CloseStart c)) =
     map_option (\<lambda>st. if k = c \<and> st = Open then Closing else st) (ready_of k r)"
proof (cases "find (\<lambda>cl. cid cl = k) (clients r)")
  case None
  then show ?thesis by (simp add: ready_of_def close_start_find del: relay_step.simps)
next
  case (Some cl)
  then have "cid cl = k" by (rule find_cid_Some)
  with Some show ?thesis by (simp add: ready_of_def close_start_find del: relay_step.simps)
qed

lemma inbox_of_close_done: "inbox_of k (relay_step r (CloseDone c)) = (if k = c then None else inbox_of k r)"
  by (simp add: inbox_of_def find_cid_filter)

lemma ready_of_close_done: "ready_of k (relay_step r (CloseDone c)) = (if k = c then None else ready_of k r)"
  by (simp add: ready_of_def find_cid_filter)

lemma inbox_of_None_iff: "inbox_of k r = None \<longleftrightarrow> ready_of k r = None"
  by (simp add: inbox_of_def ready_of_def)

lemma relay_run_snoc [simp]: "relay_run r (evs @ [e]) = relay_step (relay_run r evs) e"
  by (simp add: relay_run_def)

lemma relay_run_Cons [simp]: "relay_run r (e # evs) = relay_run (relay_step r e) evs"
  by (simp add: relay_run_def)

lemma relay_run_Nil [simp]: "relay_run r [] = r"
  by (simp add: relay_run_def)

lemma relay_step_wf: "relay_wf r \<Longrightarrow> relay_wf (relay_step r e)"
proof (cases e)
  case Connect
  assume wf: "relay_wf r"
  then have "next_cid r \<notin> set (map cid (clients r))" by (auto simp: relay_wf_def)
  with wf Connect show ?thesis by (auto simp: relay_wf_def on_connection_def hello_def)
next
  case (Message c d b)
  have "inbox cl \<noteq> [] \<Longrightarrow> hd (inbox (forward c (d, b) cl)) = hd (inbox cl)
          \<and> inbox (forward c (d, b) cl) \<noteq> []" for cl
    by (simp add: forward_def)
  then show "relay_wf r \<Longrightarrow> ?thesis" using Message
    by (auto simp: relay_wf_def on_message_def simp del: map_map)
next
  case (CloseStart c)
  have cc: "cid \<circ> (\<lambda>cl. if cid cl = c \<and> ready cl = Open then cl\<lparr>ready := Closing\<rparr> else cl) = cid"
    by (simp add: fun_eq_iff)
  show "relay_wf r \<Longrightarrow> ?thesis" using CloseStart by (auto simp: relay_wf_def cc)
next
  case (CloseDone c)
  then show "relay_wf r \<Longrightarrow> ?thesis" by (auto simp: relay_wf_def distinct_map_filter)
qed

lemma relay_run_wf_from: "relay_wf r \<Longrightarrow> relay_wf (relay_run r evs)"
  by (induction evs arbitrary: r) (simp_all add: relay_step_wf)

text \<open>
  C34: whatever connections, messages and closes the server handles, starting with no
  sockets, the socket set stays well formed: socket identities are distinct and were all
  issued by the server, and every socket was first sent the greeting.
\<close>

theorem relay_run_wf: "relay_wf (relay_run relay0 evs)"
  by (rule relay_run_wf_from) (simp add: relay_wf_def relay0_def)

lemma subseq_append_right: "subseq xs (h # ys) \<Longrightarrow> subseq xs (h # ys @ zs)"
  using list_emb_append_mono [of "(=)" xs "h # ys" "[]" zs] by simp

lemma subseq_snoc: "subseq xs (h # ys) \<Longrightarrow> subseq (xs @ [m]) (h # ys @ [m])"
  using list_emb_append_mono [of "(=)" xs "h # ys" "[m]" "[m]"] by simp

lemma others_messages_snoc:
  "others_messages k (evs @ [e]) =
     others_messages k evs @ (if sender e \<noteq> None \<and> sender e \<noteq> Some k then [payload_of e] else [])"
  by (simp add: others_messages_def)

lemma others_messages_Message [simp]:
  "sender (Message c d b) = Some c" "payload_of (Message c d b) = (d, b)"
  "sender Connect = None" "sender (CloseStart c) = None" "sender (CloseDone c) = None"
  by (simp_all add: sender_def payload_of_def)

lemma relay_inbox_subseq_all:
  "\<forall>cl \<in> set (clients (relay_run relay0 evs)). subseq (inbox cl) (hello # others_messages (cid cl) evs)"
proof (induction evs rule: rev_induct)
  case Nil
  then show ?case by (simp add: relay0_def)
next
  case (snoc e evs)
  let ?r = "relay_run relay0 evs"
  show ?case
  proof (cases e)
    case Connect
    then show ?thesis using snoc.IH
      by (auto simp: on_connection_def others_messages_snoc)
  next
    case (Message c d b)
    show ?thesis
    proof (cases "is_client c ?r")
      case True
      have "subseq (inbox (forward c (d, b) cl)) (hello # others_messages (cid cl) (evs @ [e]))"
        if "cl \<in> set (clients ?r)" for cl
        using snoc.IH that Message
        by (auto simp: forward_def others_messages_snoc subseq_snoc subseq_append_right)
      then show ?thesis using True Message by (auto simp: on_message_def)
    next
      case False
      then show ?thesis using snoc.IH Message
        by (auto simp: others_messages_snoc subseq_append_right)
    qed
  next
    case (CloseStart c)
    then show ?thesis using snoc.IH by (auto simp: others_messages_snoc)
  next
    case (CloseDone c)
    then show ?thesis using snoc.IH by (auto simp: others_messages_snoc)
  qed
qed

text \<open>
  C16: the relay neither echoes nor invents nor reorders: the frames any socket has been
  sent are the greeting followed by a subsequence, in order, of the messages the other
  sockets sent; a socket's own messages never come back to it.
\<close>

theorem relay_inbox_subseq:
  assumes "cl \<in> set (clients (relay_run relay0 evs))"
  shows "subseq (inbox cl) (hello # others_messages (cid cl) evs)"
  using relay_inbox_subseq_all assms by blast

text \<open>
  C31: every message reaches every other open socket exactly once and in order: while a
  socket is \<open>OPEN\<close>, a sequence of messages from other connected sockets is appended
  to what it was sent, one frame per message, with its binary flag.
\<close>

theorem relay_delivers:
  assumes "ready_of k r = Some Open"
    and "\<forall>e \<in> set evs. \<exists>c d b. e = Message c d b \<and> c \<noteq> k \<and> is_client c r"
  shows "inbox_of k (relay_run r evs) = map_option (\<lambda>ib. ib @ map payload_of evs) (inbox_of k r)"
  using assms
proof (induction evs arbitrary: r)
  case Nil
  then show ?case by (cases "inbox_of k r") simp_all
next
  case (Cons e evs)
  then obtain c d b where e: "e = Message c d b" "c \<noteq> k" "is_client c r" by auto
  let ?r = "on_message c d b r"
  have "inbox_of k (relay_run ?r evs) = map_option (\<lambda>ib. ib @ map payload_of evs) (inbox_of k ?r)"
    using Cons.prems by (intro Cons.IH) (auto simp: ready_of_message is_client_message)
  then show ?case using e Cons.prems
    by (simp add: inbox_of_message option.map_comp comp_def)
qed

lemma ready_of_Some_below: "relay_wf r \<Longrightarrow> ready_of k r = Some st \<Longrightarrow> k < next_cid r"
  by (auto simp: relay_wf_def ready_of_def find_Some_iff)

lemma next_cid_step: "next_cid r \<le> next_cid (relay_step r e)"
  by (cases e) (simp_all add: on_connection_def on_message_def)

lemma closing_step:
  assumes wf: "relay_wf r" and k: "k < next_cid r" and st: "ready_of k r \<noteq> Some Open"
  shows "ready_of k (relay_step r e) \<noteq> Some Open
         \<and> inbox_of k (relay_step r e) \<in> {inbox_of k r, None}
         \<and> (inbox_of k r = None \<longrightarrow> inbox_of k (relay_step r e) = None)"
proof (cases e)
  case Connect
  with wf k st show ?thesis by (simp add: inbox_of_connect ready_of_connect)
next
  case (Message c d b)
  with st show ?thesis by (simp add: inbox_of_message ready_of_message)
next
  case (CloseStart c)
  with st show ?thesis
    by (cases "ready_of k r") (auto simp: inbox_of_close_start ready_of_close_start simp del: relay_step.simps)
next
  case (CloseDone c)
  with st show ?thesis by (simp add: inbox_of_close_done ready_of_close_done del: relay_step.simps)
qed

lemma closing_run:
  "relay_wf r \<Longrightarrow> k < next_cid r \<Longrightarrow> ready_of k r \<noteq> Some Open \<Longrightarrow>
     inbox_of k (relay_run r evs) \<in> {inbox_of k r, None}"
proof (induction evs arbitrary: r)
  case Nil
  then show ?case by simp
next
  case (Cons e evs)
  let ?r = "relay_step r e"
  have step: "ready_of k ?r \<noteq> Some Open" "inbox_of k ?r \<in> {inbox_of k r, None}"
    "inbox_of k r = None \<longrightarrow> inbox_of k ?r = None"
    using closing_step [OF Cons.prems] by auto
  have "inbox_of k (relay_run ?r evs) \<in> {inbox_of k ?r, None}"
    using Cons.prems step(1) relay_step_wf next_cid_step [of r e] by (intro Cons.IH) auto
  with step show ?case by auto
qed

text \<open>
  C32: the \<open>readyState\<close> check: once a socket is \<open>CLOSING\<close> it is sent nothing more,
  whatever the other sockets do, until its \<open>close\<close> event removes it from the set.
\<close>

theorem relay_closing_silent:
  assumes "relay_wf r" "ready_of k r = Some Closing"
  shows "inbox_of k (relay_run r evs) \<in> {inbox_of k r, None}"
  using assms by (intro closing_run) (simp_all add: ready_of_Some_below)

lemmas relay_eval = relay0_def on_connection_def on_message_def is_client_def forward_def hello_def

theorem relay_inbox_subseq_witness:
  "subseq (inbox (hd (clients (relay_run demo_relay [Message 1 ''hi'' False, Message 0 ''yo'' True]))))
          (hello # others_messages 0 ([Connect, Connect, Connect] @ [Message 1 ''hi'' False, Message 0 ''yo'' True]))"
proof -
  have c: "hd (clients (relay_run relay0 ([Connect, Connect, Connect] @ [Message 1 ''hi'' False, Message 0 ''yo'' True])))
           \<in> set (clients (relay_run relay0 ([Connect, Connect, Connect] @ [Message 1 ''hi'' False, Message 0 ''yo'' True])))"
    by (simp add: relay_eval)
  have "cid (hd (clients (relay_run relay0 ([Connect, Connect, Connect] @ [Message 1 ''hi'' False, Message 0 ''yo'' True])))) = 0"
    by (simp add: relay_eval)
  with relay_inbox_subseq [OF c] show ?thesis
    by (simp only: demo_relay_def relay_run_def foldl_append)
qed

theorem relay_delivers_witness:
  "inbox_of 0 (relay_run demo_relay [Message 1 ''hi'' False, Message 2 ''yo'' True])
     = Some [hello, (''hi'', False), (''yo'', True)]"
proof -
  have op: "ready_of 0 demo_relay = Some Open" and ib: "inbox_of 0 demo_relay = Some [hello]"
    and "is_client 1 demo_relay" "is_client 2 demo_relay"
    by (simp_all add: demo_relay_def ready_of_def inbox_of_def relay_eval)
  then have "\<forall>e \<in> set [Message 1 ''hi'' False, Message 2 ''yo'' True].
               \<exists>c d b. e = Message c d b \<and> c \<noteq> 0 \<and> is_client c demo_relay"
    by auto
  with relay_delivers [OF op] ib show ?thesis by (simp del: relay_run_Cons)
qed

theorem relay_closing_silent_witness:
  "inbox_of 0 (relay_run (relay_step demo_relay (CloseStart 0)) [Message 1 ''late'' False, Connect])
     \<in> {Some [hello], None}"
proof -
  have wf: "relay_wf (relay_step demo_relay (CloseStart 0))"
    by (simp add: demo_relay_def relay_wf_def relay_eval)
  have "ready_of 0 (relay_step demo_relay (CloseStart 0)) = Some Closing"
       "inbox_of 0 (relay_step demo_relay (CloseStart 0)) = Some [hello]"
    by (simp_all add: demo_relay_def ready_of_def inbox_of_def relay_eval)
  with relay_closing_silent [OF wf, of 0 "[Message 1 ''late'' False, Connect]"]
  show ?thesis by (simp del: relay_run_Cons relay_step.simps)
qed

end
