(* ===== verification/WsClient.thy ===== *)
theory WsClient
  imports Relay
begin

text \<open>
  The React client of \<open>src/WebSockets/client/src/App.jsx\<close>, run against the relay of
  theory \<open>Relay\<close>. The mount effect opens a \<open>WebSocket\<close> to the server; \<open>onopen\<close>
  stores it in the \<open>socket\<close> state, \<open>onmessage\<close> replaces the \<open>message\<close> state by
  the frame's data; until the socket is stored the component renders \<open>Loading...\<close>,
  afterwards a button whose \<open>onClick\<close> sends \<open>'Hello from client'\<close>, and the current
  message. The effect's cleanup closes the socket.
  \<^item> \<open>app\<close> is the component's state: the identity of its socket in the server's set,
    whether \<open>socket\<close> is set, the \<open>message\<close> state, and how many frames of the
    socket's stream it has received (frames arrive in order, after \<open>onopen\<close>).
  \<^item> \<open>app_mount\<close>, \<open>app_open\<close>, \<open>app_deliver\<close>, \<open>app_click\<close> and
    \<open>app_unmount\<close> are the effect, the two socket handlers, the click handler and the
    cleanup; \<open>app_view\<close> is what \<open>App\<close> renders.
\<close>

record app =
  ws_id :: nat
  opened :: bool
  shown :: string
  seen_n :: nat

datatype view = Loading | Page string

definition app_mount :: "relay \<Rightarrow> relay \<times> app" where
  "app_mount r = (on_connection r, \<lparr>ws_id = next_cid r, opened = False, shown = [], seen_n = 0\<rparr>)"

definition app_open :: "app \<Rightarrow> app" where
  "app_open a = a\<lparr>opened := True\<rparr>"

text \<open>\<open>onmessage\<close> for the next frame the server sent to this socket, if there is one.\<close>

definition app_deliver :: "relay \<Rightarrow> app \<Rightarrow> app option" where
  "app_deliver r a =
     (if \<not> opened a then None
      else case inbox_of (ws_id a) r of
             None \<Rightarrow> None
           | Some ib \<Rightarrow> if seen_n a < length ib
                        then Some (a\<lparr>shown := fst (ib ! seen_n a), seen_n := Suc (seen_n a)\<rparr>) else None)"

definition click_text :: string where
  "click_text = ''Hello from client''"

text \<open>The button exists only once \<open>socket\<close> is set; its handler sends a text frame.\<close>

definition app_click :: "app \<Rightarrow> relay \<Rightarrow> relay" where
  "app_click a r = (if opened a then relay_step r (Message (ws_id a) click_text False) else r)"

definition app_unmount :: "app \<Rightarrow> relay \<Rightarrow> relay" where
  "app_unmount a r = relay_step r (CloseStart (ws_id a))"

definition app_view :: "app \<Rightarrow> view" where
  "app_view a = (if opened a then Page (shown a) else Loading)"

definition two_apps :: "relay \<times> app \<times> app" where
  "two_apps = (let (r1, a) = app_mount relay0; (r2, b) = app_mount r1 in (r2, app_open a, app_open b))"

lemma app_click_sends:
  "opened a \<Longrightarrow> is_client (ws_id a) r \<Longrightarrow> app_click a r = on_message (ws_id a) click_text False r"
  by (simp add: app_click_def)

lemma app_deliver_next:
  "opened b \<Longrightarrow> inbox_of (ws_id b) r = Some (ib @ [m]) \<Longrightarrow> seen_n b = length ib \<Longrightarrow>
     app_deliver r b = Some (b\<lparr>shown := fst m, seen_n := Suc (length ib)\<rparr>)"
  by (simp add: app_deliver_def)

lemma app_mount_greeting:
  assumes "relay_wf r" "app_mount r = (r', a)"
  shows "app_deliver r' (app_open a) = Some ((app_open a)\<lparr>shown := ''Hello from server'', seen_n := 1\<rparr>)"
proof -
  have "inbox_of (ws_id (app_open a)) r' = Some [hello]" "seen_n (app_open a) = 0" "opened (app_open a)"
    using assms by (auto simp: app_mount_def app_open_def inbox_of_connect)
  then show ?thesis by (simp add: app_deliver_def hello_def)
qed

text \<open>
  C15: the demo works end to end between two browsers: once both components have their
  socket and the receiving one has shown every frame it was sent, a click on the other's
  button makes the relay forward \<open>'Hello from client'\<close> to it, its next
  \<open>onmessage\<close> shows exactly that text, and the clicking component is sent nothing.
\<close>

theorem click_reaches_others:
  assumes "opened a" "opened b" "ws_id a \<noteq> ws_id b" "is_client (ws_id a) r"
    and "ready_of (ws_id b) r = Some Open" "inbox_of (ws_id b) r = Some ib" "seen_n b = length ib"
  shows "app_deliver (app_click a r) b = Some (b\<lparr>shown := click_text, seen_n := Suc (length ib)\<rparr>)
         \<and> inbox_of (ws_id a) (app_click a r) = inbox_of (ws_id a) r"
proof -
  have send: "app_click a r = on_message (ws_id a) click_text False r"
    using assms(1,4) by (rule app_click_sends)
  have "inbox_of (ws_id b) (app_click a r) = Some (ib @ [(click_text, False)])"
    using assms(3,5,6) by (simp add: send inbox_of_message)
  then have "app_deliver (app_click a r) b = Some (b\<lparr>shown := click_text, seen_n := Suc (length ib)\<rparr>)"
    using assms(2,7) by (simp add: app_deliver_next)
  moreover have "inbox_of (ws_id a) (app_click a r) = inbox_of (ws_id a) r"
    by (simp add: send inbox_of_message)
  ultimately show ?thesis by simp
qed

theorem click_reaches_others_witness:
  "app_deliver (app_click (fst (snd two_apps)) (fst two_apps))
       (the (app_deliver (fst two_apps) (snd (snd two_apps))))
     = Some ((snd (snd two_apps))\<lparr>shown := click_text, seen_n := 2\<rparr>)
   \<and> app_view (snd (snd two_apps)\<lparr>shown := click_text, seen_n := 2\<rparr>) = Page ''Hello from client''
   \<and> inbox_of 0 (app_click (fst (snd two_apps)) (fst two_apps)) = Some [hello]"
proof -
  let ?r = "fst two_apps" let ?a = "fst (snd two_apps)" let ?b = "snd (snd two_apps)"
  let ?b1 = "the (app_deliver ?r ?b)"
  have facts: "opened ?a" "opened ?b1" "ws_id ?a \<noteq> ws_id ?b1" "is_client (ws_id ?a) ?r"
    "ready_of (ws_id ?b1) ?r = Some Open" "inbox_of (ws_id ?b1) ?r = Some [hello]" "seen_n ?b1 = length [hello]"
    "ws_id ?a = 0" "inbox_of 0 ?r = Some [hello]"
    by (simp_all add: two_apps_def app_mount_def app_open_def app_deliver_def relay0_def on_connection_def
                      is_client_def ready_of_def inbox_of_def)
  have "?b1 = ?b\<lparr>shown := ''Hello from server'', seen_n := 1\<rparr>"
    by (simp add: two_apps_def app_mount_def app_open_def app_deliver_def relay0_def on_connection_def
                  inbox_of_def hello_def)
  with click_reaches_others [OF facts(1-7)] facts(8,9) show ?thesis
    by (simp add: app_view_def app_open_def two_apps_def app_mount_def click_text_def)
qed

lemma unmount_closing:
  assumes "relay_wf r" "is_client (ws_id a) r"
  shows "relay_wf (app_unmount a r) \<and> ws_id a < next_cid (app_unmount a r)
         \<and> ready_of (ws_id a) (app_unmount a r) \<noteq> Some Open
         \<and> inbox_of (ws_id a) (app_unmount a r) = inbox_of (ws_id a) r"
proof -
  have "ws_id a < next_cid r"
    using assms relay_wf_below by (auto simp: is_client_def)
  moreover have "next_cid (app_unmount a r) = next_cid r" by (simp add: app_unmount_def)
  ultimately show ?thesis using assms(1)
    by (auto simp: app_unmount_def relay_step_wf inbox_of_close_start ready_of_close_start
             simp del: relay_step.simps)
qed

text \<open>
  C33: the effect's cleanup works: once the component has unmounted (\<open>socket.close()\<close>
  starts the closing handshake), its socket is sent nothing more, whatever the other
  browsers do, until the socket leaves the server's set.
\<close>

theorem unmount_silences:
  assumes "relay_wf r" "is_client (ws_id a) r"
  shows "inbox_of (ws_id a) (relay_run (app_unmount a r) evs) \<in> {inbox_of (ws_id a) r, None}"
proof -
  from unmount_closing [OF assms] have wf: "relay_wf (app_unmount a r)"
    and lt: "ws_id a < next_cid (app_unmount a r)" and st: "ready_of (ws_id a) (app_unmount a r) \<noteq> Some Open"
    and ib: "inbox_of (ws_id a) (app_unmount a r) = inbox_of (ws_id a) r" by auto
  from closing_run [OF wf lt st, of evs] ib show ?thesis by simp
qed

theorem unmount_silences_witness:
  "inbox_of 0 (relay_run (app_unmount (fst (snd two_apps)) (fst two_apps)) [Message 1 ''late'' False, Connect])
     \<in> {Some [hello], None}"
proof -
  have wf: "relay_wf (fst two_apps)"
    by (simp add: two_apps_def app_mount_def relay_wf_def relay_eval)
  have c: "is_client (ws_id (fst (snd two_apps))) (fst two_apps)" "ws_id (fst (snd two_apps)) = 0"
    "inbox_of 0 (fst two_apps) = Some [hello]"
    by (simp_all add: two_apps_def app_mount_def app_open_def relay_eval inbox_of_def)
  from unmount_silences [OF wf c(1), of "[Message 1 ''late'' False, Connect]"] c(2,3) show ?thesis
    by (simp del: relay_run_Cons)
qed

end
