(* ===== verification/SubmissionQueue.thy ===== *)
theory SubmissionQueue
  imports JsRuntime
begin

text \<open>
  The Redis submission queue of \<open>src/Redis-Leetcode\<close>: an Express server
  (\<open>server/src/index.ts\<close>) whose \<open>POST /submit\<close> serialises the submission,
  \<open>LPUSH\<close>es it on the list \<open>submissions\<close> and \<open>PUBLISH\<close>es it on the channel of the
  same name, and a worker (\<open>worker/src/index.ts\<close>) that loops on a blocking
  \<open>BRPOP submissions 0\<close> and parses each element; on any error the worker schedules
  \<open>main\<close> again, which calls \<open>client.connect()\<close> again.
  \<^item> \<open>lc_sys\<close>: whether Redis is reachable, the list, what the server's subscriber
    callback was given, the server's two clients and whether it listens, the worker's
    client and where its \<open>main\<close> is (not run yet, in its loop, waiting for the retry
    timer), the submissions the worker handled, and two history variables: every element
    ever pushed and every element ever popped, in order.
  \<^item> \<open>lpush\<close>/\<open>brpop\<close> are the two list commands; \<open>fifo_enq\<close>/\<open>fifo_deq\<close>
    the abstract queue they implement.
  \<^item> \<open>start_server\<close>, \<open>submit\<close>, \<open>worker_main\<close> and \<open>worker_pop\<close> are the
    handlers; \<open>redis_set\<close> is Redis going down or coming back; \<open>lc_step\<close>
    interleaves them.
  The clients are node-redis v4 clients. \<open>connect()\<close> sets \<open>isOpen\<close>, then tries to
  connect and, on each failure, emits \<open>'error'\<close> and retries. The server's two clients
  have \<open>'error'\<close> listeners (lines 10-16), so their \<open>connect()\<close> resolves only once
  Redis is reachable, and they reconnect by themselves after an outage; commands issued
  meanwhile wait in the offline queue (the submit step is not enabled then). The worker's
  client has no listener: \<open>emit('error')\<close> throws, so a first \<open>connect()\<close> while
  Redis is down rejects with \<open>isOpen\<close> left set (\<open>wk_open\<close> without
  \<open>wk_conn\<close>), and a dropped connection is an uncaught exception that ends the worker
  process (\<open>WDead\<close>). A command on a closed client rejects. The one-second sleep and
  the logging are not modelled.
\<close>

subsection \<open>The Redis list and the queue it implements\<close>

definition lpush :: "string \<Rightarrow> string list \<Rightarrow> string list" where
  "lpush x q = x # q"

definition brpop :: "string list \<Rightarrow> (string \<times> string list) option" where
  "brpop q = (if q = [] then None else Some (last q, butlast q))"

definition queue_abs :: "string list \<Rightarrow> string list" where
  "queue_abs q = rev q"

definition fifo_enq :: "'a \<Rightarrow> 'a list \<Rightarrow> 'a list" where
  "fifo_enq x xs = xs @ [x]"

fun fifo_deq :: "'a list \<Rightarrow> ('a \<times> 'a list) option" where
  "fifo_deq [] = None"
| "fifo_deq (x # xs) = Some (x, xs)"

subsection \<open>State\<close>

datatype wk_mode = WIdle | WLoop | WRetry | WDead

record lc_sys =
  redis_up :: bool
  lc_queue :: "string list"
  lc_received :: "string list"
  client_open :: bool
  sub_open :: bool
  subscribed :: bool
  srv_listening :: bool
  wk_open :: bool
  wk_conn :: bool
  wk_mode :: wk_mode
  wk_seen :: "jsval list"
  pushed :: "string list"
  popped :: "string list"

definition lc0 :: "bool \<Rightarrow> lc_sys" where
  "lc0 u = \<lparr>redis_up = u, lc_queue = [], lc_received = [], client_open = False, sub_open = False,
            subscribed = False, srv_listening = False, wk_open = False, wk_conn = False, wk_mode = WIdle,
            wk_seen = [], pushed = [], popped = []\<rparr>"

subsection \<open>The server\<close>

text \<open>
  \<open>connectToRedis\<close>: each client is connected unless it is open. \<open>None\<close> is a
  \<open>connect()\<close> that has not resolved: with the \<open>'error'\<close> listener, node-redis keeps
  retrying while Redis is unreachable, so the \<open>catch\<close> blocks are never reached.
\<close>

definition connect_client :: "lc_sys \<Rightarrow> lc_sys option" where
  "connect_client s =
     (if client_open s then Some s else if redis_up s then Some (s\<lparr>client_open := True\<rparr>) else None)"

definition connect_subscriber :: "lc_sys \<Rightarrow> lc_sys option" where
  "connect_subscriber s =
     (if sub_open s then Some s
      else if redis_up s then Some (s\<lparr>sub_open := True, subscribed := True\<rparr>) else None)"

text \<open>\<open>startServer\<close>: \<open>await connectToRedis()\<close>, then \<open>app.listen\<close>.\<close>

definition start_server :: "lc_sys \<Rightarrow> lc_sys option" where
  "start_server s =
     (case connect_client s of
        None \<Rightarrow> None
      | Some s1 \<Rightarrow> (case connect_subscriber s1 of
                     None \<Rightarrow> None
                   | Some s2 \<Rightarrow> Some (s2\<lparr>srv_listening := True\<rparr>)))"

text \<open>
  \<open>POST /submit\<close>: the destructuring of \<open>req.body\<close> runs before the \<open>try\<close>, so a
  body without properties rejects the handler and no response is sent (\<open>None\<close>); inside
  the \<open>try\<close>, a failing \<open>JSON.stringify\<close> or a command on a closed client is answered
  500.
\<close>

definition submit_reply :: "nat \<Rightarrow> (nat \<times> string) option" where
  "submit_reply n = Some (n, if n = 200 then ''Code submitted successfully'' else ''Error submitting code'')"

text \<open>
  \<open>const { problemId, userId, code, language } = req.body\<close> and the object literal
  \<open>JSON.stringify\<close> is applied to.
\<close>

definition submission_of :: "jsval \<Rightarrow> error + jsval" where
  "submission_of body =
     (case (js_prop body ''problemId'', js_prop body ''userId'', js_prop body ''code'', js_prop body ''language'') of
        (Inr p, Inr u, Inr cd, Inr l) \<Rightarrow> Inr (js_object [(''problemId'', p), (''userId'', u), (''code'', cd), (''language'', l)])
      | _ \<Rightarrow> Inl TypeError)"

definition submit :: "codec \<Rightarrow> jsval \<Rightarrow> lc_sys \<Rightarrow> (nat \<times> string) option \<times> lc_sys" where
  "submit c body s =
     (case submission_of body of
        Inl e \<Rightarrow> (None, s)
      | Inr obj \<Rightarrow>
          (case stringify c obj of
             None \<Rightarrow> (submit_reply 500, s)
           | Some sub \<Rightarrow>
               if \<not> client_open s then (submit_reply 500, s)
               else (submit_reply 200,
                     s\<lparr>lc_queue := lpush sub (lc_queue s), pushed := pushed s @ [sub],
                       lc_received := lc_received s @ (if subscribed s then [sub] else [])\<rparr>)))"

subsection \<open>The worker\<close>

text \<open>
  \<open>main\<close> up to its loop: \<open>client.connect()\<close> rejects on a client that is already open
  ("Socket already opened"); while Redis is down it sets \<open>isOpen\<close> and rejects with
  the error its unhandled \<open>'error'\<close> event throws. The \<open>catch\<close> arms the retry
  timer.
\<close>

definition worker_main :: "lc_sys \<Rightarrow> lc_sys" where
  "worker_main s =
     (if wk_open s then s\<lparr>wk_mode := WRetry\<rparr>
      else if redis_up s then s\<lparr>wk_open := True, wk_conn := True, wk_mode := WLoop\<rparr>
      else s\<lparr>wk_open := True, wk_mode := WRetry\<rparr>)"

text \<open>
  One iteration of \<open>while (true)\<close>: \<open>BRPOP\<close> blocks on an empty list (\<open>None\<close>: no
  step), and otherwise removes the oldest element, which \<open>JSON.parse\<close> reads; a parse
  error leaves the loop for the retry. A dropped connection is \<open>redis_set\<close>.
\<close>

definition worker_pop :: "codec \<Rightarrow> lc_sys \<Rightarrow> lc_sys option" where
  "worker_pop c s =
     (if wk_mode s \<noteq> WLoop then None
      else case brpop (lc_queue s) of
             None \<Rightarrow> None
           | Some (m, q) \<Rightarrow>
               (case parse c m of
                  None \<Rightarrow> Some (s\<lparr>lc_queue := q, popped := popped s @ [m], wk_mode := WRetry\<rparr>)
                | Some v \<Rightarrow> Some (s\<lparr>lc_queue := q, popped := popped s @ [m], wk_seen := wk_seen s @ [v]\<rparr>)))"

text \<open>The loop run until \<open>BRPOP\<close> blocks or the loop is left.\<close>

function worker_drain :: "codec \<Rightarrow> lc_sys \<Rightarrow> lc_sys" where
  "worker_drain c s =
     (case worker_pop c s of
        None \<Rightarrow> s
      | Some s' \<Rightarrow> if wk_mode s' = WLoop then worker_drain c s' else s')"
  by pat_completeness auto

termination
  by (relation "measure (\<lambda>(c, s). length (lc_queue s))")
     (auto simp: worker_pop_def brpop_def split: if_splits option.splits)

text \<open>
  Redis going down or coming back. A drop closes the worker's connection: without an
  \<open>'error'\<close> listener the socket error is thrown as an uncaught exception and the
  worker process ends. The server's clients reconnect by themselves.
\<close>

definition redis_set :: "bool \<Rightarrow> lc_sys \<Rightarrow> lc_sys" where
  "redis_set u s =
     (if \<not> u \<and> wk_conn s then s\<lparr>redis_up := False, wk_conn := False, wk_mode := WDead\<rparr>
      else s\<lparr>redis_up := u\<rparr>)"

subsection \<open>The system\<close>

text \<open>
  \<open>startServer\<close> runs once and completes when its connections do; a request is handled
  once the server listens, and waits while Redis is down if the client is open;
  \<open>main\<close> runs at start and whenever its retry timer fires.
\<close>

inductive lc_step :: "codec \<Rightarrow> lc_sys \<Rightarrow> lc_sys \<Rightarrow> bool" for c :: codec where
  start: "\<not> srv_listening s \<Longrightarrow> start_server s = Some s' \<Longrightarrow> lc_step c s s'"
| submit: "srv_listening s \<Longrightarrow> \<not> client_open s \<or> redis_up s \<Longrightarrow> submit c body s = (r, s') \<Longrightarrow> lc_step c s s'"
| main: "wk_mode s = WIdle \<or> wk_mode s = WRetry \<Longrightarrow> lc_step c s (worker_main s)"
| pop: "worker_pop c s = Some s' \<Longrightarrow> lc_step c s s'"
| redis: "lc_step c s (redis_set u s)"

inductive lc_reach :: "codec \<Rightarrow> lc_sys \<Rightarrow> bool" for c :: codec where
  init: "lc_reach c (lc0 u)"
| step: "lc_reach c s \<Longrightarrow> lc_step c s s' \<Longrightarrow> lc_reach c (s')"

subsection \<open>Sample inputs\<close>

text \<open>A codec that writes every value as its \<open>ToString\<close> and reads every text as a string.\<close>

definition demo_json :: codec where
  "demo_json = \<lparr>stringify = (\<lambda>v. Some (js_to_string v)), parse = (\<lambda>t. Some (JStr t))\<rparr>"

text \<open>A codec for strings only, which reads back what it writes.\<close>

definition str_codec :: codec where
  "str_codec = \<lparr>stringify = (\<lambda>v. case v of JStr t \<Rightarrow> Some t | _ \<Rightarrow> None), parse = (\<lambda>t. Some (JStr t))\<rparr>"

definition sub_body :: jsval where
  "sub_body = JObj [(''problemId'', JNum 1), (''userId'', JStr ''u1''), (''code'', JStr ''print(1)''),
                    (''language'', JStr ''python'')]"

text \<open>The object \<open>POST /submit\<close> builds from \<open>sub_body\<close>, and a codec that reads it back.\<close>

definition sub_record :: jsval where
  "sub_record = JObj [(''problemId'', JNum 1), (''userId'', JStr ''u1''), (''code'', JStr ''print(1)''),
                      (''language'', JStr ''python'')]"

definition one_codec :: codec where
  "one_codec = \<lparr>stringify = (\<lambda>v. if v = sub_record then Some ''S'' else None),
                 parse = (\<lambda>t. if t = ''S'' then Some sub_record else None)\<rparr>"

text \<open>The system once the server has started with Redis up.\<close>

definition lc_started :: lc_sys where
  "lc_started = (lc0 True)\<lparr>client_open := True, sub_open := True, subscribed := True, srv_listening := True\<rparr>"

definition lc_inv :: "codec \<Rightarrow> lc_sys \<Rightarrow> bool" where
  "lc_inv c s \<longleftrightarrow> pushed s = popped s @ rev (lc_queue s)
      \<and> map Some (wk_seen s) = filter (\<lambda>x. x \<noteq> None) (map (parse c) (popped s))"

definition srv_inv :: "lc_sys \<Rightarrow> bool" where
  "srv_inv s \<longleftrightarrow> (sub_open s \<longrightarrow> subscribed s) \<and> (srv_listening s \<longrightarrow> client_open s \<and> subscribed s)"

text \<open>The worker started while Redis is down; then Redis comes up and the server starts.\<close>

definition down_started :: lc_sys where
  "down_started = (worker_main (lc0 False))\<lparr>redis_up := True, client_open := True, sub_open := True,
                     subscribed := True, srv_listening := True\<rparr>"

text \<open>
  The Redis list used as the code uses it is a FIFO queue: \<open>LPUSH\<close> at the head
  enqueues at the back of the abstract queue (the list read from its tail), and
  \<open>BRPOP\<close> at the tail dequeues the front, blocking exactly when the queue is empty.
\<close>

lemma queue_refines:
  "queue_abs (lpush x q) = fifo_enq x (queue_abs q)
   \<and> map_option (\<lambda>(m, q'). (m, queue_abs q')) (brpop q) = fifo_deq (queue_abs q)"
  by (cases q rule: rev_cases) (simp_all add: lpush_def brpop_def queue_abs_def fifo_enq_def)

lemma brpop_Some: "brpop q = Some (m, q') \<longleftrightarrow> q = q' @ [m]"
  by (cases q rule: rev_cases) (auto simp: brpop_def)

lemma start_server_Some:
  assumes "start_server s = Some s'"
  shows "lc_queue s' = lc_queue s \<and> pushed s' = pushed s \<and> popped s' = popped s \<and> wk_seen s' = wk_seen s
         \<and> lc_received s' = lc_received s \<and> wk_open s' = wk_open s \<and> wk_conn s' = wk_conn s
         \<and> wk_mode s' = wk_mode s \<and> redis_up s' = redis_up s
         \<and> srv_listening s' \<and> client_open s' \<and> sub_open s' \<and> (subscribed s' \<longleftrightarrow> subscribed s \<or> \<not> sub_open s)"
  using assms
  by (auto simp: start_server_def connect_client_def connect_subscriber_def split: if_splits option.splits)

lemma start_lc0: "start_server (lc0 True) = Some lc_started"
  by (simp add: start_server_def connect_client_def connect_subscriber_def lc0_def lc_started_def)

lemma worker_main_fields [simp]:
  "lc_queue (worker_main s) = lc_queue s" "pushed (worker_main s) = pushed s"
  "popped (worker_main s) = popped s" "wk_seen (worker_main s) = wk_seen s"
  "client_open (worker_main s) = client_open s" "srv_listening (worker_main s) = srv_listening s"
  "sub_open (worker_main s) = sub_open s" "subscribed (worker_main s) = subscribed s"
  "wk_open s \<Longrightarrow> wk_open (worker_main s) \<and> wk_mode (worker_main s) = WRetry"
  by (simp_all add: worker_main_def)

lemma redis_set_fields [simp]:
  "lc_queue (redis_set u s) = lc_queue s" "pushed (redis_set u s) = pushed s"
  "popped (redis_set u s) = popped s" "wk_seen (redis_set u s) = wk_seen s"
  "client_open (redis_set u s) = client_open s" "srv_listening (redis_set u s) = srv_listening s"
  "sub_open (redis_set u s) = sub_open s" "subscribed (redis_set u s) = subscribed s"
  "wk_open (redis_set u s) = wk_open s" "redis_up (redis_set u s) = u"
  "wk_mode (redis_set u s) = (if \<not> u \<and> wk_conn s then WDead else wk_mode s)"
  by (simp_all add: redis_set_def)

lemma submit_cases:
  assumes "submit c body s = (r, s')"
  obtains "s' = s" "r \<noteq> submit_reply 200"
  | sub obj where "client_open s" "stringify c obj = Some sub" "r = submit_reply 200"
      "s' = s\<lparr>lc_queue := lpush sub (lc_queue s), pushed := pushed s @ [sub],
              lc_received := lc_received s @ (if subscribed s then [sub] else [])\<rparr>"
proof (cases "submission_of body")
  case (Inl e)
  then show ?thesis using assms that(1) by (auto simp add: submit_def submit_reply_def)
next
  case (Inr obj)
  show ?thesis
  proof (cases "stringify c obj")
    case None
    then show ?thesis using assms Inr that(1) by (auto simp add: submit_def submit_reply_def)
  next
    case (Some sub)
    show ?thesis
    proof (cases "client_open s")
      case True
      then show ?thesis using assms Inr Some that(2) [of obj sub] by (simp add: submit_def)
    next
      case False
      then show ?thesis using assms Inr Some that(1) by (auto simp add: submit_def submit_reply_def)
    qed
  qed
qed

lemma worker_pop_cases:
  assumes "worker_pop c s = Some s'"
  obtains m q where "lc_queue s = q @ [m]" "parse c m = None" "wk_mode s = WLoop"
      "s' = s\<lparr>lc_queue := q, popped := popped s @ [m], wk_mode := WRetry\<rparr>"
  | m q v where "lc_queue s = q @ [m]" "parse c m = Some v" "wk_mode s = WLoop"
      "s' = s\<lparr>lc_queue := q, popped := popped s @ [m], wk_seen := wk_seen s @ [v]\<rparr>"
  using assms
  by (auto simp: worker_pop_def brpop_Some split: if_splits option.splits prod.splits)

lemma lc_step_inv: "lc_step c s s' \<Longrightarrow> lc_inv c s \<Longrightarrow> lc_inv c s'"
proof (induction rule: lc_step.induct)
  case (start s s')
  then show ?case using start_server_Some [OF start.hyps(2)] by (simp add: lc_inv_def)
next
  case (submit s body r s')
  then show ?case by (cases rule: submit_cases [OF submit.hyps(3)]) (auto simp: lc_inv_def lpush_def)
next
  case (pop s s')
  then show ?case by (cases rule: worker_pop_cases [OF pop.hyps]) (auto simp: lc_inv_def)
qed (simp_all add: lc_inv_def)

lemma lc_step_srv_inv: "lc_step c s s' \<Longrightarrow> srv_inv s \<Longrightarrow> srv_inv s'"
proof (induction rule: lc_step.induct)
  case (start s s')
  then show ?case using start_server_Some [OF start.hyps(2)] by (auto simp: srv_inv_def)
next
  case (submit s body r s')
  then show ?case by (cases rule: submit_cases [OF submit.hyps(3)]) (auto simp: srv_inv_def)
next
  case (pop s s')
  then show ?case by (cases rule: worker_pop_cases [OF pop.hyps]) (auto simp: srv_inv_def)
qed (simp_all add: srv_inv_def)

lemma lc_reach_srv_inv: "lc_reach c s \<Longrightarrow> srv_inv s"
proof (induction rule: lc_reach.induct)
  case (init u)
  then show ?case by (simp add: srv_inv_def lc0_def)
next
  case (step s s')
  then show ?case using lc_step_srv_inv by blast
qed

text \<open>
  C11: under every interleaving of server startup, submissions, worker iterations, retries
  and Redis outages, no submission is lost, duplicated or reordered: the submissions
  pushed so far are those popped, in order, followed by those still in the list, oldest
  first; and the worker has handled exactly the popped submissions that parsed, in order.
\<close>

theorem lc_reach_fifo:
  assumes "lc_reach c s"
  shows "pushed s = popped s @ rev (lc_queue s)
         \<and> map Some (wk_seen s) = filter (\<lambda>x. x \<noteq> None) (map (parse c) (popped s))"
proof -
  from assms have "lc_inv c s"
  proof induction
    case (init u)
    then show ?case by (simp add: lc_inv_def lc0_def)
  next
    case (step s s')
    then show ?case using lc_step_inv by blast
  qed
  then show ?thesis by (simp add: lc_inv_def)
qed

lemma stuck_step:
  assumes "lc_step c s s'" "wk_open s" "wk_mode s = WRetry \<or> wk_mode s = WDead"
  shows "wk_open s' \<and> (wk_mode s' = WRetry \<or> wk_mode s' = WDead) \<and> wk_seen s' = wk_seen s \<and> popped s' = popped s"
  using assms
proof (induction rule: lc_step.induct)
  case (start s s')
  then show ?case using start_server_Some [OF start.hyps(2)] by simp
next
  case (submit s body r s')
  then show ?case by (cases rule: submit_cases [OF submit.hyps(3)]) auto
next
  case (pop s s')
  then show ?case by (auto simp: worker_pop_def)
qed auto

text \<open>
  C12: once the worker's client is open and its loop was left for the retry timer (a first
  \<open>connect()\<close> while Redis was down, or a parse error), the worker never handles another
  submission: every retry calls \<open>connect()\<close> on the open client, which rejects with
  "Socket already opened", and arms the timer again, until a Redis outage ends the
  process, whatever else happens.
\<close>

theorem worker_stuck:
  assumes "(lc_step c)\<^sup>*\<^sup>* s s'" "wk_open s" "wk_mode s = WRetry"
  shows "(wk_mode s' = WRetry \<or> wk_mode s' = WDead) \<and> wk_seen s' = wk_seen s \<and> popped s' = popped s"
proof -
  from assms(1) have "wk_open s' \<and> (wk_mode s' = WRetry \<or> wk_mode s' = WDead) \<and> wk_seen s' = wk_seen s
                      \<and> popped s' = popped s"
  proof (induction rule: rtranclp_induct)
    case base
    then show ?case using assms(2,3) by simp
  next
    case (step y z)
    then show ?case using stuck_step [OF step(2)] by simp
  qed
  then show ?thesis by simp
qed

text \<open>
  C13: \<open>startServer\<close> listens only after \<open>connectToRedis\<close> has connected both clients,
  which waits for Redis: in every reachable state a listening server has its client open
  and its subscriber subscribed, so a \<open>POST /submit\<close> whose body has the four fields
  and serialises is answered 200, queued, and delivered to the subscriber.
\<close>

theorem listening_server_accepts:
  assumes "lc_reach c s" "srv_listening s" "submission_of body = Inr obj" "stringify c obj = Some sub"
  shows "submit c body s = (submit_reply 200, s\<lparr>lc_queue := lpush sub (lc_queue s), pushed := pushed s @ [sub],
                                                   lc_received := lc_received s @ [sub]\<rparr>)"
proof -
  have "client_open s" "subscribed s"
    using lc_reach_srv_inv [OF assms(1)] assms(2) by (simp_all add: srv_inv_def)
  then show ?thesis using assms(3,4) by (simp add: submit_def)
qed

lemma drain_result:
  assumes "json_roundtrip c" "wk_mode s = WLoop" "redis_up s"
    and "\<forall>m \<in> set (lc_queue s). \<exists>v. stringify c v = Some m"
  shows "worker_drain c s =
           s\<lparr>lc_queue := [], popped := popped s @ rev (lc_queue s),
             wk_seen := wk_seen s @ map (\<lambda>m. the (parse c m)) (rev (lc_queue s))\<rparr>"
  using assms
proof (induction c s rule: worker_drain.induct)
  case (1 c s)
  show ?case
  proof (cases "lc_queue s" rule: rev_cases)
    case Nil
    then have "worker_pop c s = None" using "1.prems" by (simp add: worker_pop_def brpop_def)
    then have "worker_drain c s = s" by (subst worker_drain.simps) simp
    with Nil show ?thesis by (cases s) simp
  next
    case (snoc q m)
    obtain v where "stringify c v = Some m" using "1.prems"(4) snoc by auto
    then have pm: "parse c m = Some v" using "1.prems"(1) by (simp add: json_roundtrip_def)
    let ?s1 = "s\<lparr>lc_queue := q, popped := popped s @ [m], wk_seen := wk_seen s @ [v]\<rparr>"
    have pop: "worker_pop c s = Some ?s1" using "1.prems" snoc pm by (simp add: worker_pop_def brpop_def)
    have "worker_drain c ?s1 = ?s1\<lparr>lc_queue := [], popped := popped ?s1 @ rev (lc_queue ?s1),
                                   wk_seen := wk_seen ?s1 @ map (\<lambda>m. the (parse c m)) (rev (lc_queue ?s1))\<rparr>"
      by (rule "1.IH" [OF pop]) (use "1.prems" snoc in auto)
    moreover have "worker_drain c s = worker_drain c ?s1"
      using pop "1.prems"(2) by (subst worker_drain.simps) simp
    ultimately show ?thesis using snoc pm by simp
  qed
qed

text \<open>
  C38: the worker's loop terminates on a finite queue: from its loop, with Redis up, a
  codec that reads back what it writes and a list of serialised submissions, it pops and
  handles every element, oldest first, and then blocks on the empty list.
\<close>

theorem worker_drain_empties:
  assumes "json_roundtrip c" "wk_mode s = WLoop" "redis_up s"
    and "\<forall>m \<in> set (lc_queue s). \<exists>v. stringify c v = Some m"
  shows "worker_drain c s =
           s\<lparr>lc_queue := [], popped := popped s @ rev (lc_queue s),
             wk_seen := wk_seen s @ map (\<lambda>m. the (parse c m)) (rev (lc_queue s))\<rparr>"
  using assms by (rule drain_result)

lemma lc_step_serialised:
  assumes "lc_step c s s'" "\<forall>m \<in> set (pushed s). \<exists>v. stringify c v = Some m"
  shows "\<forall>m \<in> set (pushed s'). \<exists>v. stringify c v = Some m"
  using assms
proof (induction rule: lc_step.induct)
  case (start s s')
  then show ?case using start_server_Some [OF start.hyps(2)] by simp
next
  case (submit s body r s')
  then show ?case by (cases rule: submit_cases [OF submit.hyps(3)]) auto
next
  case (pop s s')
  then show ?case by (cases rule: worker_pop_cases [OF pop.hyps]) auto
qed simp_all

lemma lc_reach_serialised: "lc_reach c s \<Longrightarrow> lc_inv c s \<and> (\<forall>m \<in> set (pushed s). \<exists>v. stringify c v = Some m)"
proof (induction rule: lc_reach.induct)
  case (init u)
  then show ?case by (simp add: lc_inv_def lc0_def)
next
  case (step s s')
  then show ?case using lc_step_inv lc_step_serialised by blast
qed

lemma worker_drain_steps: "(lc_step c)\<^sup>*\<^sup>* s (worker_drain c s)"
proof (induction c s rule: worker_drain.induct)
  case (1 c s)
  show ?case
  proof (cases "worker_pop c s")
    case None
    then show ?thesis by (subst worker_drain.simps) simp
  next
    case (Some s')
    then have st: "lc_step c s s'" by (rule lc_step.pop)
    show ?thesis
    proof (cases "wk_mode s' = WLoop")
      case True
      then have "(lc_step c)\<^sup>*\<^sup>* s' (worker_drain c s')" using "1.IH" Some by blast
      moreover have "worker_drain c s = worker_drain c s'" using Some True by (subst worker_drain.simps) simp
      ultimately show ?thesis using st by (simp add: converse_rtranclp_into_rtranclp)
    next
      case False
      then have "worker_drain c s = s'" using Some by (subst worker_drain.simps) simp
      then show ?thesis using st by simp
    qed
  qed
qed

text \<open>
  C14: liveness of the queue: from any reachable state in which the worker is in its loop
  and Redis is up, with a codec that reads back what it writes, the system can run on
  (the worker's own iterations) to a state where the list is empty and every submission
  ever accepted has been popped and handled, in the order it was submitted.
\<close>

theorem lc_eventually_handled:
  assumes "lc_reach c s" "json_roundtrip c" "wk_mode s = WLoop" "redis_up s"
  shows "\<exists>s'. (lc_step c)\<^sup>*\<^sup>* s s' \<and> lc_queue s' = [] \<and> popped s' = pushed s
               \<and> map Some (wk_seen s') = map (parse c) (pushed s)"
proof -
  from lc_reach_serialised [OF assms(1)] have inv: "lc_inv c s"
    and ser: "\<forall>m \<in> set (pushed s). \<exists>v. stringify c v = Some m" by auto
  from inv have push: "pushed s = popped s @ rev (lc_queue s)"
    and seen: "map Some (wk_seen s) = filter (\<lambda>x. x \<noteq> None) (map (parse c) (popped s))"
    by (simp_all add: lc_inv_def)
  have parses: "\<And>m. m \<in> set (pushed s) \<Longrightarrow> parse c m = Some (the (parse c m))"
    using ser assms(2) by (force simp: json_roundtrip_def)
  have pp: "\<And>m. m \<in> set (popped s) \<Longrightarrow> parse c m \<noteq> None"
    using parses push by (metis Un_iff option.distinct(1) set_append)
  then have "filter (\<lambda>x. x \<noteq> None) (map (parse c) (popped s)) = map (parse c) (popped s)"
    by (intro filter_True) auto
  with seen have seen': "map Some (wk_seen s) = map (parse c) (popped s)" by simp
  have q: "\<forall>m \<in> set (lc_queue s). \<exists>v. stringify c v = Some m" using ser push by auto
  let ?s' = "worker_drain c s"
  have d: "?s' = s\<lparr>lc_queue := [], popped := popped s @ rev (lc_queue s),
              wk_seen := wk_seen s @ map (\<lambda>m. the (parse c m)) (rev (lc_queue s))\<rparr>"
    using assms(2-4) q by (rule drain_result)
  have "map Some (map (\<lambda>m. the (parse c m)) (rev (lc_queue s))) = map (parse c) (rev (lc_queue s))"
    using parses push by (auto simp: map_idI)
  then have "map Some (wk_seen ?s') = map (parse c) (pushed s)"
    using d seen' push by simp
  moreover have "lc_queue ?s' = []" "popped ?s' = pushed s" using d push by simp_all
  ultimately show ?thesis using worker_drain_steps by blast
qed

lemmas lc_eval = lc0_def lc_started_def submit_def redis_set_def
  submission_of_def submit_reply_def worker_main_def worker_pop_def brpop_def lpush_def demo_json_def
  js_object_def sub_body_def

lemma demo_submit:
  "submit demo_json sub_body lc_started =
     (submit_reply 200, lc_started\<lparr>lc_queue := [''[object Object]''],
        pushed := [''[object Object]''], lc_received := [''[object Object]'']\<rparr>)"
  by (simp add: lc_eval)

lemma reach_started: "lc_reach c lc_started"
  by (rule lc_reach.step [OF lc_reach.init lc_step.start [OF _ start_lc0]]) (simp add: lc0_def)

theorem lc_reach_fifo_witness:
  "pushed (the (worker_pop demo_json (worker_main (snd (submit demo_json sub_body lc_started)))))
     = [''[object Object]'']
   \<and> popped (the (worker_pop demo_json (worker_main (snd (submit demo_json sub_body lc_started)))))
     = [''[object Object]'']
   \<and> lc_queue (the (worker_pop demo_json (worker_main (snd (submit demo_json sub_body lc_started)))))
     = []"
proof -
  let ?s2 = "snd (submit demo_json sub_body lc_started)"
  let ?s3 = "worker_main ?s2"
  let ?s4 = "the (worker_pop demo_json ?s3)"
  have r2: "lc_reach demo_json ?s2"
    by (rule lc_reach.step [OF reach_started lc_step.submit [where body = sub_body and r = "submit_reply 200"]])
       (simp_all add: lc_eval)
  have r3: "lc_reach demo_json ?s3"
    by (rule lc_reach.step [OF r2 lc_step.main]) (simp add: demo_submit lc_eval)
  have pop: "worker_pop demo_json ?s3 = Some ?s4"
    by (simp add: demo_submit lc_eval)
  have r4: "lc_reach demo_json ?s4"
    by (rule lc_reach.step [OF r3 lc_step.pop [OF pop]])
  have "popped ?s4 = [''[object Object]'']" "lc_queue ?s4 = []"
    by (simp_all add: demo_submit lc_eval)
  with lc_reach_fifo [OF r4] show ?thesis by simp
qed

theorem worker_stuck_witness:
  "wk_open (worker_main (lc0 False)) \<and> wk_mode (worker_main (lc0 False)) = WRetry
   \<and> lc_queue (snd (submit demo_json sub_body down_started)) = [''[object Object]'']
   \<and> wk_mode (worker_main (snd (submit demo_json sub_body down_started))) = WRetry
   \<and> popped (worker_main (snd (submit demo_json sub_body down_started))) = []"
proof -
  let ?s0 = "worker_main (lc0 False)"
  let ?s1 = "redis_set True ?s0"
  let ?s3 = "snd (submit demo_json sub_body down_started)"
  let ?s4 = "worker_main ?s3"
  have "lc_step demo_json ?s0 ?s1" by (rule lc_step.redis)
  moreover have "start_server ?s1 = Some down_started"
    by (simp add: lc_eval down_started_def start_server_def connect_client_def connect_subscriber_def)
  then have "lc_step demo_json ?s1 down_started"
    by (rule lc_step.start [rotated]) (simp add: lc_eval)
  moreover have sub: "submit demo_json sub_body down_started = (submit_reply 200, ?s3)"
    by (simp add: lc_eval down_started_def)
  have "lc_step demo_json down_started ?s3"
    by (rule lc_step.submit [OF _ _ sub]) (simp_all add: lc_eval down_started_def)
  moreover have "lc_step demo_json ?s3 ?s4"
    by (rule lc_step.main) (simp add: lc_eval down_started_def)
  ultimately have "(lc_step demo_json)\<^sup>*\<^sup>* ?s0 ?s4" by simp
  moreover have "wk_open ?s0" "wk_mode ?s0 = WRetry" "popped ?s0 = []"
    by (simp_all add: lc_eval)
  moreover have "lc_queue ?s3 = [''[object Object]'']" "wk_mode ?s4 \<noteq> WDead"
    by (simp_all add: lc_eval down_started_def)
  ultimately show ?thesis using worker_stuck [of demo_json ?s0 ?s4] by auto
qed

theorem listening_server_accepts_witness:
  "submit demo_json sub_body lc_started =
     (submit_reply 200, lc_started\<lparr>lc_queue := [''[object Object]''], pushed := [''[object Object]''],
                                   lc_received := [''[object Object]'']\<rparr>)"
proof -
  have r: "lc_reach demo_json lc_started"
  proof (rule lc_reach.step [OF _ lc_step.start [OF _ start_lc0]])
    have "lc_reach demo_json (redis_set True (lc0 False))"
      by (rule lc_reach.step [OF lc_reach.init lc_step.redis])
    moreover have "redis_set True (lc0 False) = lc0 True" by (simp add: lc0_def redis_set_def)
    ultimately show "lc_reach demo_json (lc0 True)" by simp
  qed (simp add: lc0_def)
  have o: "submission_of sub_body = Inr (js_object [(''problemId'', JNum 1), (''userId'', JStr ''u1''),
             (''code'', JStr ''print(1)''), (''language'', JStr ''python'')])"
    by (simp add: lc_eval)
  have "stringify demo_json (js_object [(''problemId'', JNum 1), (''userId'', JStr ''u1''),
             (''code'', JStr ''print(1)''), (''language'', JStr ''python'')]) = Some ''[object Object]''"
    by (simp add: lc_eval)
  from listening_server_accepts [OF r _ o this] show ?thesis
    by (simp add: lc_started_def lc0_def lpush_def)
qed

lemma json_roundtrip_str_codec: "json_roundtrip str_codec"
  by (auto simp: json_roundtrip_def str_codec_def split: jsval.splits)

theorem worker_drain_empties_witness:
  "worker_drain str_codec ((lc0 True)\<lparr>lc_queue := [''b'', ''a''], wk_open := True, wk_mode := WLoop\<rparr>)
     = (lc0 True)\<lparr>lc_queue := [], wk_open := True, wk_mode := WLoop, popped := [''a'', ''b''],
                   wk_seen := [JStr ''a'', JStr ''b'']\<rparr>"
proof -
  have "\<forall>m \<in> set [''b'', ''a'']. \<exists>v. stringify str_codec v = Some m"
    by (auto simp: str_codec_def intro: exI [of _ "JStr ''a''"] exI [of _ "JStr ''b''"])
  then show ?thesis
    using worker_drain_empties [OF json_roundtrip_str_codec,
            of "(lc0 True)\<lparr>lc_queue := [''b'', ''a''], wk_open := True, wk_mode := WLoop\<rparr>"]
    by (simp add: lc0_def str_codec_def)
qed

lemma json_roundtrip_one_codec: "json_roundtrip one_codec"
  by (simp add: json_roundtrip_def one_codec_def)

theorem lc_eventually_handled_witness:
  "\<exists>s'. (lc_step one_codec)\<^sup>*\<^sup>* (worker_main (snd (submit one_codec sub_body lc_started))) s'
        \<and> lc_queue s' = [] \<and> popped s' = [''S''] \<and> wk_seen s' = [sub_record]"
proof -
  let ?s2 = "snd (submit one_codec sub_body lc_started)"
  let ?s3 = "worker_main ?s2"
  have sub: "submit one_codec sub_body lc_started = (submit_reply 200, ?s2)"
    by (simp add: lc_eval one_codec_def sub_record_def)
  have r2: "lc_reach one_codec ?s2"
    by (rule lc_reach.step [OF reach_started lc_step.submit [OF _ _ sub]]) (simp_all add: lc_eval)
  have r3: "lc_reach one_codec ?s3"
    by (rule lc_reach.step [OF r2 lc_step.main]) (simp add: lc_eval one_codec_def sub_record_def)
  have m: "wk_mode ?s3 = WLoop" "redis_up ?s3" "pushed ?s3 = [''S'']"
    by (simp_all add: lc_eval one_codec_def sub_record_def)
  from lc_eventually_handled [OF r3 json_roundtrip_one_codec m(1,2)] m(3) show ?thesis
    by (auto simp: one_codec_def)
qed

end
