(* ===== verification/OrdersBoot.thy ===== *)
theory OrdersBoot
  imports Prelude
begin

text \<open>
  The start-up of the orders service, \<open>services/orders/src/index.ts\<close>: \<open>main\<close> awaits
  \<open>mongoose.connect\<close> and then \<open>consumer.connect\<close>; when both resolve the HTTP app
  listens on \<open>ORDERS_SERVICE_PORT\<close>, and when either rejects the \<open>catch\<close> handler
  disconnects the producer and the consumer and exits with status 1.
  \<^item> \<open>boot_proc\<close> holds the process's connections, whether it listens, and its exit
    status; \<open>boot_fails\<close> says which awaited call rejects.
\<close>

datatype boot_step = MongoConnect | KafkaConsumerConnect

record boot_proc =
  mongo_conn :: bool
  kconsumer_conn :: bool
  kproducer_conn :: bool
  app_listening :: bool
  boot_exit :: "int option"

definition boot0 :: boot_proc where
  "boot0 = \<lparr>mongo_conn = False, kconsumer_conn = False, kproducer_conn = False,
            app_listening = False, boot_exit = None\<rparr>"

definition boot_await ::
  "(boot_step \<Rightarrow> bool) \<Rightarrow> boot_step \<Rightarrow> (boot_proc \<Rightarrow> boot_proc) \<Rightarrow> (boot_proc, unit) gw" where
  "boot_await fails st f p = (if fails st then (Inl (ErrorMsg ''connect failed''), p) else (Inr (), f p))"

definition orders_main :: "(boot_step \<Rightarrow> bool) \<Rightarrow> (boot_proc, unit) gw" where
  "orders_main fails =
     gw_bind (boot_await fails MongoConnect (\<lambda>p. p\<lparr>mongo_conn := True\<rparr>)) (\<lambda>_.
       boot_await fails KafkaConsumerConnect (\<lambda>p. p\<lparr>kconsumer_conn := True\<rparr>))"

text \<open>\<open>.then(() => app.listen(...))\<close>\<close>

definition orders_listen :: "unit \<Rightarrow> (boot_proc, unit) gw" where
  "orders_listen u p = (Inr (), p\<lparr>app_listening := True\<rparr>)"

text \<open>\<open>.catch(...)\<close>: \<open>producer.disconnect()\<close>, \<open>consumer.disconnect()\<close>, \<open>process.exit(1)\<close>.\<close>

definition orders_fatal :: "error \<Rightarrow> (boot_proc, unit) gw" where
  "orders_fatal e p = (Inr (), p\<lparr>kproducer_conn := False, kconsumer_conn := False, boot_exit := Some 1\<rparr>)"

definition orders_boot :: "(boot_step \<Rightarrow> bool) \<Rightarrow> boot_proc" where
  "orders_boot fails = snd (gw_catch (gw_bind (orders_main fails) orders_listen) orders_fatal boot0)"

lemma orders_boot_cases:
  "orders_boot fails =
     (if \<not> fails MongoConnect \<and> \<not> fails KafkaConsumerConnect
      then boot0\<lparr>mongo_conn := True, kconsumer_conn := True, app_listening := True\<rparr>
      else boot0\<lparr>mongo_conn := \<not> fails MongoConnect, boot_exit := Some 1\<rparr>)"
  by (simp add: orders_boot_def orders_main_def boot_await_def orders_listen_def orders_fatal_def
                gw_bind_def gw_catch_def boot0_def)

lemma boot_all_ok: "(\<forall>st. \<not> fails st) \<longleftrightarrow> \<not> fails MongoConnect \<and> \<not> fails KafkaConsumerConnect"
  by (metis boot_step.exhaust)

lemma orders_boot_listens_iff:
  "app_listening (orders_boot fails) \<longleftrightarrow> (\<forall>st. \<not> fails st)"
  by (simp add: boot_all_ok orders_boot_cases boot0_def)

lemma orders_boot_fatal:
  "fails st \<Longrightarrow> boot_exit (orders_boot fails) = Some 1 \<and> \<not> app_listening (orders_boot fails)
     \<and> \<not> kconsumer_conn (orders_boot fails) \<and> mongo_conn (orders_boot fails) = (\<not> fails MongoConnect)"
  by (cases st) (simp_all add: orders_boot_cases boot0_def)

end
