(* ===== verification/KafkaDemo.thy ===== *)
theory KafkaDemo
  imports Prelude
begin

text \<open>
  The Kafka demo scripts of \<open>src/Kafka\<close>, against a model of the broker as kafkajs
  presents it. \<open>kbroker\<close> holds whether the broker is reachable, the partition count of
  each topic, the log of partition 0 of each topic, the offset each consumer group has
  committed on each topic, the lines the scripts print with \<open>console.log\<close> in
  \<open>eachMessage\<close> (partition, offset, value), which are what the demos are for, and
  the other lines they log.
  \<^item> \<open>k_send\<close>: \<open>producer.send\<close> appends to the topic's log, creating a one-partition
    topic if it does not exist (the broker's automatic topic creation);
  \<^item> \<open>k_start_offset\<close>: where \<open>consumer.subscribe\<close> makes a group start: its committed
    offset, else the beginning with \<open>fromBeginning: true\<close>, else the end of the log;
  \<^item> \<open>k_consume\<close>: \<open>consumer.run\<close> hands \<open>eachMessage\<close> every message from there to
    the end of the log, in order, and commits the group's offset;
  \<^item> \<open>k_create_topic\<close>: \<open>admin.createTopics\<close>, which leaves an existing topic alone.
  \<open>harkirat_index\<close>, \<open>harkirat_producer\<close>, \<open>harkirat_consumer\<close> and \<open>admin_init\<close>
  are the four scripts; \<open>run().catch(console.error)\<close> ends a script at its first
  rejected call. A consumer keeps running after its backlog; the messages produced later
  reach it by a further \<open>k_consume\<close>. Messages here carry no key and go to partition 0.
\<close>

record kbroker =
  k_up :: bool
  k_parts :: "string \<Rightarrow> nat option"
  k_log :: "string \<Rightarrow> string list"
  k_committed :: "string \<times> string \<Rightarrow> nat option"
  k_console :: "(nat \<times> nat \<times> string) list"
  k_out :: "string list"

definition k_need_up :: "(kbroker, unit) gw" where
  "k_need_up b = (if k_up b then (Inr (), b) else (Inl (ErrorMsg ''Connection error: ECONNREFUSED''), b))"

definition k_send :: "string \<Rightarrow> string list \<Rightarrow> (kbroker, unit) gw" where
  "k_send t ms =
     gw_bind k_need_up (\<lambda>_ b.
       (Inr (), b\<lparr>k_parts := (if k_parts b t = None then (k_parts b)(t \<mapsto> 1) else k_parts b),
                  k_log := (k_log b)(t := k_log b t @ ms)\<rparr>))"

definition k_start_offset :: "kbroker \<Rightarrow> string \<Rightarrow> string \<Rightarrow> bool \<Rightarrow> nat" where
  "k_start_offset b g t from_beginning =
     (case k_committed b (g, t) of
        Some off \<Rightarrow> off
      | None \<Rightarrow> if from_beginning then 0 else length (k_log b t))"

text \<open>The lines \<open>eachMessage\<close> prints for the messages from offset \<open>off\<close> on.\<close>

definition k_lines :: "nat \<Rightarrow> string list \<Rightarrow> (nat \<times> nat \<times> string) list" where
  "k_lines off ms = map (\<lambda>(i, m). (0, i, m)) (zip [off..<off + length ms] ms)"

definition k_consume :: "string \<Rightarrow> string \<Rightarrow> bool \<Rightarrow> (kbroker, unit) gw" where
  "k_consume g t from_beginning =
     gw_bind k_need_up (\<lambda>_ b.
       (let off = k_start_offset b g t from_beginning in
        (Inr (), b\<lparr>k_console := k_console b @ k_lines off (drop off (k_log b t)),
                   k_committed := (k_committed b)((g, t) \<mapsto> length (k_log b t))\<rparr>)))"

definition k_create_topic :: "string \<Rightarrow> nat \<Rightarrow> (kbroker, unit) gw" where
  "k_create_topic t n =
     gw_bind k_need_up (\<lambda>_ b.
       (Inr (), if k_parts b t = None then b\<lparr>k_parts := (k_parts b)(t \<mapsto> n)\<rparr> else b))"

definition demo_msg :: string where
  "demo_msg = ''Hello KafkaJS user from NodeJS!''"

text \<open>\<open>Kafka-Harkirat/src/producer.ts\<close>: connect, send one message to \<open>payment\<close>.\<close>

definition harkirat_producer :: "(kbroker, unit) gw" where
  "harkirat_producer = gw_bind k_need_up (\<lambda>_. k_send ''payment'' [demo_msg])"

text \<open>\<open>Kafka-Harkirat/src/consumer.ts\<close>: group \<open>payment\<close>, \<open>fromBeginning: true\<close>.\<close>

definition harkirat_consumer :: "(kbroker, unit) gw" where
  "harkirat_consumer = gw_bind k_need_up (\<lambda>_. k_consume ''payment'' ''payment'' True)"

text \<open>\<open>Kafka-Harkirat/src/index.ts\<close>: the producer part, then a consumer of group
  \<open>payment-service\<close> from the beginning.\<close>

definition harkirat_index :: "(kbroker, unit) gw" where
  "harkirat_index =
     gw_bind k_need_up (\<lambda>_. gw_bind (k_send ''payment'' [demo_msg]) (\<lambda>_.
     gw_bind k_need_up (\<lambda>_. k_consume ''payment-service'' ''payment'' True)))"

text \<open>
  \<open>admin.js\<close>: \<open>admin.connect()\<close> is called without \<open>await\<close>, so the success line
  is logged at once, whatever becomes of the connection; \<open>createTopics\<close> (which
  connects on its own) creates \<open>rider-updates\<close> with two partitions, and its rejection
  rejects \<open>init()\<close>, which nothing catches; then the admin client disconnects.
\<close>

definition k_log_line :: "string \<Rightarrow> (kbroker, unit) gw" where
  "k_log_line l b = (Inr (), b\<lparr>k_out := k_out b @ [l]\<rparr>)"


definition kb0 :: kbroker where
  "kb0 = \<lparr>k_up = True, k_parts = Map.empty, k_log = (\<lambda>t. []), k_committed = Map.empty, k_console = [],
            k_out = []\<rparr>"

lemmas k_unfold = k_log_line_def k_need_up_def k_send_def k_consume_def k_create_topic_def gw_bind_def Let_def

lemma k_down:
  "\<not> k_up b \<Longrightarrow> harkirat_index b = (Inl (ErrorMsg ''Connection error: ECONNREFUSED''), b)
     \<and> harkirat_producer b = (Inl (ErrorMsg ''Connection error: ECONNREFUSED''), b)
     \<and> harkirat_consumer b = (Inl (ErrorMsg ''Connection error: ECONNREFUSED''), b)"
  by (simp add: harkirat_index_def harkirat_producer_def harkirat_consumer_def k_unfold)

lemma k_consume_up:
  "k_up b \<Longrightarrow> k_consume g t fb b =
     (Inr (), b\<lparr>k_console := k_console b @ k_lines (k_start_offset b g t fb) (drop (k_start_offset b g t fb) (k_log b t)),
               k_committed := (k_committed b)((g, t) \<mapsto> length (k_log b t))\<rparr>)"
  by (simp add: k_unfold)

lemma k_consume_again:
  assumes "k_up b" "k_consume g t fb b = (r, b1)"
  shows "k_consume g t fb b1 = (Inr (), b1\<lparr>k_committed := (k_committed b1)((g, t) \<mapsto> length (k_log b1 t))\<rparr>)"
  using assms by (auto simp: k_consume_up k_start_offset_def k_lines_def)

lemma k_lines_append:
  "k_lines off (xs @ ys) = k_lines off xs @ k_lines (off + length xs) ys"
  using upt_add_eq_append [of off "off + length xs" "length ys"]
  by (simp add: k_lines_def zip_append add.assoc)

text \<open>
  C35: the demo of \<open>Kafka-Harkirat/src/index.ts\<close> sees its own message: with the broker
  up and its group new to the topic, the script succeeds and its consumer prints every
  message of \<open>payment\<close> from offset 0, in order, ending with the message the same run
  produced before it subscribed (because of \<open>fromBeginning: true\<close>), and the group's
  committed offset moves past it.
\<close>

theorem harkirat_index_sees_own:
  assumes "k_up b" "k_committed b (''payment-service'', ''payment'') = None"
  shows "\<exists>b'. harkirat_index b = (Inr (), b')
           \<and> k_console b' = k_console b @ k_lines 0 (k_log b ''payment'') @ [(0, length (k_log b ''payment''), demo_msg)]
           \<and> k_committed b' (''payment-service'', ''payment'') = Some (Suc (length (k_log b ''payment'')))"
  using assms
  by (simp add: harkirat_index_def k_unfold k_start_offset_def k_lines_append) (simp add: k_lines_def)

theorem harkirat_index_sees_own_witness:
  "fst (harkirat_index (snd (harkirat_producer kb0))) = Inr ()
   \<and> k_console (snd (harkirat_index (snd (harkirat_producer kb0)))) = [(0, 0, demo_msg), (0, 1, demo_msg)]"
proof -
  have p: "snd (harkirat_producer kb0) = kb0\<lparr>k_parts := [''payment'' \<mapsto> 1], k_log := (\<lambda>t. [])(''payment'' := [demo_msg])\<rparr>"
    by (simp add: harkirat_producer_def k_unfold kb0_def)
  have "k_up (snd (harkirat_producer kb0))" "k_committed (snd (harkirat_producer kb0)) (''payment-service'', ''payment'') = None"
    unfolding p by (simp_all add: kb0_def)
  from harkirat_index_sees_own [OF this] show ?thesis
    unfolding p by (auto simp: kb0_def k_lines_def)
qed


text \<open>
  C36: the consumer group of \<open>consumer.ts\<close> resumes where it stopped: after one run of
  the consumer, a run of the producer and a second run of the consumer print exactly the
  one new message, at the next offset, and nothing printed before is printed again.
\<close>

theorem harkirat_consumer_resumes:
  assumes "k_up b" "harkirat_consumer b = (r, b1)"
  shows "\<exists>b2. harkirat_consumer (snd (harkirat_producer b1)) = (Inr (), b2)
              \<and> k_console b2 = k_console b1 @ [(0, length (k_log b ''payment''), demo_msg)]"
  using assms
  by (auto simp: harkirat_consumer_def harkirat_producer_def k_unfold k_start_offset_def k_lines_def)

theorem harkirat_consumer_resumes_witness:
  "\<exists>b2. harkirat_consumer (snd (harkirat_producer (snd (harkirat_consumer (snd (harkirat_producer kb0))))))
          = (Inr (), b2)
        \<and> k_console b2 = [(0, 0, demo_msg), (0, 1, demo_msg)]"
proof -
  let ?b = "snd (harkirat_producer kb0)"
  have up: "k_up ?b" by (simp add: harkirat_producer_def k_unfold kb0_def)
  have c: "harkirat_consumer ?b = (fst (harkirat_consumer ?b), snd (harkirat_consumer ?b))" by simp
  have "k_console (snd (harkirat_consumer ?b)) = [(0, 0, demo_msg)]" "length (k_log ?b ''payment'') = 1"
    by (simp_all add: harkirat_consumer_def harkirat_producer_def k_unfold kb0_def k_start_offset_def k_lines_def)
  with harkirat_consumer_resumes [OF up c] show ?thesis by simp
qed

end
