(* ===== verification/Spec2Isabelle.thy ===== *)
theory Spec2Isabelle
  imports Router Interleaving UserBackend WsClient SubmissionQueue OrdersBoot KafkaDemo
begin

text \<open>
  A verification model of the TypeScript code under \<open>src/\<close>: the API gateway of
  \<open>Ecomm_Microservices\<close> (the GraphQL entry point that fans reads and writes out to
  the user, product and order services, caches product reads in Redis (cache-aside) and
  drops the product listing from the cache when a message arrives on the inventory topic),
  the user service backend it calls, and the stand-alone demos: the Redis submission
  queue of \<open>Redis-Leetcode\<close>, the WebSocket relay of \<open>WebSockets/server\<close>
  with its React client \<open>WebSockets/client\<close>, and the Kafka scripts of \<open>Kafka\<close>.

  Theories, leaf first:
  \<^item> \<open>Prelude\<close>: JavaScript values \<open>jsval\<close>, the error taxonomy \<open>error\<close>, the
    computation type \<open>('s, 'a) gw\<close> (state passing with an error result) with
    \<open>gw_bind\<close> (await), \<open>gw_catch\<close> (try/catch), the frame predicate \<open>keeps\<close>
    and the rewriting collection \<open>gw_simps\<close>.
  \<^item> \<open>JsRuntime\<close>: the language semantics the code relies on (template-literal
    ToString, property reads, \<open>split\<close> as a \<open>function\<close> with a length measure,
    \<open>join\<close>, object literals) and \<open>codec\<close>, the pair \<open>JSON.stringify\<close> /
    \<open>JSON.parse\<close>, a parameter of every theorem that serialises.
  \<^item> \<open>Clients\<close>: the gateway's world (Redis key space, backend behaviour, the log of
    requests each backend received), \<open>cache_get/set/del\<close> (\<open>library/redis.ts\<close>)
    and \<open>call_service\<close> (axios, \<open>library/http.ts\<close>). The Redis client has no
    \<open>'error'\<close> listener, so under node-redis v4 a lost connection ends the gateway
    process: the commands of a running gateway do not fail, and the model has no
    Redis-down state for them.
  \<^item> \<open>ProductService\<close>, \<open>OrderService\<close>, \<open>UserService\<close>: the three service
    adapters of \<open>gateway/src/services\<close>, one definition per method; the order service's
    bearer-token check is \<open>authorize\<close>, with \<open>jsonwebtoken.verify\<close> a parameter.
  \<^item> \<open>Invalidator\<close>: \<open>gateway/src/index.ts\<close>: the \<open>eachMessage\<close> handler, topic
    delivery, and \<open>main\<close>'s startup sequence with its fatal-error handler.
  \<^item> \<open>Schema\<close>: the SDL of \<open>schema.ts\<close> as data and the output/input-type rules
    graphql-js's \<open>validateSchema\<close> applies before it executes anything
    (\<open>schema_errors\<close>, characterised by \<open>schema_errors_Nil_iff\<close>).
  \<^item> \<open>Router\<close>: \<open>app.ts\<close>: the root value's bindings with GraphQL's calling
    convention \<open>fn(args, context)\<close>, restricted to the fields \<open>schema.ts\<close> declares
    (\<open>execute\<close>), and the \<open>/graphql\<close> endpoint (\<open>graphql_handler\<close>), which
    validates the schema first.
  \<^item> \<open>Interleaving\<close>: concurrent product reads and invalidations as an inductive step
    relation \<open>rstep\<close> (one step per awaited call), its reachable states, and the
    executable scheduler \<open>exec_step\<close> proved equivalent to it; the history
    \<open>fetched\<close> records what the backend returned to each request path.
  \<^item> \<open>UserBackend\<close>: \<open>Services/User-Service/src/app.ts\<close>: registration split at
    its awaits (\<open>reg_lookup\<close>: zod validation and \<open>findOne\<close>; \<open>reg_create\<close>:
    the bcrypt callback and \<open>create\<close>), run in a row (\<open>register\<close>) or interleaved
    across concurrent requests (\<open>reg_step\<close>); \<open>GET /:id\<close> with bson's ObjectId
    cast, \<open>GET /\<close>, Express routing, over a collection record.
  \<^item> \<open>OrdersBoot\<close>: the orders service's \<open>main\<close> (\<open>services/orders/src/index.ts\<close>):
    its two awaited connections, \<open>listen\<close> on success, the fatal handler.
  \<^item> \<open>SubmissionQueue\<close>: the Leetcode server (\<open>connectToRedis\<close>, \<open>POST /submit\<close>)
    and worker (\<open>main\<close>, its \<open>BRPOP\<close> loop, the \<open>setTimeout\<close> retry) over one
    shared Redis state, interleaved with Redis outages by the step relation \<open>lc_step\<close>.
    The server's clients have \<open>'error'\<close> listeners, so their \<open>connect()\<close> waits
    for Redis (\<open>None\<close> while it is down) and they reconnect after an outage; the
    worker's client has none, so its first \<open>connect()\<close> with Redis down rejects with
    \<open>isOpen\<close> left set, and a dropped connection ends the worker process.
  \<^item> \<open>Relay\<close>: the WebSocket server's socket set with ready states, its connection and
    message handlers and the closing handshake, run over event sequences.
  \<^item> \<open>WsClient\<close>: \<open>App.jsx\<close>: the component's state, its mount effect and
    cleanup, \<open>onopen\<close>/\<open>onmessage\<close>, the button's click handler and what it
    renders, each acting on the relay of \<open>Relay\<close>.
  \<^item> \<open>KafkaDemo\<close>: \<open>admin.js\<close> and the producer, consumer and combined scripts of
    \<open>Kafka-Harkirat\<close>, as broker operations on a record of topic logs, committed
    group offsets and the lines the scripts print.

  What the lemmas show:
  \<^item> the cache-aside contract on every branch (hit, miss, corrupt entry, backend error),
    cold-then-warm, at most one backend request per read, and the key guards of
    product creation and order placement on each of their error paths;
  \<^item> the invariant of the cache over all interleavings (every entry \<open>products/x\<close> is
    the serialisation of data the backend returned to \<open>GET /x\<close>), the stampede and the
    invalidation race as concrete schedules, and that a sequential read is one
    uninterleaved schedule;
  \<^item> that the schema of \<open>schema.ts\<close> fails graphql-js's type rules (the input type
    \<open>RegisterUserResult\<close> used as a result), so that every request to \<open>/graphql\<close>
    is answered 500 before any resolver runs. The lemmas about \<open>execute\<close> below
    describe what the resolvers do once the schema validates (for instance with
    \<open>RegisterUserResult\<close> declared as \<open>type\<close>, which \<open>gateway_schema_invalid\<close>
    shows is then error-free);
  \<^item> the routing of every GraphQL operation to one request of its own service, and what
    the calling convention makes of \<open>user(id)\<close> and \<open>registerUser\<close>;
  \<^item> the startup order and the fatal path of the gateway process and of the orders
    service;
  \<^item> that the user backend rejects a second registration of a name once the first has
    completed, but that two concurrent registrations of one new name can both succeed
    (check-then-act across awaits), and that a registered user is found under the id it
    was given (while fewer than \<open>16^24\<close> ids were minted);
  \<^item> that the Redis list is a FIFO queue (refinement of \<open>fifo_enq\<close>/\<open>fifo_deq\<close>),
    that no submission is lost, duplicated or reordered under any interleaving, that the
    worker's loop terminates on a finite queue (the \<open>function\<close>'s measure is the list
    length), that a listening server always has its connections and accepts every
    serialisable submission, and that the worker stops for good after one error (a parse
    error, or a first connection attempt while Redis was down), while from any reachable
    state with Redis up a worker in
    its loop reaches, by its own steps, a state in which every accepted submission has
    been handled in order (\<open>lc_eventually_handled\<close>, over \<open>(lc_step c)\<^sup>*\<^sup>*\<close>);
  \<^item> that the relay never echoes, invents or reorders frames, delivers each message once to
    every other open socket, and sends nothing to a closing one; composed with the React
    client, a click in one browser is shown by the other's next \<open>onmessage\<close>;
  \<^item> that the combined Kafka script, on a new consumer group, prints the whole topic from
    offset 0 including its own message (\<open>fromBeginning\<close>) and commits past it, that a
    restarted consumer resumes at its group's committed offset, and that \<open>admin.js\<close>
    logs its connection success whether or not the broker is reachable.
  No fuel is used: every loop of the code is either structural (\<open>consume\<close>,
  \<open>serve\<close>, \<open>relay_run\<close>) or a \<open>function\<close> with a measure (\<open>split_aux\<close>,
  \<open>worker_drain\<close>); the unbounded behaviours (the worker waiting forever, the stuck
  retry) are stated over the step relations.

  Not modelled: logging and HTTP framework plumbing (morgan, \<open>express.json\<close>, the
  \<open>Hello World\<close> handlers), the Kafka client configuration files of the gateway,
  the products and orders services and \<open>Kafka/client.js\<close> (they construct clients and
  contain no logic), the broker's partitioning and consumer-group rebalancing (the demos
  use one partition and one consumer per group), the markup and CSS of the React client,
  the coercion of resolver
  results to the schema's types and of arguments to input types (the router passes the
  argument object through), and the inside of \<open>JSON\<close>, \<open>bcrypt\<close> and
  \<open>jsonwebtoken\<close>, which are parameters.
\<close>

subsection \<open>Properties across components\<close>

definition reg_world :: world where
  "reg_world = \<lparr>store = Map.empty,
     backend = (\<lambda>svc q. Some (fst (user_app demo_hasher demo_signer q empty_db))), sent = []\<rparr>"

text \<open>
  C2: delivering one message to the invalidator, whatever its content, makes the next
  \<open>getAll\<close> a miss: it calls the product backend once and stores the fresh listing.
\<close>

theorem message_forces_refetch:
  assumes "replies w ProductSvc (get_req ''/'') v" "stringify c v = Some s"
  shows "product_getAll c (snd (each_message m w)) =
           (Inr v, w\<lparr>store := (store w)(''products/'' \<mapsto> s), sent := sent w @ [(ProductSvc, get_req ''/'')]\<rparr>)"
proof -
  let ?w = "w\<lparr>store := (store w)(''products/'' := None)\<rparr>"
  have "product_getAll c ?w =
          (Inr v, ?w\<lparr>sent := sent ?w @ [(ProductSvc, get_req ''/'')], store := (store ?w)(''products/'' \<mapsto> s)\<rparr>)"
    unfolding product_getAll_def using assms by (intro cache_aside_miss) (simp_all add: cached_value_def)
  then show ?thesis using assms(1) by (simp add: each_message_up)
qed

theorem message_forces_refetch_witness:
  "product_getAll demo_codec (snd (each_message sample_msg (demo_world\<lparr>store := [''products/'' \<mapsto> ''old'']\<rparr>))) =
     (Inr (JStr ''p1''), demo_world\<lparr>store := [''products/'' \<mapsto> ''\"p1\"''], sent := [(ProductSvc, get_req ''/'')]\<rparr>)"
  using message_forces_refetch [of "demo_world\<lparr>store := [''products/'' \<mapsto> ''old'']\<rparr>" "JStr ''p1''"
          demo_codec "''\"p1\"''" sample_msg]
  by (simp add: demo_world_def demo_codec_def replies_def)

text \<open>
  C22: registration through the gateway can never succeed against the user service of
  this repository: the gateway posts \<open>{ input: {username, password} }\<close>, the service
  validates \<open>{username, password}\<close> at the top level of the body, so every
  \<open>registerUser\<close> ends in the status 400 of the validation, whatever the input.
\<close>

theorem register_via_gateway_rejected:
  assumes "backend w UserSvc = (\<lambda>q. Some (fst (user_app hf sg q db)))"
  shows "execute d OpRegisterUser (JObj [(''input'', inp)]) ctx w =
           (Inl (HttpStatus 400), w\<lparr>sent := sent w @ [(UserSvc, post_req ''/'' (js_object [(''input'', inp)]) [])]\<rparr>)"
proof -
  have "validate_register (js_object [(''input'', inp)]) = None"
    by (simp add: validate_register_def js_object_def)
  then have "backend w UserSvc (post_req ''/'' (js_object [(''input'', inp)]) []) = Some (Response 400 zod_errors)"
    using assms by (simp add: user_app_def post_req_def register_def reg_lookup_def)
  then show ?thesis
    by (simp add: execute_def schema_fields_eq op_name_def root_def user_post_def call_service_status)
qed

theorem register_via_gateway_rejected_witness:
  "execute demo_deps OpRegisterUser (JObj [(''input'', reg_body ''ann'' ''pw'')]) \<lparr>headers = []\<rparr> reg_world =
     (Inl (HttpStatus 400), reg_world\<lparr>sent := [(UserSvc, post_req ''/'' (js_object [(''input'', reg_body ''ann'' ''pw'')]) [])]\<rparr>)"
  using register_via_gateway_rejected [of reg_world demo_hasher demo_signer empty_db demo_deps "reg_body ''ann'' ''pw''"]
  by (simp add: reg_world_def)

end
